(* ===== verification/Prelude.thy ===== *)
theory Prelude
  imports Main "HOL-Library.Char_ord" "HOL-Library.List_Lexorder" "HOL-Library.AList"
begin

text \<open>
  Shared vocabulary of the development: error results, the collections of simplification
  rules, the generic lemmas on lists and association lists, and the two interfaces that
  several components meet (a machine with an invariant, a checked addition).
  A Go value of type (T, error) is a sum \<open>error + T\<close>: \<open>Inl\<close> is the
  non-nil error, \<open>Inr\<close> the value returned with a nil error.
  A Go string is its list of bytes, a HOL \<open>string\<close>; the order of
  \<open>HOL-Library.List_Lexorder\<close> on it is Go's byte-wise string order.
\<close>

section \<open>Results\<close>

named_theorems result_simps "rules that open a chain of fallible steps"

definition rbind :: "'e + 'a \<Rightarrow> ('a \<Rightarrow> 'e + 'b) \<Rightarrow> 'e + 'b" where
  "rbind m f = (case m of Inl e \<Rightarrow> Inl e | Inr a \<Rightarrow> f a)"

definition require :: "bool \<Rightarrow> 'e \<Rightarrow> 'e + unit" where
  "require b e = (if b then Inr () else Inl e)"

definition or_fail :: "'e + 'a \<Rightarrow> 'f \<Rightarrow> 'f + 'a" where
  "or_fail m e = (case m of Inl _ \<Rightarrow> Inl e | Inr a \<Rightarrow> Inr a)"

definition lift_error :: "('e \<Rightarrow> 'f) \<Rightarrow> 'e + 'a \<Rightarrow> 'f + 'a" where
  "lift_error f m = (case m of Inl e \<Rightarrow> Inl (f e) | Inr a \<Rightarrow> Inr a)"

definition succeeds :: "'e + 'a \<Rightarrow> bool" where
  "succeeds m = (case m of Inl _ \<Rightarrow> False | Inr _ \<Rightarrow> True)"

lemma rbind_simps [simp, result_simps]:
  "rbind (Inl e) f = Inl e" "rbind (Inr a) f = f a"
  by (simp_all add: rbind_def)

lemma rbind_Inr [result_simps]: "rbind m f = Inr b \<longleftrightarrow> (\<exists>a. m = Inr a \<and> f a = Inr b)"
  by (cases m) auto

lemma rbind_Inl [result_simps]: "rbind m f = Inl e \<longleftrightarrow> m = Inl e \<or> (\<exists>a. m = Inr a \<and> f a = Inl e)"
  by (cases m) auto

lemma require_simps [simp, result_simps]:
  "require b e = Inr u \<longleftrightarrow> b" "require b e = Inl e' \<longleftrightarrow> \<not> b \<and> e' = e"
  by (auto simp: require_def)

lemma rbind_unit: "rbind m (\<lambda>_ :: unit. k) = Inr r \<longleftrightarrow> m = Inr () \<and> k = Inr r"
  by (cases m) auto

lemma or_fail_simps [simp, result_simps]:
  "or_fail (Inl x) e = Inl e" "or_fail (Inr a) e = Inr a"
  by (simp_all add: or_fail_def)

lemma or_fail_Inr [result_simps]: "or_fail m e = Inr b \<longleftrightarrow> m = Inr b"
  by (cases m) auto

lemma lift_error_Inr [result_simps]: "lift_error f m = Inr b \<longleftrightarrow> m = Inr b"
  by (cases m) (auto simp: lift_error_def)

lemma branch_Inr [result_simps]:
  "(if b then Inl e else m) = Inr r \<longleftrightarrow> \<not> b \<and> m = Inr r"
  "(if b then m else Inl e) = Inr r \<longleftrightarrow> b \<and> m = Inr r"
  "(case x of None \<Rightarrow> Inl e | Some v \<Rightarrow> f v) = Inr r \<longleftrightarrow> (\<exists>v. x = Some v \<and> f v = Inr r)"
  "(case x of None \<Rightarrow> m | Some v \<Rightarrow> Inl (g v)) = Inr r \<longleftrightarrow> x = None \<and> m = Inr r"
  by (auto split: option.splits)

lemma succeeds_iff: "succeeds m \<longleftrightarrow> (\<exists>a. m = Inr a)"
  by (cases m) (auto simp: succeeds_def)

lemma succeeds_simps [simp, result_simps]: "succeeds (Inr a)" "\<not> succeeds (Inl e)"
  by (simp_all add: succeeds_def)

section \<open>Loops over lists\<close>

text \<open>A Go loop that stops at the first error, with the accumulator it threads.\<close>

fun fold_result :: "('a \<Rightarrow> 's \<Rightarrow> 'e + 's) \<Rightarrow> 'a list \<Rightarrow> 's \<Rightarrow> 'e + 's" where
  "fold_result f [] s = Inr s"
| "fold_result f (x # xs) s = rbind (f x s) (fold_result f xs)"

lemma fold_result_append:
  "fold_result f (xs @ ys) s = rbind (fold_result f xs s) (fold_result f ys)"
proof (induction xs arbitrary: s)
  case (Cons x xs)
  then show ?case by (cases "f x s") auto
qed simp

lemma fold_result_invariant:
  assumes "fold_result f xs s = Inr t" and "P s"
    and "\<And>x u v. x \<in> set xs \<Longrightarrow> P u \<Longrightarrow> f x u = Inr v \<Longrightarrow> P v"
  shows "P t"
  using assms
proof (induction xs arbitrary: s)
  case (Cons x xs)
  from Cons.prems(1) obtain u where u: "f x s = Inr u" "fold_result f xs u = Inr t"
    by (auto simp: result_simps)
  have "P u" using Cons.prems(2,3) u(1) by auto
  then show ?case using Cons.IH [OF u(2)] Cons.prems(3) by auto
qed simp

lemma find_Some_mem: "find P xs = Some x \<Longrightarrow> x \<in> set xs \<and> P x"
  by (auto simp: find_Some_iff in_set_conv_nth)

lemma find_None_all: "find P xs = None \<longleftrightarrow> (\<forall>x \<in> set xs. \<not> P x)"
  by (auto simp: find_None_iff)

lemma find_append:
  "find P (xs @ ys) = (case find P xs of None \<Rightarrow> find P ys | Some x \<Rightarrow> Some x)"
  by (induction xs) auto

section \<open>Go maps as association lists\<close>

text \<open>
  A Go map whose keys are strings is an association list without repeated keys:
  \<open>map_of\<close> reads it and \<open>AList.update\<close> assigns a key.
\<close>

lemma map_of_update_same [simp]: "map_of (AList.update k v m) k = Some v"
  by (simp add: update_conv)

lemma map_of_update_other: "k \<noteq> j \<Longrightarrow> map_of (AList.update k v m) j = map_of m j"
  by (simp add: update_conv)

section \<open>A machine with an invariant\<close>

text \<open>
  The contract shared by the stateful components: a start state and a partial step on
  it, and a property the start has and every successful step keeps. A run is any
  sequence of inputs; an input that is refused leaves the state as it is.
\<close>

fun run_machine :: "('i \<Rightarrow> 's \<Rightarrow> 'e + 's) \<Rightarrow> 'i list \<Rightarrow> 's \<Rightarrow> 's" where
  "run_machine step [] s = s"
| "run_machine step (i # is) s =
     run_machine step is (case step i s of Inl _ \<Rightarrow> s | Inr t \<Rightarrow> t)"

locale guarded_machine =
  fixes step :: "'i \<Rightarrow> 's \<Rightarrow> 'e + 's"
    and inv :: "'s \<Rightarrow> bool"
  assumes step_inv: "inv s \<Longrightarrow> step i s = Inr t \<Longrightarrow> inv t"
begin

lemma run_inv: "inv s \<Longrightarrow> inv (run_machine step is s)"
proof (induction "is" arbitrary: s)
  case (Cons i "is")
  then show ?case using step_inv by (cases "step i s") auto
qed simp

end

end
