(* ===== verification/GoText.thy ===== *)
theory GoText
  imports Prelude
begin

text \<open>
  The part of Go's \<open>strings\<close>, \<open>unicode\<close>, \<open>unicode/utf8\<close> and \<open>strconv\<close> packages that the
  program uses, on byte strings: decoding of runes, white space, control characters,
  trimming, splitting, joining, letter case, decimal numerals.
  Letter case is written out for the Basic Latin, Latin-1, Greek and Cyrillic letters;
  other runes are taken as caseless.
\<close>

section \<open>Bytes and runes\<close>

abbreviation byte :: "char \<Rightarrow> nat" where
  "byte c \<equiv> of_char c"

abbreviation chr :: "nat \<Rightarrow> char" where
  "chr n \<equiv> char_of n"

definition in_range :: "nat \<Rightarrow> nat \<Rightarrow> nat \<Rightarrow> bool" where
  "in_range lo hi n = (lo \<le> n \<and> n \<le> hi)"

definition rune_error :: nat where
  "rune_error = 0xFFFD"

definition decode2 :: "nat \<Rightarrow> nat \<Rightarrow> nat" where
  "decode2 a b = (a - 0xC0) * 64 + (b - 0x80)"

definition decode3 :: "nat \<Rightarrow> nat \<Rightarrow> nat \<Rightarrow> nat" where
  "decode3 a b c = (a - 0xE0) * 4096 + (b - 0x80) * 64 + (c - 0x80)"

definition decode4 :: "nat \<Rightarrow> nat \<Rightarrow> nat \<Rightarrow> nat \<Rightarrow> nat" where
  "decode4 a b c d = (a - 0xF0) * 262144 + (b - 0x80) * 4096 + (c - 0x80) * 64 + (d - 0x80)"

text \<open>
  \<open>utf8.DecodeRune\<close>: the rune at the front and the number of bytes it takes. A byte
  that starts no valid sequence is \<open>U+FFFD\<close> of width one.
\<close>

definition second_ok :: "nat \<Rightarrow> nat \<Rightarrow> bool" where
  "second_ok a b =
     (if a = 0xE0 then in_range 0xA0 0xBF b
      else if a = 0xED then in_range 0x80 0x9F b
      else if a = 0xF0 then in_range 0x90 0xBF b
      else if a = 0xF4 then in_range 0x80 0x8F b
      else in_range 0x80 0xBF b)"

fun decode_rune :: "nat list \<Rightarrow> nat \<times> nat" where
  "decode_rune [] = (rune_error, 0)"
| "decode_rune (a # s) =
     (if a < 0x80 then (a, 1)
      else if in_range 0xC2 0xDF a then
        (case s of b # _ \<Rightarrow> if second_ok a b then (decode2 a b, 2) else (rune_error, 1)
         | _ \<Rightarrow> (rune_error, 1))
      else if in_range 0xE0 0xEF a then
        (case s of b # c # _ \<Rightarrow>
           if second_ok a b \<and> in_range 0x80 0xBF c then (decode3 a b c, 3) else (rune_error, 1)
         | _ \<Rightarrow> (rune_error, 1))
      else if in_range 0xF0 0xF4 a then
        (case s of b # c # d # _ \<Rightarrow>
           if second_ok a b \<and> in_range 0x80 0xBF c \<and> in_range 0x80 0xBF d
           then (decode4 a b c d, 4) else (rune_error, 1)
         | _ \<Rightarrow> (rune_error, 1))
      else (rune_error, 1))"

text \<open>\<open>for _, r := range s\<close>: each rune with the bytes it stands for.\<close>

fun runes :: "string \<Rightarrow> (nat \<times> string) list" where
  "runes [] = []"
| "runes (c # s) =
     (let (r, n) = decode_rune (map of_char (take 4 (c # s)))
      in (r, c # take (n - 1) s) # runes (drop (n - 1) s))"

definition rune_count :: "string \<Rightarrow> nat" where
  "rune_count s = length (runes s)"

definition ascii :: "string \<Rightarrow> bool" where
  "ascii s = list_all (\<lambda>c. byte c < 0x80) s"

lemma decode_rune_ascii: "a < 0x80 \<Longrightarrow> decode_rune (a # s) = (a, 1)"
  by simp

declare decode_rune.simps [simp del]

lemma concat_runes [simp]: "concat (map snd (runes s)) = s"
proof (induction s rule: runes.induct)
  case (2 c s)
  obtain r n where "decode_rune (map of_char (take 4 (c # s))) = (r, n)" by fastforce
  then show ?case using 2 by simp
qed simp

lemma runes_ascii: "ascii s \<Longrightarrow> runes s = map (\<lambda>c. (byte c, [c])) s"
  by (induction s) (auto simp: ascii_def decode_rune_ascii)

lemma rune_count_ascii: "ascii s \<Longrightarrow> rune_count s = length s"
  by (simp add: rune_count_def runes_ascii)

section \<open>Character classes and letter case\<close>

definition is_space_point :: "int \<Rightarrow> bool" where
  "is_space_point r =
     (9 \<le> r \<and> r \<le> 13 \<or> r = 32 \<or> r = 0x85 \<or> r = 0xA0 \<or> r = 0x1680 \<or> 0x2000 \<le> r \<and> r \<le> 0x200A
      \<or> r = 0x2028 \<or> r = 0x2029 \<or> r = 0x202F \<or> r = 0x205F \<or> r = 0x3000)"

definition is_space_rune :: "nat \<Rightarrow> bool" where
  "is_space_rune r = is_space_point (int r)"

definition is_control_rune :: "nat \<Rightarrow> bool" where
  "is_control_rune r = (r < 32 \<or> in_range 0x7F 0x9F r)"

definition is_digit :: "char \<Rightarrow> bool" where
  "is_digit c = in_range 48 57 (byte c)"

definition lower_rune :: "nat \<Rightarrow> nat" where
  "lower_rune r =
     (if r < 0x80 then (if in_range 65 90 r then r + 32 else r)
      else if in_range 0xC0 0xDE r \<and> r \<noteq> 0xD7 then r + 32
      else if in_range 0x391 0x3A9 r \<and> r \<noteq> 0x3A2 then r + 32
      else if in_range 0x400 0x40F r then r + 80
      else if in_range 0x410 0x42F r then r + 32
      else r)"

definition upper_rune :: "nat \<Rightarrow> nat" where
  "upper_rune r =
     (if r < 0x80 then (if in_range 97 122 r then r - 32 else r)
      else if in_range 0xE0 0xFE r \<and> r \<noteq> 0xF7 then r - 32
      else if in_range 0x3B1 0x3C9 r \<and> r \<noteq> 0x3C2 then r - 32
      else if in_range 0x430 0x44F r then r - 32
      else if in_range 0x450 0x45F r then r - 80
      else r)"

definition encode_point :: "int \<Rightarrow> string" where
  "encode_point r =
     (if r < 0x80 then [char_of r]
      else if r < 0x800 then [char_of (0xC0 + r div 64), char_of (0x80 + r mod 64)]
      else if r < 0x10000 then
        [char_of (0xE0 + r div 4096), char_of (0x80 + r div 64 mod 64), char_of (0x80 + r mod 64)]
      else [char_of (0xF0 + r div 262144), char_of (0x80 + r div 4096 mod 64),
            char_of (0x80 + r div 64 mod 64), char_of (0x80 + r mod 64)])"

definition encode_rune :: "nat \<Rightarrow> string" where
  "encode_rune r = encode_point (int r)"

text \<open>A string given by its code points (for the literals that are not ASCII).\<close>

definition utf8 :: "int list \<Rightarrow> string" where
  "utf8 rs = concat (map encode_point rs)"

definition map_runes :: "(nat \<Rightarrow> nat) \<Rightarrow> string \<Rightarrow> string" where
  "map_runes f s = concat (map (\<lambda>(r, _). encode_rune (f r)) (runes s))"

definition to_lower :: "string \<Rightarrow> string" where
  "to_lower s = map_runes lower_rune s"

section \<open>Trimming, splitting and joining\<close>

text \<open>\<open>strings.TrimSpace\<close>, \<open>strings.Fields\<close>, \<open>strings.Join\<close>, \<open>strings.Split\<close> and \<open>strings.ReplaceAll\<close> for
  one-byte separators.\<close>

definition trim_space :: "string \<Rightarrow> string" where
  "trim_space s =
     concat (map snd (rev (dropWhile (is_space_rune \<circ> fst)
       (rev (dropWhile (is_space_rune \<circ> fst) (runes s))))))"

fun fields_aux :: "(nat \<times> string) list \<Rightarrow> string \<Rightarrow> string list" where
  "fields_aux [] cur = (if cur = [] then [] else [cur])"
| "fields_aux ((r, b) # rs) cur =
     (if is_space_rune r then (if cur = [] then fields_aux rs [] else cur # fields_aux rs [])
      else fields_aux rs (cur @ b))"

definition fields :: "string \<Rightarrow> string list" where
  "fields s = fields_aux (runes s) []"

fun join :: "string \<Rightarrow> string list \<Rightarrow> string" where
  "join sep [] = []"
| "join sep [x] = x"
| "join sep (x # y # xs) = x @ sep @ join sep (y # xs)"

fun split_on :: "char \<Rightarrow> string \<Rightarrow> string list" where
  "split_on d [] = [[]]"
| "split_on d (c # s) =
     (if c = d then [] # split_on d s
      else (case split_on d s of [] \<Rightarrow> [[c]] | w # ws \<Rightarrow> (c # w) # ws))"

definition replace_char :: "char \<Rightarrow> char \<Rightarrow> string \<Rightarrow> string" where
  "replace_char a b s = map (\<lambda>c. if c = a then b else c) s"

definition squeeze :: "string \<Rightarrow> string" where
  "squeeze s = join '' '' (fields s)"

lemma split_on_not_Nil [simp]: "split_on d s \<noteq> []"
  by (induction s) (auto split: list.splits)

lemma join_split_on: "join [d] (split_on d s) = s"
proof (induction s)
  case (Cons c s)
  obtain w ws where w: "split_on d s = w # ws" by (cases "split_on d s") auto
  with Cons show ?case by (cases ws) auto
qed simp

section \<open>Decimal numerals\<close>

fun show_nat :: "nat \<Rightarrow> string" where
  "show_nat n = (if n < 10 then [chr (48 + n)] else show_nat (n div 10) @ [chr (48 + n mod 10)])"

declare show_nat.simps [simp del]

definition show_int :: "int \<Rightarrow> string" where
  "show_int i = (if i < 0 then ''-'' @ show_nat (nat (- i)) else show_nat (nat i))"

definition nat_of_digits :: "string \<Rightarrow> nat" where
  "nat_of_digits s = foldl (\<lambda>a c. 10 * a + (byte c - 48)) 0 s"

lemma nat_of_digits_snoc: "nat_of_digits (s @ [c]) = 10 * nat_of_digits s + (byte c - 48)"
  by (simp add: nat_of_digits_def)

lemma nat_of_digits_Nil [simp]: "nat_of_digits [] = 0"
  by (simp add: nat_of_digits_def)

lemma nat_of_digits_append:
  "nat_of_digits (s @ t) = nat_of_digits s * 10 ^ length t + nat_of_digits t"
proof (induction t rule: rev_induct)
  case (snoc c t)
  have "nat_of_digits (s @ t @ [c]) = 10 * nat_of_digits (s @ t) + (byte c - 48)"
    using nat_of_digits_snoc [of "s @ t"] by simp
  then show ?case by (simp add: snoc nat_of_digits_snoc algebra_simps)
qed simp

lemma of_char_chr: "n < 256 \<Longrightarrow> (of_char (chr n :: char) :: nat) = n"
  by simp

lemma is_digit_chr: "n < 10 \<Longrightarrow> is_digit (chr (48 + n))"
  by (simp add: is_digit_def in_range_def)

lemma nat_of_digits_show_nat [simp]: "nat_of_digits (show_nat n) = n"
proof (induction n rule: show_nat.induct)
  case (1 n)
  then show ?case
    by (cases "n < 10")
       (simp_all add: show_nat.simps [of n] nat_of_digits_snoc nat_of_digits_def [of "[_]"])
qed

lemma show_nat_digits: "list_all is_digit (show_nat n)"
proof (induction n rule: show_nat.induct)
  case (1 n)
  then show ?case
    by (cases "n < 10") (simp_all add: show_nat.simps [of n] is_digit_chr)
qed

lemma show_nat_not_Nil [simp]: "show_nat n \<noteq> []"
  by (subst show_nat.simps) simp

lemma length_show_nat_le: "n < 10 ^ k \<Longrightarrow> 0 < k \<Longrightarrow> length (show_nat n) \<le> k"
proof (induction n arbitrary: k rule: show_nat.induct)
  case (1 n)
  show ?case
  proof (cases "n < 10")
    case True
    with "1.prems" show ?thesis by (simp add: show_nat.simps [of n])
  next
    case False
    with "1.prems" obtain j where k: "k = Suc j" and j: "0 < j"
      by (metis One_nat_def gr0_conv_Suc not_gr_zero power_one_right)
    have "n div 10 < 10 ^ j" using "1.prems"(1) k by (simp add: div_less_iff_less_mult mult.commute)
    with "1.IH" [of j] False j have "length (show_nat (n div 10)) \<le> j" by simp
    with False k show ?thesis by (simp add: show_nat.simps [of n])
  qed
qed

section \<open>Printable texts\<close>

text \<open>Texts of visible ASCII characters are their own runes and lose nothing to trimming.\<close>

definition plain :: "string \<Rightarrow> bool" where
  "plain s = (s \<noteq> [] \<and> list_all (\<lambda>c. 33 \<le> byte c \<and> byte c \<le> 126) s)"

lemma runes_plain: "plain s \<Longrightarrow> runes s = map (\<lambda>c. (byte c, [c])) s"
  by (rule runes_ascii) (auto simp: plain_def ascii_def list_all_iff)

lemma visible_rune: "33 \<le> n \<and> n \<le> 126 \<Longrightarrow> \<not> is_space_rune n \<and> \<not> is_control_rune n"
  by (auto simp: is_space_rune_def is_space_point_def is_control_rune_def in_range_def)

lemma trim_space_plain:
  assumes "plain s"
  shows "trim_space s = s"
proof -
  have "dropWhile (is_space_rune \<circ> fst) rs = rs" if "set rs \<subseteq> set (runes s)" for rs
  proof (cases rs)
    case (Cons x xs)
    then have "x \<in> set (runes s)" using that by auto
    then have "\<not> is_space_rune (fst x)" using assms visible_rune
      by (auto simp: runes_plain plain_def list_all_iff)
    then show ?thesis using Cons by simp
  qed simp
  then show ?thesis by (simp add: trim_space_def)
qed

end
