(* ===== verification/GoNumber.thy ===== *)
theory GoNumber
  imports Complex_Main GoText "HOL-Library.Log_Nat"
begin

text \<open>
  Numbers as the program reads them: decimal literals as exact rationals
  (\<open>big.Rat.SetString\<close>), and IEEE binary64 values (\<open>float64\<close>) as the rationals they
  denote, with the rounding that \<open>strconv.ParseFloat\<close> and the arithmetic operators
  apply. A payload number has at most 64 characters and a decimal exponent between
  -12 and 12, so its value is 0 or between 1e-76 and 1e76 in magnitude: the exponent range
  of binary64 is never left, and infinities, NaN and subnormals do not arise.
\<close>

section \<open>Decimal literals\<close>

definition pow10 :: "int \<Rightarrow> rat" where
  "pow10 e = (if 0 \<le> e then 10 ^ nat e else 1 / 10 ^ nat (- e))"

fun take_sign :: "string \<Rightarrow> bool \<times> string" where
  "take_sign [] = (False, [])"
| "take_sign (c # s) =
     (if c = CHR ''-'' then (True, s) else if c = CHR ''+'' then (False, s) else (False, c # s))"

text \<open>\<open>strconv.Atoi\<close> on a short string of digits with an optional sign.\<close>

definition atoi :: "string \<Rightarrow> int option" where
  "atoi s = (let (neg, d) = take_sign s in
     if d = [] \<or> \<not> list_all is_digit d then None
     else Some ((if neg then -1 else 1) * int (nat_of_digits d)))"

fun take_exponent :: "string \<Rightarrow> int option" where
  "take_exponent [] = Some 0"
| "take_exponent (c # s) = (if c = CHR ''e'' \<or> c = CHR ''E'' then atoi s else None)"

fun take_fraction :: "string \<Rightarrow> string \<times> string" where
  "take_fraction [] = ([], [])"
| "take_fraction (c # s) =
     (if c = CHR ''.'' then (takeWhile is_digit s, dropWhile is_digit s) else ([], c # s))"

definition parse_decimal :: "string \<Rightarrow> rat option" where
  "parse_decimal s =
     (let (neg, t) = take_sign s;
          ip = takeWhile is_digit t;
          (fp, r) = take_fraction (dropWhile is_digit t)
      in if ip = [] \<and> fp = [] then None
         else (case take_exponent r of None \<Rightarrow> None
               | Some e \<Rightarrow> Some ((if neg then -1 else 1) * of_nat (nat_of_digits (ip @ fp))
                                 * pow10 (e - int (length fp)))))"

lemma pow10_pos [simp]: "0 < pow10 e"
  by (simp add: pow10_def)

section \<open>Binary64 rounding\<close>

definition pow2 :: "int \<Rightarrow> rat" where
  "pow2 e = (if 0 \<le> e then 2 ^ nat e else 1 / 2 ^ nat (- e))"

definition round_even :: "rat \<Rightarrow> int" where
  "round_even x = (let f = \<lfloor>x\<rfloor>; r = x - of_int f in
     if r < 1/2 then f else if 1/2 < r then f + 1 else if even f then f else f + 1)"

text \<open>The number of binary digits of a positive integer.\<close>

function bit_length :: "int \<Rightarrow> int" where
  "bit_length n = (if n \<le> 0 then 0 else 1 + bit_length (n div 2))"
  by pat_completeness auto

termination
  by (relation "measure nat") auto

declare bit_length.simps [simp del]

lemma bit_length_floorlog: "bit_length n = int (floorlog 2 (nat n))"
proof (induction n rule: bit_length.induct)
  case (1 n)
  then show ?case
    using compute_floorlog [of 2 "nat n"] by (cases "n \<le> 0") (simp_all add: bit_length.simps [of n] nat_div_distrib)
qed

text \<open>The exponent of a positive rational: the \<open>e\<close> with \<open>2^e \<le> q < 2^(e+1)\<close>.\<close>

definition exponent :: "rat \<Rightarrow> int" where
  "exponent q = (let (n, d) = quotient_of q;
       e = bit_length n - bit_length d
     in if pow2 e \<le> q then e else e - 1)"

definition f64 :: "rat \<Rightarrow> rat" where
  "f64 q = (if q = 0 then 0 else
     let u = pow2 (exponent \<bar>q\<bar> - 52) in sgn q * of_int (round_even (\<bar>q\<bar> / u)) * u)"

definition fmul :: "rat \<Rightarrow> rat \<Rightarrow> rat" where "fmul a b = f64 (a * b)"
definition fadd :: "rat \<Rightarrow> rat \<Rightarrow> rat" where "fadd a b = f64 (a + b)"
definition fdiv :: "rat \<Rightarrow> rat \<Rightarrow> rat" where "fdiv a b = f64 (a / b)"

text \<open>\<open>math.Trunc\<close> and \<open>math.Round\<close> (half away from zero).\<close>

definition trunc :: "rat \<Rightarrow> int" where
  "trunc x = (if 0 \<le> x then \<lfloor>x\<rfloor> else \<lceil>x\<rceil>)"

definition round_away :: "rat \<Rightarrow> int" where
  "round_away x = (if 0 \<le> x then \<lfloor>x + 1/2\<rfloor> else - \<lfloor>- x + 1/2\<rfloor>)"

section \<open>Facts about the rounding\<close>

lemma pow2_pos [simp]: "0 < pow2 e"
  by (simp add: pow2_def)

lemma pow2_nonneg [simp]: "0 \<le> pow2 e" "pow2 e \<noteq> 0"
  using pow2_pos [of e] by linarith+

lemma pow2_Suc: "pow2 (e + 1) = 2 * pow2 e"
proof (cases "0 \<le> e")
  case True
  then have "nat (e + 1) = Suc (nat e)" by arith
  with True show ?thesis by (simp add: pow2_def)
next
  case False
  then have "nat (- e) = Suc (nat (- (e + 1)))" by arith
  with False show ?thesis by (auto simp: pow2_def)
qed

lemma pow2_add_nat: "pow2 (e + int k) = pow2 e * 2 ^ k"
proof (induction k)
  case (Suc k)
  have "e + int (Suc k) = (e + int k) + 1" by simp
  then show ?case using Suc pow2_Suc [of "e + int k"] by (simp add: ac_simps)
qed simp

lemma pow2_nat: "pow2 (int k) = 2 ^ k"
  by (simp add: pow2_def)

lemma pow2_add: "pow2 (a + b) = pow2 a * pow2 b"
proof (cases "0 \<le> b")
  case True
  then show ?thesis using pow2_add_nat [of a "nat b"] pow2_nat [of "nat b"] by simp
next
  case False
  then have "pow2 a = pow2 (a + b) * 2 ^ nat (- b)"
    using pow2_add_nat [of "a + b" "nat (- b)"] by simp
  with False show ?thesis by (simp add: pow2_def [of b])
qed

lemma quotient_pos:
  assumes "0 < q" and "quotient_of q = (n, d)"
  shows "0 < n" "0 < d" "q = of_int n / of_int d"
proof -
  show d: "0 < d" using assms(2) quotient_of_denom_pos by blast
  show q: "q = of_int n / of_int d" using assms(2) quotient_of_div by blast
  show "0 < n" using assms(1) d by (simp add: q zero_less_divide_iff)
qed

lemma floorlog_rat:
  assumes "0 < n"
  shows "pow2 (int (floorlog 2 (nat n)) - 1) \<le> of_int n" "of_int n < pow2 (int (floorlog 2 (nat n)))"
proof -
  let ?k = "floorlog 2 (nat n)"
  have k: "2 ^ (?k - 1) \<le> nat n" "nat n < 2 ^ ?k" "0 < ?k"
    using floorlog_bounds [of "nat n" 2] assms floorlog_eq_zero_iff [of 2 "nat n"] by auto
  have "(of_nat (2 ^ (?k - 1)) :: rat) \<le> of_nat (nat n)" using k(1) by (simp only: of_nat_le_iff)
  moreover have "pow2 (int ?k - 1) = 2 ^ (?k - 1)" using k(3) pow2_nat [of "?k - 1"] by (simp add: of_nat_diff)
  ultimately show "pow2 (int ?k - 1) \<le> of_int n" using assms by simp
  have "(of_nat (nat n) :: rat) < of_nat (2 ^ ?k)" using k(2) by (simp only: of_nat_less_iff)
  then show "of_int n < pow2 (int ?k)" using assms by (simp add: pow2_nat)
qed

lemma exponent_lower: assumes "0 < q" shows "pow2 (exponent q) \<le> q"
proof -
  obtain n d where nd: "quotient_of q = (n, d)" by fastforce
  note p = quotient_pos [OF assms nd]
  let ?a = "int (floorlog 2 (nat n))" and ?b = "int (floorlog 2 (nat d))"
  have "pow2 (?a - ?b - 1) * of_int d \<le> pow2 (?a - ?b - 1) * pow2 ?b"
    using floorlog_rat(2) [OF p(2)] by (intro mult_left_mono) auto
  also have "\<dots> = pow2 (?a - 1)" using pow2_add [of "?a - ?b - 1" ?b] by simp
  also have "\<dots> \<le> of_int n" by (rule floorlog_rat(1) [OF p(1)])
  finally have "pow2 (?a - ?b - 1) \<le> q" using p(2) by (simp add: p(3) pos_le_divide_eq)
  then show ?thesis by (auto simp: exponent_def nd Let_def bit_length_floorlog)
qed

lemma round_even_ge: "of_int k \<le> x \<Longrightarrow> k \<le> round_even x"
  by (auto simp: round_even_def Let_def le_floor_iff [symmetric])

lemma round_even_int [simp]: "round_even (of_int k) = k"
  by (simp add: round_even_def)

lemma round_scaled_pos:
  assumes "0 < a" shows "0 < round_even (a / pow2 (exponent a - 52))"
proof -
  have "pow2 (exponent a - 52) * pow2 52 = pow2 (exponent a)"
    using pow2_add [of "exponent a - 52" 52] by simp
  moreover have "(1::rat) \<le> pow2 52" by (simp add: pow2_def)
  ultimately have "pow2 (exponent a - 52) \<le> a"
    using exponent_lower [OF assms] mult_left_mono [of 1 "pow2 52" "pow2 (exponent a - 52)"] by simp
  then have "of_int 1 \<le> a / pow2 (exponent a - 52)" by (simp add: pos_le_divide_eq)
  from round_even_ge [OF this] show ?thesis by simp
qed

lemma f64_sgn: "sgn (f64 q) = sgn q"
  using round_scaled_pos [of "\<bar>q\<bar>"] by (auto simp: f64_def Let_def sgn_mult)

lemma f64_eq_0 [simp]: "f64 q = 0 \<longleftrightarrow> q = 0"
  using f64_sgn [of q] by (metis sgn_0 sgn_0_0)

lemma f64_less_0 [simp]: "f64 q < 0 \<longleftrightarrow> q < 0"
  using f64_sgn [of q] by (metis sgn_less)

lemma f64_pos [simp]: "0 < f64 q \<longleftrightarrow> 0 < q"
  using f64_sgn [of q] by (metis sgn_greater)

lemma f64_nonneg [simp]: "0 \<le> f64 q \<longleftrightarrow> 0 \<le> q"
  using f64_less_0 [of q] by (simp add: not_less [symmetric])

end
