(* ===== verification/GoTime.thy ===== *)
theory GoTime
  imports GoText
begin

text \<open>
  Calendar dates and instants. A date is (year, month, day); a day number counts days from
  1970-01-01; an instant is the number of nanoseconds since 1970-01-01T00:00:00Z
  (\<open>time.Time\<close> without its monotonic reading). Moscow time is UTC+3 all year
  round, as \<open>regulatory.BusinessLocation\<close> fixes it.
\<close>

type_synonym date = "int \<times> int \<times> int"
type_synonym instant = int

section \<open>The Gregorian calendar\<close>

definition leap :: "int \<Rightarrow> bool" where
  "leap y = (4 dvd y \<and> (\<not> 100 dvd y \<or> 400 dvd y))"

definition days_in :: "int \<Rightarrow> int \<Rightarrow> int" where
  "days_in y m = (if m = 2 then (if leap y then 29 else 28)
                  else if m = 4 \<or> m = 6 \<or> m = 9 \<or> m = 11 then 30 else 31)"

definition valid_date :: "date \<Rightarrow> bool" where
  "valid_date dt = (case dt of (y, m, d) \<Rightarrow> 1 \<le> m \<and> m \<le> 12 \<and> 1 \<le> d \<and> d \<le> days_in y m)"

text \<open>Days of a common year before the month; the days before 0001-01-01 are the offset.\<close>

definition days_before_month :: "int \<Rightarrow> int \<Rightarrow> int" where
  "days_before_month y m =
     (if m \<le> 1 then 0 else if m = 2 then 31
      else (if leap y then 1 else 0) +
        (if m = 3 then 59 else if m = 4 then 90 else if m = 5 then 120 else if m = 6 then 151
         else if m = 7 then 181 else if m = 8 then 212 else if m = 9 then 243
         else if m = 10 then 273 else if m = 11 then 304 else if m = 12 then 334 else 365))"

definition days_before_year :: "int \<Rightarrow> int" where
  "days_before_year y = 365 * (y - 1) + (y - 1) div 4 - (y - 1) div 100 + (y - 1) div 400"

definition epoch_offset :: int where "epoch_offset = 719162"

definition day_number :: "date \<Rightarrow> int" where
  "day_number dt = (case dt of (y, m, d) \<Rightarrow>
     days_before_year y + days_before_month y m + d - 1 - epoch_offset)"

definition year_of_days :: "int \<Rightarrow> int \<times> int" where
  "year_of_days n =
     (let a = n div 146097; r = n mod 146097;
          b = min 3 (r div 36524); r1 = r - b * 36524;
          c = r1 div 1461; r2 = r1 mod 1461;
          e = min 3 (r2 div 365)
      in (400 * a + 100 * b + 4 * c + e + 1, r2 - 365 * e))"

definition month_of_yday :: "int \<Rightarrow> int \<Rightarrow> int" where
  "month_of_yday y k =
     (if k < days_before_month y 2 then 1 else if k < days_before_month y 3 then 2
      else if k < days_before_month y 4 then 3 else if k < days_before_month y 5 then 4
      else if k < days_before_month y 6 then 5 else if k < days_before_month y 7 then 6
      else if k < days_before_month y 8 then 7 else if k < days_before_month y 9 then 8
      else if k < days_before_month y 10 then 9 else if k < days_before_month y 11 then 10
      else if k < days_before_month y 12 then 11 else 12)"

definition date_of_day :: "int \<Rightarrow> date" where
  "date_of_day n =
     (let (y, k) = year_of_days (n + epoch_offset); m = month_of_yday y k
      in (y, m, k - days_before_month y m + 1))"

text \<open>The calendar functions are inverse to each other.\<close>

lemma capped_quotient:
  fixes r w k :: int
  assumes "0 < w" "0 \<le> r" "0 \<le> k"
  shows "0 \<le> min k (r div w)" "min k (r div w) \<le> k" "0 \<le> r - min k (r div w) * w"
    "min k (r div w) < k \<Longrightarrow> r - min k (r div w) * w < w"
proof -
  have m: "r = r div w * w + r mod w" "0 \<le> r mod w" "r mod w < w" using assms(1) by simp_all
  have "min k (r div w) * w \<le> r div w * w" using assms(1) by (intro mult_right_mono) simp_all
  then show "0 \<le> r - min k (r div w) * w" using m(1,2) by linarith
  show "0 \<le> min k (r div w)" using assms by (simp add: pos_imp_zdiv_nonneg_iff)
  show "r - min k (r div w) * w < w" if "min k (r div w) < k"
  proof -
    have "min k (r div w) = r div w" using that by (simp add: min_def split: if_splits)
    then show ?thesis using m(3) by (simp add: minus_div_mult_eq_mod)
  qed
qed simp

lemma year_of_days_sum:
  assumes "year_of_days n = (y, k)"
  shows "days_before_year y + k = n" "0 \<le> k" "k < (if leap y then 366 else 365)"
proof -
  define a r where ar: "a = n div 146097" "r = n mod 146097"
  define b r1 where br: "b = min 3 (r div 36524)" "r1 = r - b * 36524"
  define c r2 where cr: "c = r1 div 1461" "r2 = r1 mod 1461"
  define e where e: "e = min 3 (r2 div 365)"
  have n: "n = 146097 * a + r" "0 \<le> r" "r < 146097" using ar by simp_all
  note b = capped_quotient [OF _ n(2), of 36524 3, folded br]
  have r1: "r1 \<le> 36524" using b(4) n(3) br(2) b(2) by (cases "b < 3") simp_all
  have c: "r1 = 1461 * c + r2" "0 \<le> r2" "r2 < 1461" using cr by simp_all
  have c': "0 \<le> c" "c \<le> 24" using c r1 b(3) by simp_all
  note e' = capped_quotient [OF _ c(2), of 365 3, folded e, unfolded mult.commute [of _ 365]]
  have k1: "r2 - 365 * e \<le> 365" using e'(4) c(3) e'(2) by (cases "e < 3") simp_all
  have yk: "y = 400 * a + 100 * b + 4 * c + e + 1" "k = r2 - 365 * e"
    using assms unfolding year_of_days_def Let_def
      ar [symmetric] br(1) [symmetric] br(2) [symmetric] cr [symmetric] e [symmetric]
    by (simp_all only: prod.inject)
  have lin: "y - 1 = 400 * a + 100 * b + 4 * c + e" "0 \<le> b" "b \<le> 3" "0 \<le> c" "c \<le> 24" "0 \<le> e" "e \<le> 3"
    using yk(1) b(1,2) c' e'(1,2) by simp_all
  have d1: "(y - 1) div 400 = a"
    by (intro int_div_pos_eq [where r = "100 * b + 4 * c + e"]) (use lin in \<open>simp_all add: algebra_simps\<close>)
  have d2: "(y - 1) div 100 = 4 * a + b"
    by (intro int_div_pos_eq [where r = "4 * c + e"]) (use lin in \<open>simp_all add: algebra_simps\<close>)
  have d3: "(y - 1) div 4 = 100 * a + 25 * b + c"
    by (intro int_div_pos_eq [where r = e]) (use lin in \<open>simp_all add: algebra_simps\<close>)
  have "365 * (y - 1) + (100 * a + 25 * b + c) - (4 * a + b) + a + k = n"
    using c(1) br(2) by (simp add: lin(1) yk(2) n(1) algebra_simps)
  then show "days_before_year y + k = n"
    by (simp only: days_before_year_def d1 d2 d3)
  show "0 \<le> k" using yk(2) e'(3) by simp
  have "k = 365 \<Longrightarrow> leap y"
  proof -
    assume k: "k = 365"
    with yk(2) have "r2 - 365 * e = 365" by simp
    with e'(2,4) have e3: "e = 3" by (cases "e < 3") simp_all
    with \<open>r2 - 365 * e = 365\<close> have r2: "r2 = 1460" by simp
    have c24: "c = 24 \<Longrightarrow> b = 3"
    proof (rule ccontr)
      assume "c = 24" "b \<noteq> 3"
      with b(2,4) have "r1 < 36524" by simp
      with c(1) r2 \<open>c = 24\<close> show False by simp
    qed
    have y: "y = 4 * (100 * a + 25 * b + (c + 1))" using yk e3 by simp
    show "leap y"
    proof (cases "c = 24")
      case True
      then have "y = 400 * (a + 1)" using y c24 by simp
      then show ?thesis by (simp add: leap_def)
    next
      case False
      have "y mod 100 = 4 * (c + 1)"
        by (intro int_mod_pos_eq [where q = "4 * a + b"]) (use y c' False in \<open>simp_all add: algebra_simps\<close>)
      moreover have "4 dvd y" using y by (rule dvdI)
      ultimately show ?thesis using c'(1) by (simp add: leap_def dvd_eq_mod_eq_0)
    qed
  qed
  then show "k < (if leap y then 366 else 365)" using yk(2) k1 by (cases "k = 365") simp_all
qed

lemma days_before_month_leap:
  assumes "leap y"
  shows "days_before_month y 1 = 0"
    "days_before_month y 2 = 31"
    "days_before_month y 3 = 60"
    "days_before_month y 4 = 91"
    "days_before_month y 5 = 121"
    "days_before_month y 6 = 152"
    "days_before_month y 7 = 182"
    "days_before_month y 8 = 213"
    "days_before_month y 9 = 244"
    "days_before_month y 10 = 274"
    "days_before_month y 11 = 305"
    "days_before_month y 12 = 335"
  using assms by (simp_all add: days_before_month_def)

lemma days_before_month_common:
  assumes "\<not> leap y"
  shows "days_before_month y 1 = 0"
    "days_before_month y 2 = 31"
    "days_before_month y 3 = 59"
    "days_before_month y 4 = 90"
    "days_before_month y 5 = 120"
    "days_before_month y 6 = 151"
    "days_before_month y 7 = 181"
    "days_before_month y 8 = 212"
    "days_before_month y 9 = 243"
    "days_before_month y 10 = 273"
    "days_before_month y 11 = 304"
    "days_before_month y 12 = 334"
  using assms by (simp_all add: days_before_month_def)

lemma month_of_yday_cases:
  assumes "m = month_of_yday y k"
  shows "(m = 1 \<and> k < days_before_month y 2) \<or>
    (m = 2 \<and> days_before_month y 2 \<le> k \<and> k < days_before_month y 3) \<or>
    (m = 3 \<and> days_before_month y 3 \<le> k \<and> k < days_before_month y 4) \<or>
    (m = 4 \<and> days_before_month y 4 \<le> k \<and> k < days_before_month y 5) \<or>
    (m = 5 \<and> days_before_month y 5 \<le> k \<and> k < days_before_month y 6) \<or>
    (m = 6 \<and> days_before_month y 6 \<le> k \<and> k < days_before_month y 7) \<or>
    (m = 7 \<and> days_before_month y 7 \<le> k \<and> k < days_before_month y 8) \<or>
    (m = 8 \<and> days_before_month y 8 \<le> k \<and> k < days_before_month y 9) \<or>
    (m = 9 \<and> days_before_month y 9 \<le> k \<and> k < days_before_month y 10) \<or>
    (m = 10 \<and> days_before_month y 10 \<le> k \<and> k < days_before_month y 11) \<or>
    (m = 11 \<and> days_before_month y 11 \<le> k \<and> k < days_before_month y 12) \<or>
    (m = 12 \<and> days_before_month y 12 \<le> k)"
  unfolding assms month_of_yday_def
  by (split if_split, intro conjI impI, simp)+ simp

lemma month_of_yday_bounds:
  assumes "0 \<le> k" "k < (if leap y then 366 else 365)"
  shows "1 \<le> month_of_yday y k \<and> month_of_yday y k \<le> 12 \<and>
    days_before_month y (month_of_yday y k) \<le> k \<and>
    k - days_before_month y (month_of_yday y k) < days_in y (month_of_yday y k)"
proof (cases "leap y")
  case True
  from month_of_yday_cases [OF refl, of y k] assms True show ?thesis
    by (elim disjE conjE) (simp_all only: days_before_month_leap [OF True], simp_all add: days_in_def)
next
  case False
  from month_of_yday_cases [OF refl, of y k] assms False show ?thesis
    by (elim disjE conjE) (simp_all only: days_before_month_common [OF False], simp_all add: days_in_def)
qed

lemma date_of_day_valid: "valid_date (date_of_day n)"
proof -
  obtain y k where yk: "year_of_days (n + epoch_offset) = (y, k)" by fastforce
  note b = month_of_yday_bounds [OF year_of_days_sum(2,3) [OF yk]]
  show ?thesis using b by (simp add: date_of_day_def yk Let_def valid_date_def)
qed

lemma day_number_date_of_day [simp]: "day_number (date_of_day n) = n"
proof -
  obtain y k where yk: "year_of_days (n + epoch_offset) = (y, k)" by fastforce
  show ?thesis using year_of_days_sum(1) [OF yk]
    by (simp add: date_of_day_def yk Let_def day_number_def)
qed

lemma month_cases:
  fixes m :: int
  assumes "1 \<le> m" "m \<le> 12"
  shows "m = 1 \<or> m = 2 \<or> m = 3 \<or> m = 4 \<or> m = 5 \<or> m = 6 \<or> m = 7 \<or> m = 8 \<or> m = 9 \<or> m = 10
    \<or> m = 11 \<or> m = 12"
  using assms by arith

lemma days_before_month_step:
  "1 \<le> m \<Longrightarrow> m \<le> 12 \<Longrightarrow> days_before_month y (m + 1) = days_before_month y m + days_in y m"
  by (drule (1) month_cases) (elim disjE; simp add: days_before_month_def days_in_def)

lemma days_before_month_le:
  assumes "1 \<le> m" "m \<le> 12" shows "days_before_month y m \<le> days_before_month y (m + 1)"
  using days_before_month_step [OF assms, of y] by (simp add: days_in_def)

lemma days_before_month_mono:
  assumes "1 \<le> m" "m < m'" "m' \<le> 13"
  shows "days_before_month y m + days_in y m \<le> days_before_month y m'"
  using assms(2,3)
proof (induction "nat (m' - m - 1)" arbitrary: m')
  case 0
  then have "m' = m + 1" by simp
  with assms(1) 0 show ?case using days_before_month_step [of m y] by simp
next
  case (Suc n)
  then have "days_before_month y m + days_in y m \<le> days_before_month y (m' - 1)" by simp
  also have "\<dots> \<le> days_before_month y m'"
    using days_before_month_le [of "m' - 1" y] Suc assms(1) by simp
  finally show ?case .
qed

lemma count_leap_days:
  fixes A B C y :: int
  assumes "Q \<Longrightarrow> P" "R \<Longrightarrow> Q"
  shows "365 * y + (A + (if P then 1 else 0)) - (B + (if Q then 1 else 0)) + (C + (if R then 1 else 0))
    = 365 * (y - 1) + A - B + C + (if P \<and> (\<not> Q \<or> R) then 366 else 365)"
  using assms by (cases P; cases Q; cases R) simp_all

lemma days_before_year_step:
  "days_before_year (y + 1) = days_before_year y + (if leap y then 366 else 365)"
proof -
  have d: "y div k = (y - 1) div k + (if k dvd y then 1 else 0)" if "0 < k" for k :: int
  proof (cases "k dvd y")
    case True
    then obtain q where q: "y = k * q" by blast
    then have "(y - 1) div k = q - 1"
      using that by (intro int_div_pos_eq [where r = "k - 1"]) (auto simp: algebra_simps)
    with q that show ?thesis by simp
  next
    case False
    then have "0 < y mod k" using that by (metis dvd_eq_mod_eq_0 le_less pos_mod_sign)
    moreover have "y - 1 = k * (y div k) + (y mod k - 1)" by simp
    ultimately have "(y - 1) div k = y div k"
      using that pos_mod_bound [OF that, of y] by (intro int_div_pos_eq [where r = "y mod k - 1"]) linarith+
    with False show ?thesis by simp
  qed
  have "100 dvd y \<Longrightarrow> 4 dvd y" "400 dvd y \<Longrightarrow> 100 dvd y"
    using dvd_trans [of 4 100 y] dvd_trans [of 100 400 y] by simp_all
  then have key: "365 * y + (A + (if 4 dvd y then 1 else 0)) - (B + (if 100 dvd y then 1 else 0))
      + (C + (if 400 dvd y then 1 else 0))
    = 365 * (y - 1) + A - B + C + (if leap y then 366 else 365)" for A B C :: int
    unfolding leap_def by (rule count_leap_days)
  have y: "y + 1 - 1 = y" by simp
  show ?thesis unfolding days_before_year_def y
    by (subst d [of 4], simp, subst d [of 100], simp, subst d [of 400], simp, rule key)
qed

lemma days_before_year_mono: "y < y' \<Longrightarrow> days_before_year y + (if leap y then 366 else 365) \<le> days_before_year y'"
proof (induction "nat (y' - y - 1)" arbitrary: y')
  case 0
  then have "y' = y + 1" by simp
  then show ?case by (simp add: days_before_year_step)
next
  case (Suc n)
  then have "days_before_year y + (if leap y then 366 else 365) \<le> days_before_year (y' - 1)"
    by simp
  moreover have "days_before_year (y' - 1) \<le> days_before_year y'"
    using days_before_year_step [of "y' - 1"] by simp
  ultimately show ?case by linarith
qed

lemma day_in_year:
  assumes "valid_date (y, m, d)"
  shows "0 \<le> days_before_month y m + d - 1" "days_before_month y m + d - 1 < (if leap y then 366 else 365)"
  using assms days_before_month_mono [of m 13 y]
  by (auto simp: valid_date_def days_before_month_def split: if_splits)

text \<open>\<open>time.Time.Before\<close> on dates read by \<open>time.Parse\<close> is the order of their fields.\<close>

definition date_less :: "date \<Rightarrow> date \<Rightarrow> bool" where
  "date_less a b = (case (a, b) of ((y, m, d), (y', m', d')) \<Rightarrow>
     y < y' \<or> y = y' \<and> (m < m' \<or> m = m' \<and> d < d'))"

lemma day_number_less:
  assumes "valid_date a" "valid_date b" "date_less a b"
  shows "day_number a < day_number b"
proof -
  obtain y m d y' m' d' where ab: "a = (y, m, d)" "b = (y', m', d')" by (metis prod_cases3)
  note p = day_in_year [OF assms(1) [unfolded ab]] and q = day_in_year [OF assms(2) [unfolded ab]]
  consider "y < y'" | "y = y'" "m < m'" | "y = y'" "m = m'" "d < d'"
    using assms(3) by (auto simp: date_less_def ab)
  then show ?thesis
  proof cases
    case 1
    from days_before_year_mono [OF this] show ?thesis
      using p q by (simp add: ab day_number_def)
  next
    case 2
    then show ?thesis using assms(1,2) days_before_month_mono [of m m' y]
      by (simp add: ab day_number_def valid_date_def)
  qed (simp add: ab day_number_def)
qed

lemma date_less_linear: "date_less a b \<or> a = b \<or> date_less b a"
  by (auto simp: date_less_def split: prod.splits)

lemma day_number_less_iff:
  "valid_date a \<Longrightarrow> valid_date b \<Longrightarrow> day_number a < day_number b \<longleftrightarrow> date_less a b"
  using day_number_less [of a b] day_number_less [of b a] date_less_linear [of a b]
  by (metis order_less_asym less_irrefl)

lemma day_number_inj: "valid_date a \<Longrightarrow> valid_date b \<Longrightarrow> day_number a = day_number b \<Longrightarrow> a = b"
  using day_number_less [of a b] day_number_less [of b a] date_less_linear [of a b] by fastforce

lemma date_of_day_number [simp]: "valid_date a \<Longrightarrow> date_of_day (day_number a) = a"
  by (rule day_number_inj) (simp_all add: date_of_day_valid)

end
