(* ===== verification/GoDate.thy ===== *)
theory GoDate
  imports GoTime
begin

text \<open>
  Dates as text: \<open>time.Parse("2006-01-02", s)\<close> and \<open>Format("2006-01-02")\<close>, the agreement of
  the byte order of such texts with the order of the dates, and Moscow days of instants.
\<close>

definition num_of :: "string \<Rightarrow> int" where
  "num_of s = int (nat_of_digits s)"

definition parse_date :: "string \<Rightarrow> date option" where
  "parse_date s =
     (let y = take 4 s; m = take 2 (drop 5 s); d = drop 8 s;
          dt = (num_of y, num_of m, num_of d)
      in if length s = 10 \<and> s ! 4 = CHR ''-'' \<and> s ! 7 = CHR ''-''
            \<and> list_all is_digit (y @ m @ d) \<and> valid_date dt
         then Some dt else None)"

definition pad :: "nat \<Rightarrow> nat \<Rightarrow> string" where
  "pad w n = replicate (w - length (show_nat n)) (CHR ''0'') @ show_nat n"

definition format_date :: "date \<Rightarrow> string" where
  "format_date dt = (case dt of (y, m, d) \<Rightarrow>
     pad 4 (nat y) @ ''-'' @ pad 2 (nat m) @ ''-'' @ pad 2 (nat d))"

section \<open>Reading back what is written\<close>

lemma nat_of_digits_Cons: "nat_of_digits (c # s) = (byte c - 48) * 10 ^ length s + nat_of_digits s"
  using nat_of_digits_append [of "[c]" s] by (simp add: nat_of_digits_def [of "[_]"])

lemma nat_of_digits_zeros: "nat_of_digits (replicate k (CHR ''0'') @ s) = nat_of_digits s"
proof -
  have z: "nat_of_digits (replicate k (CHR ''0'')) = 0"
    by (induction k) (simp_all add: nat_of_digits_Cons)
  show ?thesis by (simp add: nat_of_digits_append z)
qed

lemma pad_facts:
  "nat_of_digits (pad w n) = n" "list_all is_digit (pad w n)"
  "n < 10 ^ w \<Longrightarrow> 0 < w \<Longrightarrow> length (pad w n) = w"
proof -
  have "list_all is_digit (replicate k (CHR ''0''))" for k
    by (induction k) (simp_all add: is_digit_def in_range_def)
  then show "list_all is_digit (pad w n)" by (simp add: pad_def show_nat_digits)
qed (use length_show_nat_le [of n w] in \<open>simp_all add: pad_def nat_of_digits_zeros\<close>)

lemma days_in_le: "days_in y m \<le> 31"
  by (simp add: days_in_def)

theorem parse_format_date:
  assumes "valid_date (y, m, d)" "0 \<le> y" "y \<le> 9999"
  shows "parse_date (format_date (y, m, d)) = Some (y, m, d)"
proof -
  let ?Y = "pad 4 (nat y)" and ?M = "pad 2 (nat m)" and ?D = "pad 2 (nat d)"
  have r: "nat y < 10 ^ 4" "nat m < 10 ^ 2" "nat d < 10 ^ 2" "0 \<le> m" "0 \<le> d"
    using assms days_in_le [of y m] by (auto simp: valid_date_def)
  have l: "length ?Y = 4" "length ?M = 2" "length ?D = 2"
    using r by (simp_all only: pad_facts(3) zero_less_numeral)
  have s: "format_date (y, m, d) = ?Y @ CHR ''-'' # ?M @ CHR ''-'' # ?D"
    by (simp add: format_date_def)
  have p: "take 4 (format_date (y, m, d)) = ?Y" "take 2 (drop 5 (format_date (y, m, d))) = ?M"
    "drop 8 (format_date (y, m, d)) = ?D" "length (format_date (y, m, d)) = 10"
    "format_date (y, m, d) ! 4 = CHR ''-''" "format_date (y, m, d) ! 7 = CHR ''-''"
    by (simp_all add: s l nth_append)
  show ?thesis
    using assms r by (simp add: parse_date_def p pad_facts num_of_def)
qed

section \<open>Text order is date order\<close>

lemma is_digit_range: "is_digit c \<Longrightarrow> 48 \<le> byte c \<and> byte c \<le> 57"
  by (simp add: is_digit_def in_range_def)

lemma nat_of_digits_less: "list_all is_digit s \<Longrightarrow> nat_of_digits s < 10 ^ length s"
proof (induction s)
  case (Cons c s)
  then have "byte c - 48 \<le> 9" "nat_of_digits s < 10 ^ length s" using is_digit_range [of c] by auto
  then have "(byte c - 48) * 10 ^ length s + nat_of_digits s < 9 * 10 ^ length s + 10 ^ length s"
    by (intro add_le_less_mono mult_right_mono) simp_all
  then show ?case by (simp add: nat_of_digits_Cons)
qed simp

lemma scaled_less:
  fixes a b :: nat
  assumes "u < N" "v < N"
  shows "a * N + u < b * N + v \<longleftrightarrow> a < b \<or> a = b \<and> u < v"
proof -
  have "a < b \<Longrightarrow> a * N + u < b * N + v"
  proof -
    assume "a < b"
    then have "Suc a * N \<le> b * N" by (intro mult_right_mono) simp_all
    with assms(1) show ?thesis by simp
  qed
  moreover have "b < a \<Longrightarrow> b * N + v < a * N + u"
  proof -
    assume "b < a"
    then have "Suc b * N \<le> a * N" by (intro mult_right_mono) simp_all
    with assms(2) show ?thesis by simp
  qed
  ultimately show ?thesis by (cases a b rule: linorder_cases) auto
qed

lemma char_less_byte: "(c :: char) < d \<longleftrightarrow> byte c < byte d"
  by (simp add: less_char_def)

lemma digits_less_iff:
  "list_all is_digit s \<Longrightarrow> list_all is_digit t \<Longrightarrow> length s = length t \<Longrightarrow>
    nat_of_digits s < nat_of_digits t \<longleftrightarrow> s < t"
proof (induction s arbitrary: t)
  case (Cons c s)
  then obtain d t' where t: "t = d # t'" by (cases t) auto
  have c: "48 \<le> byte c" "48 \<le> byte d" using Cons.prems is_digit_range t by auto
  have b: "nat_of_digits s < 10 ^ length s" "nat_of_digits t' < 10 ^ length s"
    using Cons.prems nat_of_digits_less [of s] nat_of_digits_less [of t'] t by auto
  have "byte c - 48 = byte d - 48 \<longleftrightarrow> byte c = byte d" using c by (rule eq_diff_iff)
  moreover have "byte c - 48 < byte d - 48 \<longleftrightarrow> c < d"
    using c by (simp only: char_less_byte less_diff_iff)
  ultimately show ?case
    using Cons t scaled_less [OF b] by (simp add: nat_of_digits_Cons)
qed simp

lemma append_less_iff:
  fixes u v x y :: "'a :: linorder list"
  assumes "length u = length v"
  shows "u @ x < v @ y \<longleftrightarrow> u < v \<or> u = v \<and> x < y"
  using assms by (induction u v rule: list_induct2) auto

lemma digits_eq_iff:
  "list_all is_digit s \<Longrightarrow> list_all is_digit t \<Longrightarrow> length s = length t \<Longrightarrow>
    nat_of_digits s = nat_of_digits t \<longleftrightarrow> s = t"
  using digits_less_iff [of s t] digits_less_iff [of t s] by (metis linorder_neqE nat_neq_iff)

lemma parse_date_split:
  assumes "parse_date s = Some dt"
  obtains y m d where "s = y @ CHR ''-'' # m @ CHR ''-'' # d" "length y = 4" "length m = 2" "length d = 2"
    "list_all is_digit y" "list_all is_digit m" "list_all is_digit d"
    "dt = (num_of y, num_of m, num_of d)" "valid_date dt"
proof -
  have h: "length s = 10" "s ! 4 = CHR ''-''" "s ! 7 = CHR ''-''"
    "list_all is_digit (take 4 s @ take 2 (drop 5 s) @ drop 8 s)"
    "dt = (num_of (take 4 s), num_of (take 2 (drop 5 s)), num_of (drop 8 s))" "valid_date dt"
    using assms by (auto simp: parse_date_def Let_def split: if_splits)
  have "s = take 4 s @ drop 4 s" by simp
  also have "drop 4 s = s ! 4 # drop 5 s" using h(1) Cons_nth_drop_Suc [of 4 s] by simp
  also have "drop 5 s = take 2 (drop 5 s) @ drop 2 (drop 5 s)" by (rule append_take_drop_id [symmetric])
  also have "drop 2 (drop 5 s) = s ! 7 # drop 8 s" using h(1) Cons_nth_drop_Suc [of 7 s] by simp
  finally have "s = take 4 s @ CHR ''-'' # take 2 (drop 5 s) @ CHR ''-'' # drop 8 s"
    using h(2,3) by simp
  then show ?thesis using h by (intro that) simp_all
qed

lemma parse_date_valid: "parse_date s = Some dt \<Longrightarrow> valid_date dt"
  by (erule parse_date_split)

lemma parse_date_plain:
  assumes "parse_date s = Some d"
  shows "plain s"
proof -
  obtain y m d' where s: "s = y @ CHR ''-'' # m @ CHR ''-'' # d'" "list_all is_digit y" "list_all is_digit m"
    "list_all is_digit d'" by (rule parse_date_split [OF assms])
  have "list_all is_digit t \<Longrightarrow> list_all (\<lambda>c. 33 \<le> byte c \<and> byte c \<le> 126) t" for t
    using is_digit_range by (fastforce simp: list_all_iff)
  then show ?thesis using s by (simp add: plain_def)
qed

lemma parse_date_trim: "parse_date s = Some d \<Longrightarrow> trim_space s = s"
  by (rule trim_space_plain [OF parse_date_plain])

theorem iso_order:
  assumes "parse_date s = Some a" "parse_date t = Some b"
  shows "s < t \<longleftrightarrow> date_less a b"
proof -
  obtain y m d where s: "s = y @ CHR ''-'' # m @ CHR ''-'' # d" "length y = 4" "length m = 2" "length d = 2"
    "list_all is_digit y" "list_all is_digit m" "list_all is_digit d"
    "a = (num_of y, num_of m, num_of d)" by (rule parse_date_split [OF assms(1)])
  obtain y' m' d' where t: "t = y' @ CHR ''-'' # m' @ CHR ''-'' # d'" "length y' = 4" "length m' = 2"
    "length d' = 2" "list_all is_digit y'" "list_all is_digit m'" "list_all is_digit d'"
    "b = (num_of y', num_of m', num_of d')" by (rule parse_date_split [OF assms(2)])
  have "s < t \<longleftrightarrow> y < y' \<or> y = y' \<and> (m < m' \<or> m = m' \<and> d < d')"
    using s(2-4) t(2-4) by (simp add: s(1) t(1) append_less_iff)
  then show ?thesis
    using s t by (simp add: date_less_def num_of_def digits_less_iff digits_eq_iff)
qed

lemma iso_eq: "parse_date s = Some a \<Longrightarrow> parse_date t = Some a \<Longrightarrow> s = t"
  using iso_order [of s a t a] iso_order [of t a s a]
  by (auto simp: date_less_def split: prod.splits intro: linorder_less_linear [THEN disjE])

section \<open>Moscow days\<close>

definition day_ns :: int where "day_ns = 86400000000000"
definition moscow_offset :: int where "moscow_offset = 10800000000000"

definition moscow_day :: "instant \<Rightarrow> int" where
  "moscow_day t = (t + moscow_offset) div day_ns"

definition moscow_midnight :: "int \<Rightarrow> instant" where
  "moscow_midnight d = d * day_ns - moscow_offset"

lemma day_ns_pos [simp]: "0 < day_ns" "day_ns \<noteq> 0"
  by (simp_all add: day_ns_def)

lemma moscow_day_midnight [simp]: "moscow_day (moscow_midnight d) = d"
  by (simp add: moscow_day_def moscow_midnight_def day_ns_def)

lemma moscow_midnight_le_iff: "moscow_midnight d \<le> t \<longleftrightarrow> d \<le> moscow_day t"
proof -
  let ?x = "t + moscow_offset"
  have "d \<le> ?x div day_ns" if "d * day_ns \<le> ?x"
    using zdiv_mono1 [OF that day_ns_pos(1)] by simp
  moreover have "d * day_ns \<le> ?x" if "d \<le> ?x div day_ns"
  proof -
    have "d * day_ns \<le> ?x div day_ns * day_ns" using that less_imp_le [OF day_ns_pos(1)] by (rule mult_right_mono)
    also have "\<dots> \<le> ?x" using pos_mod_sign [OF day_ns_pos(1), of ?x] div_mult_mod_eq [of ?x day_ns] by linarith
    finally show ?thesis .
  qed
  ultimately show ?thesis by (auto simp: moscow_midnight_def moscow_day_def)
qed

lemma moscow_day_mono: "s \<le> t \<Longrightarrow> moscow_day s \<le> moscow_day t"
  by (simp add: moscow_day_def zdiv_mono1)

end
