(* ===== verification/Payload.thy ===== *)
theory Payload
  imports GoNumber GoDate
begin

text \<open>
  \<open>backend/internal/calculators/calculator.go\<close>: the dynamic payload of an entry, the typed
  access to its fields, the field specifications and their validation.
  A payload is a decoded JSON object: an association list from field names to values. A
  \<open>json.Number\<close> keeps its text (\<open>JNumber\<close>), a \<open>float64\<close> is the rational it denotes
  (\<open>JFloat\<close>, from the read paths that decode without \<open>UseNumber\<close>). Numeric texts are decimal
  numerals, which is all a JSON document contains. Display labels and widgets of the
  fields are left out; an error is identified by its kind and its field.
\<close>

section \<open>Values\<close>

datatype jvalue =
    JNull
  | JBool bool
  | JNumber string
  | JFloat rat
  | JInt int
  | JString string
  | JArray "jvalue list"
  | JObject "(string \<times> jvalue) list"

type_synonym payload = "(string \<times> jvalue) list"

datatype calc_error =
    FieldMissing string
  | NumberTooLong
  | ExponentRange
  | NotNumber string
  | BadNumber
  | NegativeNumber string
  | NotPositive string
  | NotString string
  | EmptyString string
  | PayloadNil
  | UnknownField string
  | NumberTooLarge string
  | NotInteger string
  | BelowMinimum string
  | AboveMaximum string
  | TextTooLong string
  | ControlCharacters string
  | BadOption string
  | BadDate string
  | UnknownType string
  | UnknownCategory string
  | BadAudience
  | Rejected string
  | BadAmount

section \<open>Typed access\<close>

definition float_of_text :: "string \<Rightarrow> calc_error + rat" where
  "float_of_text s = (case parse_decimal s of None \<Rightarrow> Inl BadNumber | Some q \<Rightarrow> Inr (f64 q))"

definition is_exponent_mark :: "char \<Rightarrow> bool" where
  "is_exponent_mark c = (c = CHR ''e'' \<or> c = CHR ''E'')"

definition num :: "payload \<Rightarrow> string \<Rightarrow> calc_error + rat" where
  "num p key = (case map_of p key of
     None \<Rightarrow> Inl (FieldMissing key)
   | Some v \<Rightarrow> (case v of
       JNumber s \<Rightarrow>
         if length s > 64 then Inl NumberTooLong
         else (case dropWhile (\<lambda>c. \<not> is_exponent_mark c) s of
             [] \<Rightarrow> float_of_text s
           | _ # e \<Rightarrow> (case atoi e of
                 None \<Rightarrow> Inl ExponentRange
               | Some x \<Rightarrow> if x < -12 \<or> x > 12 then Inl ExponentRange else float_of_text s))
     | JFloat r \<Rightarrow> Inr r
     | JInt i \<Rightarrow> Inr (f64 (of_int i))
     | _ \<Rightarrow> Inl (NotNumber key)))"

definition non_negative_num :: "payload \<Rightarrow> string \<Rightarrow> calc_error + rat" where
  "non_negative_num p key = rbind (num p key) (\<lambda>v. if v < 0 then Inl (NegativeNumber key) else Inr v)"

definition positive_num :: "payload \<Rightarrow> string \<Rightarrow> calc_error + rat" where
  "positive_num p key = rbind (non_negative_num p key) (\<lambda>v. if v = 0 then Inl (NotPositive key) else Inr v)"

definition str :: "payload \<Rightarrow> string \<Rightarrow> calc_error + string" where
  "str p key = (case map_of p key of
     None \<Rightarrow> Inl (FieldMissing key)
   | Some (JString s) \<Rightarrow> if trim_space s = [] then Inl (EmptyString key) else Inr (trim_space s)
   | Some _ \<Rightarrow> Inl (NotString key))"

section \<open>Field specifications\<close>

record field_spec =
  fs_key :: string
  fs_type :: string
  fs_required :: bool
  fs_options :: "string list"
  fs_integer :: bool
  fs_max_length :: nat
  fs_minimum :: rat
  fs_maximum :: rat

definition field_of :: "string \<Rightarrow> string \<Rightarrow> field_spec" where
  "field_of k t = \<lparr>fs_key = k, fs_type = t, fs_required = False, fs_options = [], fs_integer = False,
     fs_max_length = 0, fs_minimum = 0, fs_maximum = 0\<rparr>"

abbreviation text_field :: "string \<Rightarrow> field_spec" where "text_field k \<equiv> field_of k ''text''"
abbreviation select_field :: "string \<Rightarrow> field_spec" where "select_field k \<equiv> field_of k ''select''"
abbreviation date_field :: "string \<Rightarrow> field_spec" where "date_field k \<equiv> field_of k ''date''"
abbreviation number_field :: "string \<Rightarrow> field_spec" where "number_field k \<equiv> field_of k ''number''"

definition required :: "field_spec \<Rightarrow> field_spec" where "required f = f\<lparr>fs_required := True\<rparr>"
definition options :: "string list \<Rightarrow> field_spec \<Rightarrow> field_spec" where "options os f = f\<lparr>fs_options := os\<rparr>"
definition integer :: "field_spec \<Rightarrow> field_spec" where "integer f = f\<lparr>fs_integer := True\<rparr>"
definition max_length :: "nat \<Rightarrow> field_spec \<Rightarrow> field_spec" where "max_length n f = f\<lparr>fs_max_length := n\<rparr>"
definition minimum :: "rat \<Rightarrow> field_spec \<Rightarrow> field_spec" where "minimum n f = f\<lparr>fs_minimum := n\<rparr>"
definition maximum :: "rat \<Rightarrow> field_spec \<Rightarrow> field_spec" where "maximum n f = f\<lparr>fs_maximum := n\<rparr>"

lemma builder_keys [simp]:
  "fs_key (field_of k t) = k" "fs_key (required f) = fs_key f" "fs_key (options os f) = fs_key f"
  "fs_key (integer f) = fs_key f" "fs_key (max_length n f) = fs_key f"
  "fs_key (minimum q f) = fs_key f" "fs_key (maximum q f) = fs_key f"
  by (simp_all add: field_of_def required_def options_def integer_def max_length_def minimum_def maximum_def)

lemma builder_types [simp]:
  "fs_type (field_of k t) = t" "fs_type (required f) = fs_type f" "fs_type (options os f) = fs_type f"
  "fs_type (integer f) = fs_type f" "fs_type (max_length n f) = fs_type f"
  "fs_type (minimum q f) = fs_type f" "fs_type (maximum q f) = fs_type f"
  by (simp_all add: field_of_def required_def options_def integer_def max_length_def minimum_def maximum_def)

definition default_text_max_length :: nat where "default_text_max_length = 1000"
definition max_payload_number :: rat where "max_payload_number = 1000000000000"
definition max_calculated_amount :: rat where "max_calculated_amount = f64 (9999999999999999 / 100)"

section \<open>Validation\<close>

definition validate_number :: "payload \<Rightarrow> field_spec \<Rightarrow> calc_error + payload" where
  "validate_number p f = rbind (non_negative_num p (fs_key f)) (\<lambda>n.
     if n > max_payload_number then Inl (NumberTooLarge (fs_key f))
     else if fs_integer f \<and> of_int (trunc n) \<noteq> n then Inl (NotInteger (fs_key f))
     else if fs_minimum f \<noteq> 0 \<and> n < fs_minimum f then Inl (BelowMinimum (fs_key f))
     else if fs_maximum f \<noteq> 0 \<and> n > fs_maximum f then Inl (AboveMaximum (fs_key f))
     else Inr p)"

definition text_limit :: "field_spec \<Rightarrow> nat" where
  "text_limit f = (if fs_max_length f = 0 then default_text_max_length else fs_max_length f)"

definition validate_text :: "payload \<Rightarrow> field_spec \<Rightarrow> jvalue \<Rightarrow> calc_error + payload" where
  "validate_text p f v = (case v of
     JString raw \<Rightarrow>
       (let s = trim_space raw in
        if fs_required f \<and> s = [] then Inl (EmptyString (fs_key f))
        else if rune_count s > text_limit f then Inl (TextTooLong (fs_key f))
        else if list_ex (is_control_rune \<circ> fst) (runes s) then Inl (ControlCharacters (fs_key f))
        else if fs_type f = ''select'' \<and> fs_options f \<noteq> [] \<and> s \<noteq> [] \<and> s \<notin> set (fs_options f)
          then Inl (BadOption (fs_key f))
        else if fs_type f = ''date'' \<and> s \<noteq> [] \<and> parse_date s = None then Inl (BadDate (fs_key f))
        else Inr (AList.update (fs_key f) (JString s) p))
   | _ \<Rightarrow> Inl (NotString (fs_key f)))"

definition validate_field :: "field_spec \<Rightarrow> payload \<Rightarrow> calc_error + payload" where
  "validate_field f p = (case map_of p (fs_key f) of
     None \<Rightarrow> if fs_required f then Inl (FieldMissing (fs_key f)) else Inr p
   | Some JNull \<Rightarrow> if fs_required f then Inl (FieldMissing (fs_key f)) else Inr p
   | Some v \<Rightarrow>
       if fs_type f = ''number'' then validate_number p f
       else if fs_type f \<in> {''text'', ''select'', ''date''} then validate_text p f v
       else Inl (UnknownType (fs_key f)))"

text \<open>
  \<open>ValidatePayload\<close>: \<open>None\<close> is a nil map; the last argument is the calculator's own
  \<open>Validate\<close>, if it has one. Of several unknown fields Go reports any one; the model
  reports the first. The payload is returned with its texts trimmed, as the code leaves it.
\<close>

definition validate_payload ::
  "field_spec list \<Rightarrow> (payload \<Rightarrow> calc_error + payload) \<Rightarrow> payload option \<Rightarrow> calc_error + payload" where
  "validate_payload fs own mp = (case mp of
     None \<Rightarrow> Inl PayloadNil
   | Some p \<Rightarrow>
       (case find (\<lambda>k. k \<notin> set (map fs_key fs)) (map fst p) of
          Some k \<Rightarrow> Inl (UnknownField k)
        | None \<Rightarrow> rbind (fold_result validate_field fs p) own))"

definition validate_amount :: "rat \<Rightarrow> calc_error + unit" where
  "validate_amount a = (if a < 0 then Inl BadAmount else if a > max_calculated_amount then Inl BadAmount else Inr ())"

section \<open>What validation guarantees\<close>

definition empty_value :: "jvalue option \<Rightarrow> bool" where
  "empty_value v = (v = None \<or> v = Some JNull)"

definition text_ok :: "field_spec \<Rightarrow> string \<Rightarrow> bool" where
  "text_ok f s = (\<not> (fs_required f \<and> s = []) \<and> rune_count s \<le> text_limit f
     \<and> list_all (\<lambda>r. \<not> is_control_rune (fst r)) (runes s)
     \<and> (fs_type f = ''select'' \<and> fs_options f \<noteq> [] \<and> s \<noteq> [] \<longrightarrow> s \<in> set (fs_options f))
     \<and> (fs_type f = ''date'' \<and> s \<noteq> [] \<longrightarrow> parse_date s \<noteq> None))"

definition number_ok :: "field_spec \<Rightarrow> rat \<Rightarrow> bool" where
  "number_ok f n = (0 \<le> n \<and> n \<le> max_payload_number \<and> (fs_integer f \<longrightarrow> of_int (trunc n) = n)
     \<and> (fs_minimum f \<noteq> 0 \<longrightarrow> fs_minimum f \<le> n) \<and> (fs_maximum f \<noteq> 0 \<longrightarrow> n \<le> fs_maximum f))"

definition field_ok :: "payload \<Rightarrow> field_spec \<Rightarrow> bool" where
  "field_ok p f =
     (if empty_value (map_of p (fs_key f)) then \<not> fs_required f
      else if fs_type f = ''number'' then (\<exists>n. num p (fs_key f) = Inr n \<and> number_ok f n)
      else (\<exists>s. map_of p (fs_key f) = Some (JString s) \<and> text_ok f s))"

lemma non_negative_num_Inr [result_simps]:
  "non_negative_num p k = Inr v \<longleftrightarrow> num p k = Inr v \<and> 0 \<le> v"
  by (cases "num p k") (auto simp: non_negative_num_def)

lemma positive_num_Inr [result_simps]:
  "positive_num p k = Inr v \<longleftrightarrow> num p k = Inr v \<and> 0 < v"
  by (cases "num p k") (auto simp: positive_num_def non_negative_num_def)

lemma num_cong: "map_of p k = map_of q k \<Longrightarrow> num p k = num q k"
  by (simp add: num_def)

lemma field_ok_cong: "map_of p (fs_key f) = map_of q (fs_key f) \<Longrightarrow> field_ok p f = field_ok q f"
  using num_cong [of p "fs_key f" q] by (simp add: field_ok_def)

lemma validate_number_ok:
  "validate_number p f = Inr q \<Longrightarrow> q = p \<and> (\<exists>n. num p (fs_key f) = Inr n \<and> number_ok f n)"
  by (auto simp: validate_number_def number_ok_def result_simps split: if_splits)

lemma validate_text_ok:
  "validate_text p f v = Inr q \<Longrightarrow>
     \<exists>s. q = AList.update (fs_key f) (JString s) p \<and> text_ok f s"
  by (auto simp: validate_text_def text_ok_def Let_def list_all_iff list_ex_iff
      split: jvalue.splits if_splits)

lemma validate_field_ok:
  assumes "validate_field f p = Inr q"
  shows "field_ok q f" "k \<noteq> fs_key f \<Longrightarrow> map_of q k = map_of p k" "set (map fst q) = set (map fst p)"
proof -
  have "field_ok q f \<and> (k \<noteq> fs_key f \<longrightarrow> map_of q k = map_of p k) \<and> set (map fst q) = set (map fst p)" for k
  proof (cases "empty_value (map_of p (fs_key f))")
    case True
    then have "q = p" "\<not> fs_required f"
      using assms by (auto simp: validate_field_def empty_value_def split: if_splits)
    with True show ?thesis by (simp add: field_ok_def)
  next
    case False
    then obtain v where v: "map_of p (fs_key f) = Some v" "v \<noteq> JNull" by (auto simp: empty_value_def)
    then have mem: "fs_key f \<in> set (map fst p)" by (metis domI dom_map_of_conv_image_fst image_set)
    have "(fs_type f = ''number'' \<and> validate_number p f = Inr q) \<or>
      (fs_type f \<noteq> ''number'' \<and> validate_text p f v = Inr q)"
      using assms v by (auto simp: validate_field_def split: jvalue.splits if_splits)
    then show ?thesis
    proof
      assume "fs_type f = ''number'' \<and> validate_number p f = Inr q"
      with False validate_number_ok [of p f q] show ?thesis by (auto simp: field_ok_def)
    next
      assume t: "fs_type f \<noteq> ''number'' \<and> validate_text p f v = Inr q"
      then obtain s where s: "q = AList.update (fs_key f) (JString s) p" "text_ok f s"
        using validate_text_ok by blast
      with t mem show ?thesis
        by (simp add: field_ok_def empty_value_def update_conv dom_update insert_absorb
            flip: image_set)
    qed
  qed
  then show "field_ok q f" "k \<noteq> fs_key f \<Longrightarrow> map_of q k = map_of p k" "set (map fst q) = set (map fst p)"
    by blast+
qed

lemma validate_fields_ok:
  assumes "fold_result validate_field fs p = Inr q" "distinct (map fs_key fs)"
  shows "(\<forall>f \<in> set fs. field_ok q f) \<and> (\<forall>k. k \<notin> set (map fs_key fs) \<longrightarrow> map_of q k = map_of p k)
    \<and> set (map fst q) = set (map fst p)"
  using assms
proof (induction fs arbitrary: p)
  case (Cons f fs)
  then obtain u where u: "validate_field f p = Inr u" "fold_result validate_field fs u = Inr q"
    by (auto simp: result_simps)
  note v = validate_field_ok [OF u(1)]
  from Cons.IH [OF u(2)] Cons.prems(2) have ih: "\<forall>g \<in> set fs. field_ok q g"
    "\<forall>k. k \<notin> set (map fs_key fs) \<longrightarrow> map_of q k = map_of u k" "set (map fst q) = set (map fst u)"
    by auto
  have "map_of q (fs_key f) = map_of u (fs_key f)" using ih(2) Cons.prems(2) by simp
  then have "field_ok q f" using v(1) field_ok_cong by blast
  then show ?case using ih v(2,3) by auto
qed simp

lemma validate_payload_ok:
  assumes "validate_payload fs own mp = Inr r" "distinct (map fs_key fs)"
  obtains p q where "mp = Some p" "own q = Inr r" "set (map fst q) \<subseteq> set (map fs_key fs)"
    "set (map fst q) = set (map fst p)" "\<forall>f \<in> set fs. field_ok q f"
proof -
  obtain p q where p: "mp = Some p" "find (\<lambda>k. k \<notin> set (map fs_key fs)) (map fst p) = None"
    and q: "fold_result validate_field fs p = Inr q" "own q = Inr r"
    using assms(1) by (auto simp: validate_payload_def result_simps split: option.splits)
  have "set (map fst p) \<subseteq> set (map fs_key fs)" using p(2) by (auto simp: find_None_iff)
  then show ?thesis using that [OF p(1) q(2)] validate_fields_ok [OF q(1) assms(2)] by auto
qed

end
