(* ===== verification/FieldTables.thy ===== *)
theory FieldTables
  imports Payload
begin

text \<open>
  The field tables of \<open>backend/internal/calculators\<close>: for every category of activity the
  fields its payload may have (\<open>Fields()\<close> of \<open>teachers.go\<close>, \<open>ood_rpd.go\<close>, \<open>internship.go\<close>,
  \<open>order_activities.go\<close>, \<open>manual.go\<close>). Cyrillic options are given by their code points.
\<close>

definition teachers_fields :: "field_spec list" where
  "teachers_fields =
   [required (select_field ''org_name''),
    select_field ''staff_member_id'',
    required (text_field ''course_name''),
    required (options [''bachelor'', ''master'', ''specialist'', ''spo''] (select_field
      ''education_level'')),
    required (integer (minimum 1 (maximum 13 (number_field ''semester'')))),
    max_length 300 (text_field ''academic_period''),
    date_field ''semester_start'',
    date_field ''semester_end'',
    integer (minimum 1 (maximum 30 (number_field ''semester_duration_weeks''))),
    max_length 300 (text_field ''training_direction''),
    text_field ''institute'',
    text_field ''faculty'',
    text_field ''department'',
    max_length 500 (text_field ''teaching_area''),
    required (text_field ''teacher_full_name''),
    text_field ''employee_position'',
    text_field ''okz_code'',
    integer (minimum 0 (maximum 1827 (number_field ''it_experience_days''))),
    max_length 1000 (text_field ''it_experience_reference''),
    required (options [utf8 [1058, 1044, 32, 1087, 1086, 32, 1089, 1086, 1074, 1084, 1077, 1089,
      1090, 1080, 1090, 1077, 1083, 1100, 1089, 1090, 1074, 1091], utf8 [1043, 1055, 1061], utf8
      [1041, 1077, 1079, 1074, 1086, 1079, 1084, 1077, 1079, 1076, 1085, 1099, 1081, 32, 1076, 1086,
      1075, 1086, 1074, 1086, 1088, 32, 1043, 1055, 1061], utf8 [1058, 1088, 1091, 1076, 1086, 1074,
      1086, 1081, 32, 1076, 1086, 1075, 1086, 1074, 1086, 1088, 32, 1089, 32, 1048, 1058, 45, 1082,
      1086, 1084, 1087, 1072, 1085, 1080, 1077, 1081], utf8 [1044, 1086, 1075, 1086, 1074, 1086, 1088,
      32, 1087, 1086, 1078, 1077, 1088, 1090, 1074, 1086, 1074, 1072, 1085, 1080, 1103], utf8 [1055,
      1088, 1103, 1084, 1086, 1081, 32, 1076, 1086, 1075, 1086, 1074, 1086, 1088, 32, 1084, 1077,
      1078, 1076, 1091, 32, 1054, 1054, 32, 1080, 32, 1048, 1058, 45, 1082, 1086, 1084, 1087, 1072,
      1085, 1080, 1077, 1081]] (select_field ''employment_form'')),
    text_field ''specialty_code'',
    text_field ''academic_group'',
    integer (number_field ''students_reach''),
    required (number_field ''academic_hours''),
    max_length 2000 (text_field ''class_schedule''),
    max_length 2000 (text_field ''work_schedule''),
    max_length 1000 (text_field ''employment_contract_reference''),
    max_length 1000 (text_field ''donation_usage_report_reference''),
    max_length 1000 (text_field ''appointment_order_reference''),
    max_length 1000 (text_field ''individual_plan_reference'')]"

definition ood_rpd_fields :: "field_spec list" where
  "ood_rpd_fields =
   [required (select_field ''org_name''),
    required (options [''rpd'', ''oop''] (select_field ''doc_type'')),
    options [''awaiting_university'', ''in_progress'', ''implemented'', ''university_approved'']
      (select_field ''work_status''),
    integer (minimum 1 (maximum 13 (number_field ''semester''))),
    required (options [''vo'', ''spo''] (select_field ''level'')),
    required (options [''development'', ''update'', ''expertise''] (select_field ''activity_type'')),
    required (text_field ''program_name''),
    text_field ''expert_full_name'',
    integer (number_field ''students_reach''),
    text_field ''specialty_code'',
    max_length 1000 (text_field ''project_document_reference''),
    max_length 1000 (text_field ''expert_conclusion_reference''),
    max_length 1000 (text_field ''approval_reference'')]"

definition internship_fields :: "field_spec list" where
  "internship_fields =
   [required (select_field ''org_name''),
    required (select_field ''mentor_id''),
    required (text_field ''mentor_full_name''),
    required (text_field ''student_full_name''),
    text_field ''course'',
    text_field ''period'',
    date_field ''period_start'',
    date_field ''period_end'',
    required (date_field ''mentor_assignment_start''),
    required (date_field ''mentor_assignment_end''),
    text_field ''specialty_code'',
    required (number_field ''duration_months''),
    required (number_field ''student_load_hours_per_month''),
    required (number_field ''mentor_load_hours_per_month''),
    minimum 0 (number_field ''monthly_salary_rub''),
    max_length 1000 (text_field ''internship_agreement_reference''),
    max_length 1000 (text_field ''mentor_supplementary_agreement_reference''),
    required (max_length 100 (text_field ''mentor_order_number'')),
    required (date_field ''mentor_order_date''),
    max_length 1000 (text_field ''mentor_order_reference''),
    max_length 1000 (text_field ''individual_program_reference''),
    max_length 1000 (text_field ''incoming_certificate_reference''),
    max_length 1000 (text_field ''outgoing_certificate_reference''),
    options [''candidate_search'', ''candidate_found'', ''launched'', ''completed''] (select_field
      ''work_status'')]"

definition practice_extra_fields :: "field_spec list" where
  "practice_extra_fields =
   [max_length 100 (text_field ''practice_order_number''),
    date_field ''practice_order_date'',
    required (options [''fixed_term'', ''other''] (select_field ''labor_contract_type'')),
    required (max_length 100 (text_field ''practice_agreement_number'')),
    required (date_field ''practice_agreement_date''),
    date_field ''practice_agreement_start_date'',
    date_field ''practice_agreement_end_date'',
    max_length 1000 (text_field ''practice_agreement_reference''),
    required (integer (minimum 14 (maximum 100 (number_field ''student_age'')))),
    required (minimum 0 (maximum 40 (number_field ''weekly_hours'')))]"

definition top_it_fields :: "field_spec list" where
  "top_it_fields =
   [required (select_field ''org_name''),
    required (max_length 300 (text_field ''project_name'')),
    required (max_length 500 (text_field ''program_name'')),
    max_length 2000 (text_field ''joint_activities''),
    options [''assistance'', ''cofinancing''] (select_field ''top_activity_type''),
    number_field ''duration_months'',
    text_field ''cost_type'',
    required (text_field ''cofinancing_report_reference''),
    required (number_field ''cofinancing_amount_rub''),
    text_field ''program_wave'',
    options [''anchor'', ''partner''] (select_field ''partner_role''),
    minimum 0 (number_field ''grant_amount_rub''),
    minimum 0 (number_field ''planned_cofinancing_amount_rub''),
    minimum 0 (number_field ''transferred_amount_rub''),
    minimum 0 (number_field ''actual_spent_amount_rub''),
    max_length 500 (text_field ''expense_article''),
    max_length 1000 (text_field ''top_agreement_reference''),
    max_length 1000 (text_field ''payment_order_reference''),
    max_length 1000 (text_field ''spending_act_reference''),
    max_length 1000 (text_field ''ano_letter_reference'')]"

definition school_funding_fields :: "field_spec list" where
  "school_funding_fields =
   [required (max_length 500 (text_field ''funding_source'')),
    required (options [''absent'', ''full_or_partial''] (select_field ''budget_funding'')),
    required (options [''absent'', ''full_or_partial''] (select_field ''citizen_funding''))]"

definition school_programs_fields :: "field_spec list" where
  "school_programs_fields =
   [required (select_field ''org_name''),
    required (text_field ''program_name''),
    text_field ''employee_full_name'',
    required (number_field ''academic_hours''),
    required (integer (number_field ''developed_programs_count'')),
    required (integer (number_field ''students_count'')),
    text_field ''class_range'',
    max_length 1000 (text_field ''school_agreement_reference''),
    max_length 1000 (text_field ''participant_groups_reference''),
    max_length 1000 (text_field ''acceptance_act_reference'')] @ school_funding_fields"

definition teacher_training_fields :: "field_spec list" where
  "teacher_training_fields =
   [required (select_field ''org_name''),
    required (text_field ''program_name''),
    required (integer (number_field ''developed_programs_count'')),
    required (number_field ''academic_hours_per_teacher''),
    required (integer (number_field ''trained_teachers_count'')),
    max_length 1000 (text_field ''school_agreement_reference''),
    max_length 1000 (text_field ''participant_groups_reference''),
    max_length 1000 (text_field ''acceptance_act_reference'')] @ school_funding_fields"

definition educational_content_fields :: "field_spec list" where
  "educational_content_fields =
   [required (select_field ''org_name''),
    required (text_field ''platform_name''),
    required (integer (number_field ''student_platform_months'')),
    required (integer (number_field ''teacher_platform_months'')),
    required (text_field ''digital_trace_reference''),
    required (date_field ''digital_trace_period_start''),
    required (date_field ''digital_trace_period_end''),
    required (integer (minimum 1 (number_field ''digital_trace_participants''))),
    required (max_length 64 (text_field ''digital_trace_sha256'')),
    max_length 1000 (text_field ''school_agreement_reference''),
    max_length 1000 (text_field ''acceptance_act_reference'')] @ school_funding_fields"

definition manual_fields :: "field_spec list" where
  "manual_fields =
   [required (select_field ''org_name''),
    required (options [''president_instruction'', ''government_instruction'',
      ''curator_instruction'', ''security_council_decision''] (select_field ''instruction_type'')),
    required (options [''president'', ''prime_minister'', ''deputy_prime_minister'',
      ''security_council''] (select_field ''instruction_authority'')),
    required (max_length 1000 (text_field ''instruction_reference'')),
    required (max_length 200 (text_field ''decision_number'')),
    required (date_field ''decision_date''),
    max_length 1000 (text_field ''decision_reference''),
    required (date_field ''implementation_start''),
    required (date_field ''implementation_deadline''),
    required (max_length 4000 (text_field ''implementation_conditions'')),
    required (max_length 2000 (text_field ''activity_description'')),
    required (max_length 2000 (text_field ''metric_description'')),
    required (max_length 100 (text_field ''metric_unit'')),
    minimum 0 (number_field ''planned_volume''),
    required (minimum 0 (number_field ''actual_volume'')),
    required (max_length 2000 (text_field ''calculation_basis'')),
    required (number_field ''amount_manual''),
    required (max_length 4000 (text_field ''decision_required_documents'')),
    max_length 4000 (text_field ''decision_provided_documents''),
    max_length 2000 (text_field ''expense_evidence_reference'')]"

text \<open>
  \<open>employmentPracticeCalc.Fields\<close>: the internship table without the supplementary agreement,
  four fields made mandatory, the labour contract inserted after the internship agreement.
\<close>

definition practice_base :: "field_spec list \<Rightarrow> field_spec list" where
  "practice_base base = concat (map (\<lambda>f.
     if fs_key f = ''mentor_supplementary_agreement_reference'' then []
     else (let f = (if fs_key f \<in> {''course'', ''period_start'', ''period_end'', ''specialty_code''}
                    then required f else f)
       in f # (if fs_key f = ''internship_agreement_reference''
               then [required (max_length 100 (text_field ''labor_contract_number'')),
                     required (date_field ''labor_contract_date'')]
               else []))) base)"

definition employment_practice_fields :: "field_spec list" where
  "employment_practice_fields = practice_base internship_fields @ practice_extra_fields"

lemmas field_tables =
  teachers_fields_def ood_rpd_fields_def internship_fields_def employment_practice_fields_def
  practice_base_def practice_extra_fields_def top_it_fields_def manual_fields_def
  school_programs_fields_def school_funding_fields_def teacher_training_fields_def
  educational_content_fields_def

end
