(* ===== verification/Money.thy ===== *)
theory Money
  imports GoNumber GoDate
begin

text \<open>
  \<open>backend/internal/money/money.go\<close>: sums of money as integer kopecks (a Go int64), their
  checked addition, the decimal reader and printer, and the half-up rounding of an exact
  rational. The interface \<open>checked_adder\<close> is what the components that accumulate sums
  (projection, programme items) rely on.
\<close>

section \<open>Signed 64-bit integers\<close>

definition max_int64 :: int where "max_int64 = 9223372036854775807"

definition wrap64 :: "int \<Rightarrow> int" where
  "wrap64 x = (x + 9223372036854775808) mod 18446744073709551616 - 9223372036854775808"

definition is_int64 :: "int \<Rightarrow> bool" where
  "is_int64 x = (- max_int64 - 1 \<le> x \<and> x \<le> max_int64)"

text \<open>Go's integer division and remainder truncate towards zero.\<close>

definition go_quot :: "int \<Rightarrow> int \<Rightarrow> int" where
  "go_quot a b = sgn a * sgn b * (\<bar>a\<bar> div \<bar>b\<bar>)"

definition go_rem :: "int \<Rightarrow> int \<Rightarrow> int" where
  "go_rem a b = a - b * go_quot a b"

lemma wrap64_id: "is_int64 x \<Longrightarrow> wrap64 x = x"
  by (simp add: wrap64_def is_int64_def max_int64_def)

section \<open>Amounts\<close>

type_synonym amount = int

datatype money_error = SumOverflow | NotDecimal | BadSum | NegativeSum | SumTooLarge | UnsupportedType

definition money_add :: "amount \<Rightarrow> amount \<Rightarrow> money_error + amount" where
  "money_add a b = (if a < 0 \<or> b < 0 \<or> b > max_int64 - a then Inl SumOverflow else Inr (a + b))"

text \<open>The pattern \<open>^[0-9]{1,17}(\.[0-9]{1,12})?$\<close>.\<close>

definition decimal_pattern :: "string \<Rightarrow> bool" where
  "decimal_pattern s =
     (let ip = takeWhile is_digit s; r = dropWhile is_digit s
      in 1 \<le> length ip \<and> length ip \<le> 17 \<and>
         (case r of [] \<Rightarrow> True
          | c # fp \<Rightarrow> c = CHR ''.'' \<and> 1 \<le> length fp \<and> length fp \<le> 12 \<and> list_all is_digit fp))"

definition from_rat :: "rat \<Rightarrow> money_error + amount" where
  "from_rat r =
     (if r < 0 then Inl NegativeSum
      else let (n, d) = quotient_of (r * 100);
               whole = n div d; rest = n mod d;
               whole = (if rest * 2 \<ge> d then whole + 1 else whole)
           in if is_int64 whole then Inr whole else Inl SumTooLarge)"

definition money_parse :: "string \<Rightarrow> money_error + amount" where
  "money_parse s =
     (if \<not> decimal_pattern s then Inl NotDecimal
      else (case parse_decimal s of None \<Rightarrow> Inl BadSum | Some r \<Rightarrow> from_rat r))"

text \<open>\<open>fmt.Sprintf("%d.%02d", a/100, a%100)\<close>.\<close>

definition money_string :: "amount \<Rightarrow> string" where
  "money_string a = show_int (go_quot a 100) @ ''.'' @
     (if go_rem a 100 < 0 then show_int (go_rem a 100) else pad 2 (nat (go_rem a 100)))"

text \<open>The sources \<open>database/sql\<close> hands to \<open>Scan\<close>.\<close>

datatype sql_value = SqlText string | SqlBytes string | SqlInt int | SqlOther

definition money_scan :: "sql_value \<Rightarrow> money_error + amount" where
  "money_scan v = (case v of SqlText s \<Rightarrow> money_parse s | SqlBytes s \<Rightarrow> money_parse s
     | SqlInt i \<Rightarrow> money_parse (show_int i) | SqlOther \<Rightarrow> Inl UnsupportedType)"

definition money_rubles :: "amount \<Rightarrow> rat" where
  "money_rubles a = fdiv (f64 (of_int a)) 100"

section \<open>Checked addition\<close>

locale checked_adder =
  fixes add :: "int \<Rightarrow> int \<Rightarrow> 'e + int"
    and limit :: int
  assumes add_iff: "0 \<le> a \<Longrightarrow> 0 \<le> b \<Longrightarrow> add a b = Inr c \<longleftrightarrow> c = a + b \<and> a + b \<le> limit"
begin

lemma add_all:
  assumes "0 \<le> s" "\<forall>x \<in> set xs. 0 \<le> x" "s \<le> limit"
  shows "fold_result (\<lambda>x t. add t x) xs s = Inr t \<longleftrightarrow> t = s + sum_list xs \<and> s + sum_list xs \<le> limit"
  using assms
proof (induction xs arbitrary: s)
  case (Cons x xs)
  have x: "0 \<le> x" and p: "0 \<le> sum_list xs" using Cons.prems by (auto intro: sum_list_nonneg)
  show ?case
  proof (cases "s + x \<le> limit")
    case True
    then have "add s x = Inr (s + x)" using add_iff [of s x] Cons.prems x by simp
    then show ?thesis using Cons.IH [of "s + x"] Cons.prems x True by (simp add: add.assoc)
  next
    case False
    then obtain e where "add s x = Inl e" using add_iff [of s x] Cons.prems x by (cases "add s x") auto
    with False p show ?thesis by auto
  qed
qed auto

end

interpretation kop: checked_adder money_add max_int64
  by unfold_locales (auto simp: money_add_def max_int64_def)

section \<open>Rounding\<close>

lemma floor_quotient: "quotient_of q = (n, d) \<Longrightarrow> n div d = \<lfloor>q\<rfloor> \<and> 0 < d \<and> of_int (n mod d) = (q - of_int \<lfloor>q\<rfloor>) * of_int d"
proof -
  assume nd: "quotient_of q = (n, d)"
  then have d: "0 < d" and q: "q = of_int n / of_int d"
    using quotient_of_denom_pos quotient_of_div by blast+
  have f: "\<lfloor>q\<rfloor> = n div d" unfolding q by (rule floor_divide_of_int_eq)
  have "of_int (n mod d) = (of_int n - of_int (n div d) * of_int d :: rat)"
    by (metis minus_div_mult_eq_mod of_int_diff of_int_mult)
  then show ?thesis using d f q by (simp add: left_diff_distrib)
qed

lemma half_up_floor: "(if 1/2 \<le> q - of_int \<lfloor>q\<rfloor> then \<lfloor>q\<rfloor> + 1 else \<lfloor>q\<rfloor>) = \<lfloor>q + 1/2 :: rat\<rfloor>"
proof (cases "1/2 \<le> q - of_int \<lfloor>q\<rfloor>")
  case True
  have "q < of_int \<lfloor>q\<rfloor> + 1" by linarith
  with True have "\<lfloor>q + 1/2\<rfloor> = \<lfloor>q\<rfloor> + 1" by (intro floor_unique) simp_all
  with True show ?thesis by simp
next
  case False
  moreover have "of_int \<lfloor>q\<rfloor> \<le> q + 1/2" using of_int_floor_le [of q] by (rule order_trans) simp
  ultimately have "\<lfloor>q + 1/2\<rfloor> = \<lfloor>q\<rfloor>" by (intro floor_unique) simp_all
  with False show ?thesis by simp
qed

lemma from_rat_floor:
  "from_rat r = (if r < 0 then Inl NegativeSum
     else if is_int64 \<lfloor>r * 100 + 1/2\<rfloor> then Inr \<lfloor>r * 100 + 1/2\<rfloor> else Inl SumTooLarge)"
proof -
  obtain n d where nd: "quotient_of (r * 100) = (n, d)" by fastforce
  note f = floor_quotient [OF nd]
  have "(n mod d) * 2 \<ge> d \<longleftrightarrow> 1/2 \<le> r * 100 - of_int \<lfloor>r * 100\<rfloor>"
  proof -
    have "(n mod d) * 2 \<ge> d \<longleftrightarrow> (of_int (n mod d) * 2 :: rat) \<ge> of_int d"
      by (metis of_int_le_iff of_int_mult of_int_numeral)
    also have "\<dots> \<longleftrightarrow> 1 * of_int d \<le> (r * 100 - of_int \<lfloor>r * 100\<rfloor>) * 2 * of_int d"
      using f by (simp add: ac_simps)
    also have "\<dots> \<longleftrightarrow> 1 \<le> (r * 100 - of_int \<lfloor>r * 100\<rfloor>) * 2"
      using f by (intro mult_le_cancel_right_pos) simp
    also have "\<dots> \<longleftrightarrow> 1/2 \<le> r * 100 - of_int \<lfloor>r * 100\<rfloor>" by (simp add: field_simps)
    finally show ?thesis .
  qed
  then have "(if (n mod d) * 2 \<ge> d then n div d + 1 else n div d) = \<lfloor>r * 100 + 1/2\<rfloor>"
    using f half_up_floor [of "r * 100"] by (simp only:)
  then show ?thesis unfolding from_rat_def nd Let_def prod.case by simp
qed

lemma from_rat_iff:
  "from_rat r = Inr a \<longleftrightarrow> 0 \<le> r \<and> a = \<lfloor>r * 100 + 1/2\<rfloor> \<and> a \<le> max_int64"
  by (auto simp: from_rat_floor is_int64_def max_int64_def)

lemma from_rat_nonneg: "from_rat r = Inr a \<Longrightarrow> 0 \<le> a"
  by (simp add: from_rat_iff)

lemma money_parse_nonneg: "money_parse s = Inr a \<Longrightarrow> 0 \<le> a \<and> a \<le> max_int64"
  using from_rat_nonneg by (auto simp: money_parse_def from_rat_iff split: if_splits option.splits)

section \<open>Printing and reading\<close>

lemma go_quot_nonneg: "0 \<le> a \<Longrightarrow> 0 < b \<Longrightarrow> go_quot a b = a div b"
  by (auto simp: go_quot_def sgn_if)

lemma go_rem_nonneg: "0 \<le> a \<Longrightarrow> 0 < b \<Longrightarrow> go_rem a b = a mod b"
  by (simp add: go_rem_def go_quot_nonneg minus_mult_div_eq_mod)

lemma takeWhile_digits_append:
  assumes "list_all is_digit s" "\<not> is_digit c"
  shows "takeWhile is_digit (s @ c # t) = s" "dropWhile is_digit (s @ c # t) = c # t"
  using assms by (induction s) auto

lemma takeWhile_digits_all:
  assumes "list_all is_digit s"
  shows "takeWhile is_digit s = s" "dropWhile is_digit s = []"
  using assms by (induction s) auto

lemma not_digit_punct: "\<not> is_digit CHR ''.''" "\<not> is_digit CHR ''-''" "\<not> is_digit CHR ''+''"
  by (simp_all add: is_digit_def in_range_def)

lemma take_sign_digits: "list_all is_digit s \<Longrightarrow> s \<noteq> [] \<Longrightarrow> take_sign (s @ t) = (False, s @ t)"
  using not_digit_punct by (cases s) auto

lemma parse_decimal_point:
  assumes "list_all is_digit s" "list_all is_digit t" "s \<noteq> []"
  shows "parse_decimal (s @ CHR ''.'' # t) = Some (of_nat (nat_of_digits (s @ t)) * pow10 (- int (length t)))"
  using assms not_digit_punct
  by (simp add: parse_decimal_def take_sign_digits takeWhile_digits_append takeWhile_digits_all)

lemma money_string_nonneg:
  "0 \<le> a \<Longrightarrow> money_string a = show_nat (nat (a div 100)) @ CHR ''.'' # pad 2 (nat (a mod 100))"
proof -
  assume "0 \<le> a"
  then have "\<not> a div 100 < 0" "\<not> a mod 100 < 0" by (simp_all add: not_less pos_imp_zdiv_nonneg_iff)
  then show ?thesis using \<open>0 \<le> a\<close> unfolding money_string_def show_int_def
    by (simp only: go_quot_nonneg go_rem_nonneg zero_less_numeral if_False append_Cons append_Nil)
qed

lemma money_parse_string:
  assumes "0 \<le> a" "a \<le> max_int64"
  shows "money_parse (money_string a) = Inr a"
proof -
  let ?s = "show_nat (nat (a div 100))" and ?t = "pad 2 (nat (a mod 100))"
  have m: "nat (a mod 100) < 10 ^ 2" by (simp add: nat_less_iff)
  have t: "length ?t = 2" "?t \<noteq> []" "list_all is_digit ?t" "nat_of_digits ?t = nat (a mod 100)"
    using pad_facts(3) [OF m] by (simp_all only: pad_facts zero_less_numeral, auto)
  have "nat (a div 100) < 10 ^ 17" using assms by (simp add: nat_less_iff max_int64_def)
  then have l: "length ?s \<le> 17" by (rule length_show_nat_le) simp
  have s: "list_all is_digit ?s" "?s \<noteq> []" by (simp_all add: show_nat_digits)
  have pat: "decimal_pattern (?s @ CHR ''.'' # ?t)"
    using l s t by (simp add: decimal_pattern_def Let_def takeWhile_digits_append not_digit_punct Suc_le_eq)
  have "int (nat_of_digits (?s @ ?t)) = a"
    using assms pos_imp_zdiv_nonneg_iff [of 100 a] by (simp add: nat_of_digits_append t)
  then have "(of_nat (nat_of_digits (?s @ ?t)) :: rat) = of_int a"
    by (metis of_int_of_nat_eq)
  moreover have "pow10 (- int (length ?t)) = 1 / 100" by (simp add: t pow10_def)
  ultimately have "parse_decimal (?s @ CHR ''.'' # ?t) = Some (of_int a / 100)"
    using s t by (simp add: parse_decimal_point)
  moreover have "\<lfloor>(of_int a + 1/2 :: rat)\<rfloor> = a" by (rule floor_unique) simp_all
  then have "from_rat (of_int a / 100) = Inr a"
    using assms by (simp only: from_rat_iff) simp
  ultimately show ?thesis using assms pat by (simp add: money_parse_def money_string_nonneg)
qed

text \<open>
  C7: an amount of kopecks survives the database: its decimal text is in the accepted format and
  reads back, by Parse and by Scan from text or bytes, as the same amount.
\<close>

theorem amount_text_round_trip:
  assumes "0 \<le> a" "a \<le> max_int64"
  shows "money_parse (money_string a) = Inr a \<and> money_scan (SqlText (money_string a)) = Inr a
    \<and> money_scan (SqlBytes (money_string a)) = Inr a"
  using money_parse_string [OF assms] by (simp add: money_scan_def)

theorem amount_text_round_trip_witness:
  "money_parse (money_string 9223372036854775807) = Inr 9223372036854775807"
  using amount_text_round_trip [of 9223372036854775807] by (simp add: max_int64_def)

end
