(* ===== verification/Tariffs.thy ===== *)
theory Tariffs
  imports Money "HOL-Library.Product_Lexorder"
begin

text \<open>
  \<open>backend/internal/tariffs/tariffs.go\<close>: the rates of the Methodology. \<open>definitions\<close> is the
  seeded edition (codes, categories, whole roubles; the display labels and units are left
  out), a card is the set of rates in force for a report year, \<open>load_card\<close> reads it from
  the table \<open>tariff_versions\<close>, whose rows are the argument of the query model.
\<close>

section \<open>The seeded edition\<close>

record rate_definition =
  def_code :: string
  def_category :: string
  def_amount :: int

definition rate_def :: "string \<Rightarrow> string \<Rightarrow> int \<Rightarrow> rate_definition" where
  "rate_def c k a = \<lparr>def_code = c, def_category = k, def_amount = a\<rparr>"

definition teacher_hour_vuz :: string where "teacher_hour_vuz = ''teachers.academic_hour.vuz''"
definition teacher_hour_kolledj :: string where "teacher_hour_kolledj = ''teachers.academic_hour.kolledj''"
definition internship_student_hour :: string where "internship_student_hour = ''internship.student_hour''"
definition internship_mentor_hour :: string where "internship_mentor_hour = ''internship.mentor_hour''"
definition school_program_hour :: string where "school_program_hour = ''it_clubs.academic_hour''"
definition school_program_development :: string where
  "school_program_development = ''it_clubs.program_development''"
definition teacher_training_hour :: string where "teacher_training_hour = ''teacher_training.academic_hour''"
definition teacher_training_development :: string where
  "teacher_training_development = ''teacher_training.program_development''"
definition platform_student_month :: string where
  "platform_student_month = ''edu_content.student_platform_month''"
definition platform_teacher_month :: string where
  "platform_teacher_month = ''edu_content.teacher_platform_month''"

definition ood_rpd_code :: "string \<Rightarrow> string \<Rightarrow> string \<Rightarrow> string" where
  "ood_rpd_code doc_type level activity =
     ''ood_rpd.'' @ doc_type @ ''.'' @ level @ ''.'' @ activity"

definition definitions :: "rate_definition list" where
  "definitions =
   [rate_def teacher_hour_vuz ''teachers'' 4140,
    rate_def teacher_hour_kolledj ''teachers'' 3900,
    rate_def (ood_rpd_code ''rpd'' ''vo'' ''development'') ''ood_rpd'' 300000,
    rate_def (ood_rpd_code ''rpd'' ''vo'' ''update'') ''ood_rpd'' 160000,
    rate_def (ood_rpd_code ''rpd'' ''vo'' ''expertise'') ''ood_rpd'' 55000,
    rate_def (ood_rpd_code ''rpd'' ''spo'' ''development'') ''ood_rpd'' 270750,
    rate_def (ood_rpd_code ''rpd'' ''spo'' ''update'') ''ood_rpd'' 150000,
    rate_def (ood_rpd_code ''rpd'' ''spo'' ''expertise'') ''ood_rpd'' 58060,
    rate_def (ood_rpd_code ''oop'' ''vo'' ''development'') ''ood_rpd'' 2039850,
    rate_def (ood_rpd_code ''oop'' ''vo'' ''update'') ''ood_rpd'' 626110,
    rate_def (ood_rpd_code ''oop'' ''vo'' ''expertise'') ''ood_rpd'' 312300,
    rate_def (ood_rpd_code ''oop'' ''spo'' ''development'') ''ood_rpd'' 1731360,
    rate_def (ood_rpd_code ''oop'' ''spo'' ''update'') ''ood_rpd'' 427440,
    rate_def (ood_rpd_code ''oop'' ''spo'' ''expertise'') ''ood_rpd'' 171000,
    rate_def internship_student_hour ''internship'' 800,
    rate_def internship_mentor_hour ''internship'' 2390,
    rate_def school_program_hour ''it_clubs'' 4260,
    rate_def school_program_development ''it_clubs'' 530890,
    rate_def teacher_training_hour ''teacher_training'' 3790,
    rate_def teacher_training_development ''teacher_training'' 1408570,
    rate_def platform_student_month ''edu_content'' 6800,
    rate_def platform_teacher_month ''edu_content'' 8590]"

definition definition_of :: "string \<Rightarrow> rate_definition option" where
  "definition_of code = find (\<lambda>d. def_code d = code) definitions"

definition category_codes :: "string \<Rightarrow> string list" where
  "category_codes category =
     (let category = (if category = ''employment_practice'' then ''internship'' else category)
      in map def_code (filter (\<lambda>d. def_category d = category) definitions))"

section \<open>Cards\<close>

record rate =
  rate_code :: string
  rate_amount :: rat
  rate_version :: int
  rate_source :: string

type_synonym card = "(string \<times> rate) list"

datatype tariff_error = RateNotSet string | BadRateAmount string | MissingForYear int string

text \<open>\<open>SeedSource\<close> is a Russian title; the card only carries it along.\<close>

definition seed_source :: string where
  "seed_source = utf8 [
     1055, 1088, 1080, 1082, 1072, 1079, 32, 1052, 1080, 1085, 1094, 1080, 1092, 1088, 1099, 32,
     8470, 32, 50, 55, 48, 44, 32, 1052, 1077, 1090, 1086, 1076, 1080, 1082, 1072, 32,
     40, 1088, 1077, 1076, 1072, 1082, 1094, 1080, 1103, 32, 1087, 1086, 1089, 1090, 1072, 1074,
     1082, 1080, 32, 1058, 1047, 32, 52, 46, 52, 41]"

definition default_card :: card where
  "default_card = fold (\<lambda>d c. AList.update (def_code d)
      \<lparr>rate_code = def_code d, rate_amount = of_int (def_amount d), rate_version = 0,
       rate_source = seed_source\<rparr> c) definitions []"

definition card_rat :: "card \<Rightarrow> string \<Rightarrow> tariff_error + rat" where
  "card_rat c code = (case map_of c code of None \<Rightarrow> Inl (RateNotSet code) | Some r \<Rightarrow> Inr (rate_amount r))"

definition card_float :: "card \<Rightarrow> string \<Rightarrow> tariff_error + rat" where
  "card_float c code = rbind (card_rat c code) (\<lambda>r. Inr (f64 r))"

definition version_ids :: "card \<Rightarrow> string \<Rightarrow> int list" where
  "version_ids c category =
     sort (map rate_version (filter (\<lambda>r. rate_version r > 0)
       (List.map_filter (map_of c) (category_codes category))))"

definition card_rates :: "card \<Rightarrow> rate list" where
  "card_rates c = List.map_filter (\<lambda>d. map_of c (def_code d)) definitions"

section \<open>Loading the edition of a report year\<close>

text \<open>A row of \<open>tariff_versions\<close>; days are day numbers, an open end is \<open>None\<close>.\<close>

record tariff_row =
  tr_id :: int
  tr_code :: string
  tr_amount :: string
  tr_source :: string
  tr_from :: int
  tr_until :: "int option"

definition effective_on :: "int \<Rightarrow> int" where
  "effective_on year = day_number (year, 1, 1)"

definition in_force :: "int \<Rightarrow> tariff_row \<Rightarrow> bool" where
  "in_force day r = (tr_from r \<le> day \<and> (case tr_until r of None \<Rightarrow> True | Some u \<Rightarrow> u \<ge> day))"

text \<open>
  \<open>SELECT DISTINCT ON (rate_code) ... ORDER BY rate_code, valid_from DESC\<close>: of the rows in
  force, the first of each code after sorting.
\<close>

fun distinct_on :: "tariff_row list \<Rightarrow> tariff_row list" where
  "distinct_on [] = []"
| "distinct_on (r # rs) = r # distinct_on (filter (\<lambda>q. tr_code q \<noteq> tr_code r) rs)"

definition select_effective :: "int \<Rightarrow> tariff_row list \<Rightarrow> tariff_row list" where
  "select_effective day rows =
     distinct_on (sort_key (\<lambda>r. (tr_code r, - tr_from r)) (filter (in_force day) rows))"

definition scan_rate :: "tariff_row \<Rightarrow> card \<Rightarrow> tariff_error + card" where
  "scan_rate r c = (case parse_decimal (tr_amount r) of
     None \<Rightarrow> Inl (BadRateAmount (tr_code r))
   | Some q \<Rightarrow> Inr (AList.update (tr_code r)
        \<lparr>rate_code = tr_code r, rate_amount = q, rate_version = tr_id r, rate_source = tr_source r\<rparr> c))"

definition load_card :: "tariff_row list \<Rightarrow> int \<Rightarrow> tariff_error + card" where
  "load_card rows year =
     rbind (fold_result scan_rate (select_effective (effective_on year) rows) [])
       (\<lambda>c. case find (\<lambda>d. map_of c (def_code d) = None) definitions of
          None \<Rightarrow> Inr c
        | Some d \<Rightarrow> Inl (MissingForYear year (def_code d)))"

section \<open>Facts about cards\<close>

lemmas rate_codes =
  teacher_hour_vuz_def teacher_hour_kolledj_def internship_student_hour_def internship_mentor_hour_def
  school_program_hour_def school_program_development_def teacher_training_hour_def
  teacher_training_development_def platform_student_month_def platform_teacher_month_def ood_rpd_code_def

lemma find_definition_distinct: "distinct (map def_code definitions)"
  by (simp add: definitions_def rate_def_def rate_codes)

lemma map_of_fold_update:
  "map_of (fold (\<lambda>d. AList.update (f d) (g d)) xs m) k =
     (case find (\<lambda>d. f d = k) (rev xs) of None \<Rightarrow> map_of m k | Some d \<Rightarrow> Some (g d))"
proof (induction xs arbitrary: m)
  case (Cons x xs)
  have "find P (rev (x # xs)) = (case find P (rev xs) of None \<Rightarrow> if P x then Some x else None | Some d \<Rightarrow> Some d)"
    for P by (simp add: find_append split: option.splits)
  then show ?case by (simp add: Cons update_conv split: option.splits)
qed simp

lemma find_distinct:
  "distinct (map f xs) \<Longrightarrow> d \<in> set xs \<Longrightarrow> find (\<lambda>e. f e = f d) xs = Some d"
  by (induction xs) auto

lemma default_card_definition:
  assumes "d \<in> set definitions"
  shows "card_rat default_card (def_code d) = Inr (of_int (def_amount d))"
proof -
  have "distinct (map def_code (rev definitions))"
    using find_definition_distinct by (simp add: rev_map [symmetric])
  then have "find (\<lambda>e. def_code e = def_code d) (rev definitions) = Some d"
    using assms by (intro find_distinct) simp_all
  then show ?thesis by (simp add: card_rat_def default_card_def map_of_fold_update)
qed

lemma default_card_only_definitions:
  "card_rat default_card code = Inr q \<Longrightarrow> \<exists>d \<in> set definitions. def_code d = code \<and> q = of_int (def_amount d)"
  by (fastforce simp: card_rat_def default_card_def map_of_fold_update dest!: find_Some_mem split: option.splits)

lemma distinct_on_subset: "set (distinct_on rs) \<subseteq> set rs"
  by (induction rs rule: distinct_on.induct) auto

lemma distinct_on_first:
  assumes "sorted (map (\<lambda>r. (tr_code r, - tr_from r)) rs)"
    and "r \<in> set (distinct_on rs)" "q \<in> set rs" "tr_code q = tr_code r"
  shows "tr_from q \<le> tr_from r"
  using assms
proof (induction rs rule: distinct_on.induct)
  case (2 x xs)
  let ?ys = "filter (\<lambda>q. tr_code q \<noteq> tr_code x) xs"
  show ?case
  proof (cases "tr_code r = tr_code x")
    case True
    then have "r = x" using "2.prems"(2) distinct_on_subset [of ?ys] by auto
    then show ?thesis using "2.prems" by (auto simp: less_eq_prod_def)
  next
    case False
    have "sorted (map (\<lambda>r. (tr_code r, - tr_from r)) ?ys)"
      using "2.prems"(1) by (simp add: sorted_filter)
    then show ?thesis using "2.IH" "2.prems" False by auto
  qed
qed simp

definition comes_from :: "tariff_row \<Rightarrow> rate \<Rightarrow> bool" where
  "comes_from row r = (rate_code r = tr_code row \<and> rate_version r = tr_id row
     \<and> rate_source r = tr_source row \<and> parse_decimal (tr_amount row) = Some (rate_amount r))"

lemma scan_rates:
  assumes "fold_result scan_rate rs [] = Inr c" "map_of c k = Some r"
  shows "\<exists>row \<in> set rs. tr_code row = k \<and> comes_from row r"
proof -
  have "\<forall>k r. map_of c k = Some r \<longrightarrow> (\<exists>row \<in> set rs. tr_code row = k \<and> comes_from row r)"
    by (rule fold_result_invariant [OF assms(1)])
       (fastforce simp: scan_rate_def comes_from_def update_conv split: option.splits if_splits)+
  with assms(2) show ?thesis by blast
qed

lemma load_card_complete: "load_card rows y = Inr c \<Longrightarrow> d \<in> set definitions \<Longrightarrow> \<exists>q. card_rat c (def_code d) = Inr q"
  by (auto simp: load_card_def result_simps card_rat_def find_None_all split: option.splits)

lemma load_card_latest:
  assumes "load_card rows y = Inr c" "map_of c k = Some r"
  shows "\<exists>row \<in> set rows. in_force (effective_on y) row \<and> tr_code row = k \<and> comes_from row r
    \<and> (\<forall>q \<in> set rows. in_force (effective_on y) q \<and> tr_code q = k \<longrightarrow> tr_from q \<le> tr_from row)"
proof -
  let ?sorted = "sort_key (\<lambda>r. (tr_code r, - tr_from r)) (filter (in_force (effective_on y)) rows)"
  have "fold_result scan_rate (select_effective (effective_on y) rows) [] = Inr c"
    using assms(1) by (auto simp: load_card_def result_simps split: option.splits)
  from scan_rates [OF this assms(2)] obtain row where
    row: "row \<in> set (distinct_on ?sorted)" "tr_code row = k" "comes_from row r"
    by (auto simp: select_effective_def)
  have "tr_from q \<le> tr_from row" if "q \<in> set rows" "in_force (effective_on y) q" "tr_code q = k" for q
    by (rule distinct_on_first [OF _ row(1)]) (use that row in auto)
  then show ?thesis using row distinct_on_subset [of ?sorted] by fastforce
qed

text \<open>
  C8: a loaded card is complete and current: for every rate of the edition it holds the amount of
  a row of the table that is in force on the first of January of the report year, and no row in
  force for that rate starts later.
\<close>

theorem loaded_card_is_in_force:
  assumes "load_card rows year = Inr c"
  shows "\<forall>d \<in> set definitions. \<exists>row \<in> set rows. tr_code row = def_code d \<and> in_force (effective_on year) row
    \<and> (\<exists>q. parse_decimal (tr_amount row) = Some q \<and> card_rat c (def_code d) = Inr q)
    \<and> (\<forall>other \<in> set rows. in_force (effective_on year) other \<and> tr_code other = def_code d
          \<longrightarrow> tr_from other \<le> tr_from row)"
proof
  fix d assume "d \<in> set definitions"
  then obtain r where r: "map_of c (def_code d) = Some r"
    using load_card_complete [OF assms] by (fastforce simp: card_rat_def split: option.splits)
  from load_card_latest [OF assms this] show "\<exists>row \<in> set rows. tr_code row = def_code d
    \<and> in_force (effective_on year) row
    \<and> (\<exists>q. parse_decimal (tr_amount row) = Some q \<and> card_rat c (def_code d) = Inr q)
    \<and> (\<forall>other \<in> set rows. in_force (effective_on year) other \<and> tr_code other = def_code d
          \<longrightarrow> tr_from other \<le> tr_from row)"
    using r by (fastforce simp: comes_from_def card_rat_def)
qed

definition flat_rows :: "tariff_row list" where
  "flat_rows = map (\<lambda>d. \<lparr>tr_id = 1, tr_code = def_code d, tr_amount = ''100'',
     tr_source = [], tr_from = 0, tr_until = None\<rparr>) definitions"

lemma flat_rows_load: "succeeds (load_card flat_rows 2026)"
  by code_simp

theorem loaded_card_is_in_force_witness:
  "\<exists>c. load_card flat_rows 2026 = Inr c \<and> (\<forall>d \<in> set definitions. \<exists>row \<in> set flat_rows.
    tr_code row = def_code d \<and> in_force (effective_on 2026) row)"
  using flat_rows_load loaded_card_is_in_force [of flat_rows 2026] unfolding succeeds_iff by blast

end
