(* ===== verification/Categories.thy ===== *)
theory Categories
  imports FieldTables Tariffs
begin

text \<open>
  The nine categories of activity (\<open>backend/internal/calculators\<close>): the registry, the amount
  of each formula in binary64 (\<open>Calculate\<close>), and the checks of each category on its payload
  (\<open>Validate\<close>). The amount that is stored is computed exactly in theory \<open>Exact\<close>; the binary64
  path decides which payloads are refused. Messages are reduced to \<open>Rejected\<close> with a tag.
\<close>

section \<open>The registry\<close>

datatype category =
    Teachers
  | OodRpd
  | Internship
  | EmploymentPractice
  | TopIT
  | MincDecision
  | ItClubs
  | TeacherTraining
  | EduContent

definition registry :: "(string \<times> category) list" where
  "registry =
   [(''teachers'', Teachers),
    (''ood_rpd'', OodRpd),
    (''internship'', Internship),
    (''employment_practice'', EmploymentPractice),
    (''top_it'', TopIT),
    (''minc_decision'', MincDecision),
    (''it_clubs'', ItClubs),
    (''teacher_training'', TeacherTraining),
    (''edu_content'', EduContent)]"

definition get_calculator :: "string \<Rightarrow> calc_error + category" where
  "get_calculator code = (case map_of registry code of None \<Rightarrow> Inl (UnknownCategory code) | Some c \<Rightarrow> Inr c)"

fun fields_of :: "category \<Rightarrow> field_spec list" where
  "fields_of Teachers = teachers_fields"
| "fields_of OodRpd = ood_rpd_fields"
| "fields_of Internship = internship_fields"
| "fields_of EmploymentPractice = employment_practice_fields"
| "fields_of TopIT = top_it_fields"
| "fields_of MincDecision = manual_fields"
| "fields_of ItClubs = school_programs_fields"
| "fields_of TeacherTraining = teacher_training_fields"
| "fields_of EduContent = educational_content_fields"

section \<open>The formulas in binary64\<close>

text \<open>\<open>tariffs.Default().MustFloat\<close>; the codes it is applied to are all in the seeded edition.\<close>

definition must_float :: "string \<Rightarrow> rat" where
  "must_float code = (case card_float default_card code of Inl _ \<Rightarrow> 0 | Inr r \<Rightarrow> r)"

definition round2 :: "rat \<Rightarrow> rat" where
  "round2 v = fdiv (of_int (round_away (fmul v 100))) 100"

definition calculate_teachers :: "string \<Rightarrow> payload \<Rightarrow> calc_error + rat" where
  "calculate_teachers audience p =
     rbind (positive_num p ''academic_hours'') (\<lambda>hours.
       if audience = ''vuz'' then Inr (round2 (fmul hours (must_float teacher_hour_vuz)))
       else if audience = ''kolledj'' then Inr (round2 (fmul hours (must_float teacher_hour_kolledj)))
       else Inl BadAudience)"

definition ood_rpd_rate :: "string \<Rightarrow> string \<Rightarrow> string \<Rightarrow> rat option" where
  "ood_rpd_rate doc_type level activity =
     (case card_float default_card (ood_rpd_code doc_type level activity) of
        Inl _ \<Rightarrow> None | Inr r \<Rightarrow> Some r)"

definition calculate_ood_rpd :: "string \<Rightarrow> payload \<Rightarrow> calc_error + rat" where
  "calculate_ood_rpd audience p =
     rbind (str p ''doc_type'') (\<lambda>doc_type.
     rbind (str p ''level'') (\<lambda>level.
     if (audience = ''vuz'' \<and> level \<noteq> ''vo'') \<or> (audience = ''kolledj'' \<and> level \<noteq> ''spo'')
       then Inl BadAudience
     else if audience \<noteq> ''vuz'' \<and> audience \<noteq> ''kolledj'' then Inl BadAudience
     else rbind (str p ''activity_type'') (\<lambda>activity.
       if doc_type \<notin> {''rpd'', ''oop''} then Inl (BadOption ''doc_type'')
       else if level \<notin> {''vo'', ''spo''} then Inl (BadOption ''level'')
       else (case ood_rpd_rate doc_type level activity of
           None \<Rightarrow> Inl (BadOption ''activity_type'')
         | Some r \<Rightarrow> Inr (round2 r)))))"

definition calculate_internship :: "payload \<Rightarrow> calc_error + rat" where
  "calculate_internship p =
     rbind (non_negative_num p ''student_load_hours_per_month'') (\<lambda>student.
     rbind (non_negative_num p ''mentor_load_hours_per_month'') (\<lambda>mentor.
     rbind (positive_num p ''duration_months'') (\<lambda>duration.
       if student = 0 \<and> mentor = 0 then Inl (Rejected ''load'')
       else Inr (round2 (fmul (fadd (fmul student (must_float internship_student_hour))
                                    (fmul mentor (must_float internship_mentor_hour))) duration)))))"

definition top_it_amount_key :: "payload \<Rightarrow> string" where
  "top_it_amount_key p =
     (if map_of p ''actual_spent_amount_rub'' \<noteq> None then ''actual_spent_amount_rub''
      else ''cofinancing_amount_rub'')"

definition calculate_top_it :: "string \<Rightarrow> payload \<Rightarrow> calc_error + rat" where
  "calculate_top_it audience p =
     (if audience \<noteq> ''vuz'' then Inl BadAudience
      else rbind (positive_num p (top_it_amount_key p)) (\<lambda>amount. Inr (round2 amount)))"

definition calculate_manual :: "payload \<Rightarrow> calc_error + rat" where
  "calculate_manual p = rbind (positive_num p ''amount_manual'') (\<lambda>amount. Inr (round2 amount))"

definition calculate_school_programs :: "string \<Rightarrow> payload \<Rightarrow> calc_error + rat" where
  "calculate_school_programs audience p =
     (if audience \<noteq> ''school'' then Inl BadAudience
      else rbind (non_negative_num p ''academic_hours'') (\<lambda>hours.
           rbind (non_negative_num p ''developed_programs_count'') (\<lambda>programs.
             if hours = 0 \<and> programs = 0 then Inl (Rejected ''volume'')
             else Inr (round2 (fadd (fmul hours (must_float school_program_hour))
                                    (fmul programs (must_float school_program_development)))))))"

definition calculate_teacher_training :: "string \<Rightarrow> payload \<Rightarrow> calc_error + rat" where
  "calculate_teacher_training audience p =
     (if audience \<noteq> ''school'' then Inl BadAudience
      else rbind (non_negative_num p ''developed_programs_count'') (\<lambda>programs.
           rbind (non_negative_num p ''academic_hours_per_teacher'') (\<lambda>hours.
           rbind (non_negative_num p ''trained_teachers_count'') (\<lambda>teachers.
             if programs = 0 \<and> (hours = 0 \<or> teachers = 0) then Inl (Rejected ''volume'')
             else Inr (round2 (fadd (fmul programs (must_float teacher_training_development))
                                    (fmul (fmul hours teachers) (must_float teacher_training_hour))))))))"

definition calculate_educational_content :: "string \<Rightarrow> payload \<Rightarrow> calc_error + rat" where
  "calculate_educational_content audience p =
     (if audience \<noteq> ''school'' then Inl BadAudience
      else rbind (non_negative_num p ''student_platform_months'') (\<lambda>students.
           rbind (non_negative_num p ''teacher_platform_months'') (\<lambda>teachers.
             if students = 0 \<and> teachers = 0 then Inl (Rejected ''volume'')
             else Inr (round2 (fadd (fmul students (must_float platform_student_month))
                                    (fmul teachers (must_float platform_teacher_month)))))))"

fun calculate :: "category \<Rightarrow> string \<Rightarrow> payload \<Rightarrow> calc_error + rat" where
  "calculate Teachers audience p = calculate_teachers audience p"
| "calculate OodRpd audience p = calculate_ood_rpd audience p"
| "calculate Internship audience p = calculate_internship p"
| "calculate EmploymentPractice audience p = calculate_internship p"
| "calculate TopIT audience p = calculate_top_it audience p"
| "calculate MincDecision audience p = calculate_manual p"
| "calculate ItClubs audience p = calculate_school_programs audience p"
| "calculate TeacherTraining audience p = calculate_teacher_training audience p"
| "calculate EduContent audience p = calculate_educational_content audience p"

lemmas calculate_defs =
  calculate_teachers_def calculate_ood_rpd_def calculate_internship_def calculate_top_it_def
  calculate_manual_def calculate_school_programs_def calculate_teacher_training_def
  calculate_educational_content_def

end
