(* ===== verification/Exact.thy ===== *)
theory Exact
  imports Categories
begin

text \<open>
  \<open>calculators/exact.go\<close>: the amount that is stored. Every number is read as an exact rational,
  the formula is computed without rounding, and only the sum is rounded to kopecks. A formula
  keeps on after a bad number or a missing rate and reports the error at the end (a bad number
  before a missing rate, the last of each): \<open>eterm\<close> carries the value with the two errors.
\<close>

section \<open>The decimal text of a binary64 value\<close>

text \<open>
  \<open>strconv.FormatFloat(v, 'f', -1, 64)\<close>: the shortest decimal that reads back as \<open>v\<close>, the nearest
  to \<open>v\<close> among those. With \<open>n\<close> significant digits only the two neighbours of \<open>v\<close> can qualify.
\<close>

definition exponent10 :: "rat \<Rightarrow> int option" where
  "exponent10 q = find (\<lambda>e. pow10 e \<le> q) (map (\<lambda>k. 308 - int k) [0..<633])"

definition neighbours :: "rat \<Rightarrow> int \<Rightarrow> rat list" where
  "neighbours q e =
     (let u = pow10 e; d = \<lfloor>q / u\<rfloor>; lo = of_int d * u; hi = of_int (d + 1) * u
      in if q - lo < hi - q \<or> (q - lo = hi - q \<and> even d) then [lo, hi] else [hi, lo])"

definition shortest_positive :: "rat \<Rightarrow> rat" where
  "shortest_positive q = (case exponent10 q of
     None \<Rightarrow> q
   | Some x \<Rightarrow>
       (case find (\<lambda>r. f64 r = q) (concat (map (\<lambda>n. neighbours q (x - int n)) [0..<17])) of
          None \<Rightarrow> q | Some r \<Rightarrow> r))"

definition shortest :: "rat \<Rightarrow> rat" where
  "shortest v = (if v = 0 then 0 else sgn v * shortest_positive \<bar>v\<bar>)"

lemma shortest_positive_reads_back: "f64 q = q \<Longrightarrow> f64 (shortest_positive q) = q"
  by (auto simp: shortest_positive_def split: option.splits dest: find_Some_mem)

section \<open>Terms\<close>

datatype exact_error =
    CalcError calc_error
  | MoneyError money_error
  | RateError tariff_error
  | OverNumeric

record eterm =
  tm_value :: rat
  tm_parse :: "calc_error option"
  tm_rate :: "tariff_error option"

definition later :: "'e option \<Rightarrow> 'e option \<Rightarrow> 'e option" where
  "later a b = (case b of None \<Rightarrow> a | Some e \<Rightarrow> Some e)"

definition exact_number :: "jvalue option \<Rightarrow> rat option" where
  "exact_number v = (case v of
     Some (JNumber s) \<Rightarrow> parse_decimal s
   | Some (JFloat r) \<Rightarrow> Some (shortest r)
   | Some (JInt i) \<Rightarrow> Some (of_int i)
   | _ \<Rightarrow> None)"

definition tm_n :: "payload \<Rightarrow> string \<Rightarrow> eterm" where
  "tm_n p key = (case exact_number (map_of p key) of
     Some r \<Rightarrow> \<lparr>tm_value = r, tm_parse = None, tm_rate = None\<rparr>
   | None \<Rightarrow> \<lparr>tm_value = 0, tm_parse = Some (NotNumber key), tm_rate = None\<rparr>)"

definition tm_of_rate :: "card \<Rightarrow> string \<Rightarrow> eterm" where
  "tm_of_rate rates code = (case card_rat rates code of
     Inr r \<Rightarrow> \<lparr>tm_value = r, tm_parse = None, tm_rate = None\<rparr>
   | Inl e \<Rightarrow> \<lparr>tm_value = 0, tm_parse = None, tm_rate = Some e\<rparr>)"

definition tm_mul :: "eterm \<Rightarrow> eterm \<Rightarrow> eterm" where
  "tm_mul a b = \<lparr>tm_value = tm_value a * tm_value b, tm_parse = later (tm_parse a) (tm_parse b),
     tm_rate = later (tm_rate a) (tm_rate b)\<rparr>"

definition tm_add :: "eterm \<Rightarrow> eterm \<Rightarrow> eterm" where
  "tm_add a b = \<lparr>tm_value = tm_value a + tm_value b, tm_parse = later (tm_parse a) (tm_parse b),
     tm_rate = later (tm_rate a) (tm_rate b)\<rparr>"

definition payload_text :: "payload \<Rightarrow> string \<Rightarrow> string" where
  "payload_text p key = (case map_of p key of Some (JString s) \<Rightarrow> s | _ \<Rightarrow> [])"

definition hourly_code :: "string \<Rightarrow> string" where
  "hourly_code audience = (if audience = ''kolledj'' then teacher_hour_kolledj else teacher_hour_vuz)"

definition document_code :: "payload \<Rightarrow> string" where
  "document_code p =
     ood_rpd_code (payload_text p ''doc_type'') (payload_text p ''level'') (payload_text p ''activity_type'')"

definition internship_term :: "card \<Rightarrow> payload \<Rightarrow> eterm" where
  "internship_term rates p =
     tm_mul (tm_add (tm_mul (tm_n p ''student_load_hours_per_month'') (tm_of_rate rates internship_student_hour))
                    (tm_mul (tm_n p ''mentor_load_hours_per_month'') (tm_of_rate rates internship_mentor_hour)))
            (tm_n p ''duration_months'')"

fun exact_term :: "card \<Rightarrow> category \<Rightarrow> string \<Rightarrow> payload \<Rightarrow> eterm" where
  "exact_term rates Teachers audience p =
     tm_mul (tm_n p ''academic_hours'') (tm_of_rate rates (hourly_code audience))"
| "exact_term rates Internship audience p = internship_term rates p"
| "exact_term rates EmploymentPractice audience p = internship_term rates p"
| "exact_term rates OodRpd audience p = tm_of_rate rates (document_code p)"
| "exact_term rates TopIT audience p = tm_n p (top_it_amount_key p)"
| "exact_term rates MincDecision audience p = tm_n p ''amount_manual''"
| "exact_term rates ItClubs audience p =
     tm_add (tm_mul (tm_n p ''academic_hours'') (tm_of_rate rates school_program_hour))
            (tm_mul (tm_n p ''developed_programs_count'') (tm_of_rate rates school_program_development))"
| "exact_term rates TeacherTraining audience p =
     tm_add (tm_mul (tm_n p ''developed_programs_count'') (tm_of_rate rates teacher_training_development))
            (tm_mul (tm_mul (tm_n p ''academic_hours_per_teacher'') (tm_n p ''trained_teachers_count''))
                    (tm_of_rate rates teacher_training_hour))"
| "exact_term rates EduContent audience p =
     tm_add (tm_mul (tm_n p ''student_platform_months'') (tm_of_rate rates platform_student_month))
            (tm_mul (tm_n p ''teacher_platform_months'') (tm_of_rate rates platform_teacher_month))"

section \<open>The stored amount\<close>

definition numeric_limit :: int where "numeric_limit = 9999999999999999"

definition calculate_amount_with ::
  "card \<Rightarrow> string \<Rightarrow> string \<Rightarrow> payload \<Rightarrow> exact_error + amount" where
  "calculate_amount_with rates code audience p =
     rbind (lift_error CalcError (get_calculator code)) (\<lambda>c.
     rbind (lift_error CalcError (calculate c audience p)) (\<lambda>_.
     let t = exact_term rates c audience p in
     (case tm_parse t of Some e \<Rightarrow> Inl (CalcError e) | None \<Rightarrow>
     (case tm_rate t of Some e \<Rightarrow> Inl (RateError e) | None \<Rightarrow>
     rbind (lift_error MoneyError (from_rat (tm_value t))) (\<lambda>amount.
       if amount > numeric_limit then Inl OverNumeric else Inr amount)))))"

definition calculate_amount :: "string \<Rightarrow> string \<Rightarrow> payload \<Rightarrow> exact_error + amount" where
  "calculate_amount code audience p = calculate_amount_with default_card code audience p"

lemma later_None [simp]: "later a b = None \<longleftrightarrow> a = None \<and> b = None"
  by (auto simp: later_def split: option.splits)

text \<open>A term free of errors has the value of its formula.\<close>

definition clean :: "eterm \<Rightarrow> rat \<Rightarrow> bool" where
  "clean t v = (tm_parse t = None \<and> tm_rate t = None \<and> tm_value t = v)"

lemma clean_simps:
  "clean (tm_n p k) v \<longleftrightarrow> exact_number (map_of p k) = Some v"
  "clean (tm_of_rate rates c) v \<longleftrightarrow> card_rat rates c = Inr v"
  "clean (tm_mul a b) v \<longleftrightarrow> (\<exists>x y. clean a x \<and> clean b y \<and> v = x * y)"
  "clean (tm_add a b) v \<longleftrightarrow> (\<exists>x y. clean a x \<and> clean b y \<and> v = x + y)"
  by (auto simp: clean_def tm_n_def tm_of_rate_def tm_mul_def tm_add_def
      split: option.splits sum.splits)

lemma calculate_amount_with_Inr:
  "calculate_amount_with rates code audience p = Inr a \<longleftrightarrow>
     (\<exists>c x v. get_calculator code = Inr c \<and> calculate c audience p = Inr x
        \<and> clean (exact_term rates c audience p) v \<and> from_rat v = Inr a \<and> a \<le> numeric_limit)"
  unfolding calculate_amount_with_def clean_def Let_def result_simps not_less by blast

end
