(* ===== verification/Breakdown.thy ===== *)
theory Breakdown
  imports Exact
begin

text \<open>
  \<open>calculators/breakdown.go\<close>: the sum of an entry as an expression over its figures and rates, so
  that an export can write it as a spreadsheet formula. The builders thread the list of inputs
  and the first error, in the order the Go closures run. The properties tie the expression to
  the stored amount and the formula text to the expression.
\<close>

section \<open>Expressions\<close>

record breakdown_input =
  bi_key :: string
  bi_rate_code :: string
  bi_value :: rat

definition is_rate :: "breakdown_input \<Rightarrow> bool" where
  "is_rate i = (bi_rate_code i \<noteq> [])"

datatype node = Leaf nat | Sum "node list" | Product "node list"

record breakdown =
  b_inputs :: "breakdown_input list"
  b_root :: node
  b_amount :: amount

section \<open>Building\<close>

record build_state =
  bs_inputs :: "breakdown_input list"
  bs_error :: "exact_error option"

type_synonym 'a builder = "build_state \<Rightarrow> 'a \<times> build_state"

definition first_error :: "exact_error option \<Rightarrow> exact_error \<Rightarrow> exact_error option" where
  "first_error old e = (case old of None \<Rightarrow> Some e | Some f \<Rightarrow> Some f)"

text \<open>
  \<open>ratValue\<close>. A string can only stand here when \<open>CalculateAmountWith\<close> has already refused the
  payload; it is read as a decimal numeral.
\<close>

definition rat_value :: "jvalue option \<Rightarrow> rat option" where
  "rat_value v = (case v of
     Some (JNumber s) \<Rightarrow> parse_decimal s
   | Some (JFloat r) \<Rightarrow> Some (shortest r)
   | Some (JInt i) \<Rightarrow> Some (of_int i)
   | Some (JString s) \<Rightarrow> parse_decimal (trim_space s)
   | _ \<Rightarrow> None)"

definition add_input :: "breakdown_input \<Rightarrow> exact_error option \<Rightarrow> node builder" where
  "add_input i e s =
     (Leaf (length (bs_inputs s)), \<lparr>bs_inputs = bs_inputs s @ [i], bs_error = e\<rparr>)"

definition build_field :: "payload \<Rightarrow> string \<Rightarrow> node builder" where
  "build_field p key s = (case rat_value (map_of p key) of
     Some r \<Rightarrow> add_input \<lparr>bi_key = key, bi_rate_code = [], bi_value = r\<rparr> (bs_error s) s
   | None \<Rightarrow> add_input \<lparr>bi_key = key, bi_rate_code = [], bi_value = 0\<rparr>
               (first_error (bs_error s) (CalcError (NotNumber key))) s)"

text \<open>A missing rate is recorded with a nil value; the breakdown is then refused (0 stands for nil).\<close>

definition build_rate :: "card \<Rightarrow> string \<Rightarrow> node builder" where
  "build_rate rates code s = (case card_rat rates code of
     Inr r \<Rightarrow> add_input \<lparr>bi_key = [], bi_rate_code = code, bi_value = r\<rparr> (bs_error s) s
   | Inl e \<Rightarrow> add_input \<lparr>bi_key = [], bi_rate_code = code, bi_value = 0\<rparr>
               (first_error (bs_error s) (RateError e)) s)"

fun build_all :: "node builder list \<Rightarrow> node list builder" where
  "build_all [] s = ([], s)"
| "build_all (b # bs) s = (let (x, s1) = b s; (xs, s2) = build_all bs s1 in (x # xs, s2))"

definition build_sum :: "node builder list \<Rightarrow> node builder" where
  "build_sum bs s = (let (xs, t) = build_all bs s in (Sum xs, t))"

definition build_product :: "node builder list \<Rightarrow> node builder" where
  "build_product bs s = (let (xs, t) = build_all bs s in (Product xs, t))"

definition internship_root :: "card \<Rightarrow> payload \<Rightarrow> node builder" where
  "internship_root rates p =
     build_product [build_sum [
         build_product [build_field p ''student_load_hours_per_month'', build_rate rates internship_student_hour],
         build_product [build_field p ''mentor_load_hours_per_month'', build_rate rates internship_mentor_hour]],
       build_field p ''duration_months'']"

fun build_root :: "card \<Rightarrow> category \<Rightarrow> string \<Rightarrow> payload \<Rightarrow> node builder" where
  "build_root rates Teachers audience p =
     build_product [build_field p ''academic_hours'', build_rate rates (hourly_code audience)]"
| "build_root rates Internship audience p = internship_root rates p"
| "build_root rates EmploymentPractice audience p = internship_root rates p"
| "build_root rates OodRpd audience p = build_rate rates (document_code p)"
| "build_root rates TopIT audience p = build_field p (top_it_amount_key p)"
| "build_root rates MincDecision audience p = build_field p ''amount_manual''"
| "build_root rates ItClubs audience p =
     build_sum [
       build_product [build_field p ''academic_hours'', build_rate rates school_program_hour],
       build_product [build_field p ''developed_programs_count'', build_rate rates school_program_development]]"
| "build_root rates TeacherTraining audience p =
     build_sum [
       build_product [build_field p ''developed_programs_count'', build_rate rates teacher_training_development],
       build_product [build_field p ''academic_hours_per_teacher'', build_field p ''trained_teachers_count'',
         build_rate rates teacher_training_hour]]"
| "build_root rates EduContent audience p =
     build_sum [
       build_product [build_field p ''student_platform_months'', build_rate rates platform_student_month],
       build_product [build_field p ''teacher_platform_months'', build_rate rates platform_teacher_month]]"

definition breakdown_with :: "card \<Rightarrow> string \<Rightarrow> string \<Rightarrow> payload \<Rightarrow> exact_error + breakdown" where
  "breakdown_with rates code audience p =
     rbind (calculate_amount_with rates code audience p) (\<lambda>amount.
     rbind (lift_error CalcError (get_calculator code)) (\<lambda>c.
     let (root, s) = build_root rates c audience p \<lparr>bs_inputs = [], bs_error = None\<rparr> in
     (case bs_error s of Some e \<Rightarrow> Inl e
      | None \<Rightarrow> Inr \<lparr>b_inputs = bs_inputs s, b_root = root, b_amount = amount\<rparr>)))"

section \<open>Evaluating and printing\<close>

fun eval_node :: "breakdown_input list \<Rightarrow> node \<Rightarrow> rat" where
  "eval_node is (Leaf n) = bi_value (is ! n)"
| "eval_node is (Sum ns) = sum_list (map (eval_node is) ns)"
| "eval_node is (Product ns) = prod_list (map (eval_node is) ns)"

definition eval_breakdown :: "breakdown \<Rightarrow> rat" where
  "eval_breakdown b = eval_node (b_inputs b) (b_root b)"

fun render :: "(nat \<Rightarrow> string) \<Rightarrow> node \<Rightarrow> bool \<Rightarrow> string" where
  "render cell (Leaf n) nested = cell n"
| "render cell (Sum ns) nested =
     (let text = join ''+'' (map (\<lambda>k. render cell k False) ns)
      in if nested then ''('' @ text @ '')'' else text)"
| "render cell (Product ns) nested = join ''*'' (map (\<lambda>k. render cell k True) ns)"

definition excel :: "(nat \<Rightarrow> string) \<Rightarrow> breakdown \<Rightarrow> string" where
  "excel cell b = ''ROUND('' @ render cell (b_root b) False @ '',2)''"

section \<open>The expression computes the formula\<close>

text \<open>No operator is without operands, and every leaf is an input.\<close>

fun proper :: "nat \<Rightarrow> node \<Rightarrow> bool" where
  "proper m (Leaf n) = (n < m)"
| "proper m (Sum ns) = (ns \<noteq> [] \<and> list_all (proper m) ns)"
| "proper m (Product ns) = (ns \<noteq> [] \<and> list_all (proper m) ns)"

text \<open>
  What a builder run guarantees: it only appends inputs, and when it ends without an error its
  node reads inputs that exist and has, over any longer list of inputs, the value given.
\<close>

definition builds :: "node builder \<Rightarrow> rat \<Rightarrow> bool" where
  "builds b v = (\<forall>s n t. b s = (n, t) \<and> bs_error t = None \<longrightarrow>
     bs_error s = None \<and> (\<exists>extra. bs_inputs t = bs_inputs s @ extra)
     \<and> (\<forall>ys. eval_node (bs_inputs t @ ys) n = v \<and> proper (length (bs_inputs t @ ys)) n))"

lemma add_input_builds:
  "add_input i e s = (n, t) \<Longrightarrow> bs_inputs t = bs_inputs s @ [i] \<and> bs_error t = e
     \<and> eval_node (bs_inputs t @ ys) n = bi_value i \<and> proper (length (bs_inputs t @ ys)) n"
  by (auto simp: add_input_def nth_append)

lemma builds_field: "exact_number (map_of p k) = Some v \<Longrightarrow> builds (build_field p k) v"
proof -
  assume "exact_number (map_of p k) = Some v"
  then have "rat_value (map_of p k) = Some v"
    by (auto simp: exact_number_def rat_value_def split: option.splits jvalue.splits)
  then show ?thesis
    unfolding builds_def build_field_def by (auto dest: add_input_builds)
qed

lemma builds_rate: "card_rat rates c = Inr v \<Longrightarrow> builds (build_rate rates c) v"
  unfolding builds_def build_rate_def by (auto dest: add_input_builds)

definition builds_all :: "node builder list \<Rightarrow> rat list \<Rightarrow> bool" where
  "builds_all bs vs = (\<forall>s ns t. build_all bs s = (ns, t) \<and> bs_error t = None \<longrightarrow>
     bs_error s = None \<and> (\<exists>extra. bs_inputs t = bs_inputs s @ extra)
     \<and> (\<forall>ys. map (eval_node (bs_inputs t @ ys)) ns = vs
          \<and> list_all (proper (length (bs_inputs t @ ys))) ns))"

lemma builds_all_Nil: "builds_all [] []"
  by (simp add: builds_all_def)

lemma builds_all_Cons:
  assumes "builds b v" "builds_all bs vs"
  shows "builds_all (b # bs) (v # vs)"
  unfolding builds_all_def
proof (intro allI impI)
  fix s ns t
  assume run: "build_all (b # bs) s = (ns, t) \<and> bs_error t = None"
  obtain n u where u: "b s = (n, u)" by fastforce
  obtain ms w where w: "build_all bs u = (ms, w)" by fastforce
  have t: "ns = n # ms" "w = t" "bs_error t = None" using run u w by auto
  then have r: "bs_error u = None" "\<exists>e. bs_inputs t = bs_inputs u @ e"
      "\<forall>ys. map (eval_node (bs_inputs t @ ys)) ms = vs \<and> list_all (proper (length (bs_inputs t @ ys))) ms"
    using assms(2) w unfolding builds_all_def by blast+
  then have l: "bs_error s = None" "\<exists>e. bs_inputs u = bs_inputs s @ e"
      "\<forall>ys. eval_node (bs_inputs u @ ys) n = v \<and> proper (length (bs_inputs u @ ys)) n"
    using assms(1) u unfolding builds_def by blast+
  show "bs_error s = None \<and> (\<exists>e. bs_inputs t = bs_inputs s @ e)
      \<and> (\<forall>ys. map (eval_node (bs_inputs t @ ys)) ns = v # vs
          \<and> list_all (proper (length (bs_inputs t @ ys))) ns)"
  proof -
    obtain e where e: "bs_inputs t = bs_inputs u @ e" using r(2) by blast
    have "\<forall>ys. eval_node (bs_inputs t @ ys) n = v \<and> proper (length (bs_inputs t @ ys)) n"
      using l(3) unfolding e append_assoc by blast
    then show ?thesis using r l by (auto simp: t(1))
  qed
qed

lemma builds_all_nonempty:
  "builds_all bs vs \<Longrightarrow> vs \<noteq> [] \<Longrightarrow> build_all bs s = (ns, t) \<Longrightarrow> bs_error t = None \<Longrightarrow> ns \<noteq> []"
  unfolding builds_all_def by (metis list.map_disc_iff)

lemma builds_sum: "builds_all bs vs \<Longrightarrow> vs \<noteq> [] \<Longrightarrow> builds (build_sum bs) (sum_list vs)"
  using builds_all_nonempty [of bs vs]
  unfolding builds_def builds_all_def build_sum_def by (fastforce split: prod.splits)

lemma builds_product: "builds_all bs vs \<Longrightarrow> vs \<noteq> [] \<Longrightarrow> builds (build_product bs) (prod_list vs)"
  using builds_all_nonempty [of bs vs]
  unfolding builds_def builds_all_def build_product_def by (fastforce split: prod.splits)

lemmas build_rules = builds_field builds_rate builds_sum builds_product builds_all_Cons builds_all_Nil list.distinct(2)

lemma builds_cong: "builds b v \<Longrightarrow> v = w \<Longrightarrow> builds b w"
  by simp

lemma build_root_term:
  assumes "clean (exact_term rates c audience p) v"
  shows "builds (build_root rates c audience p) v"
  using assms
  by (cases c)
     (auto simp: clean_simps internship_term_def internship_root_def,
       (rule builds_cong, (rule build_rules | assumption)+, simp add: algebra_simps)+)

lemma breakdown_sound:
  assumes "breakdown_with rates code audience p = Inr b"
  shows "calculate_amount_with rates code audience p = Inr (b_amount b)
    \<and> from_rat (eval_breakdown b) = Inr (b_amount b) \<and> proper (length (b_inputs b)) (b_root b)"
proof -
  obtain c a where c: "calculate_amount_with rates code audience p = Inr a" "get_calculator code = Inr c"
    and m: "(let (root, s) = build_root rates c audience p \<lparr>bs_inputs = [], bs_error = None\<rparr> in
     (case bs_error s of Some e \<Rightarrow> Inl e
      | None \<Rightarrow> Inr \<lparr>b_inputs = bs_inputs s, b_root = root, b_amount = a\<rparr>)) = Inr b"
    using assms unfolding breakdown_with_def result_simps by blast
  obtain root s where st: "build_root rates c audience p \<lparr>bs_inputs = [], bs_error = None\<rparr> = (root, s)"
    by fastforce
  have run: "calculate_amount_with rates code audience p = Inr (b_amount b)" "get_calculator code = Inr c"
    "build_root rates c audience p \<lparr>bs_inputs = [], bs_error = None\<rparr> = (b_root b, s)"
    "bs_error s = None" "b_inputs b = bs_inputs s"
    using c m st by (auto split: option.splits)
  obtain v where v: "clean (exact_term rates c audience p) v" "from_rat v = Inr (b_amount b)"
    using run(1,2) by (auto simp: calculate_amount_with_Inr)
  have "eval_node (bs_inputs s @ []) (b_root b) = v \<and> proper (length (bs_inputs s @ [])) (b_root b)"
    using build_root_term [OF v(1)] run(3,4) unfolding builds_def by blast
  then show ?thesis using run(1,5) v(2) by (simp add: eval_breakdown_def)
qed

text \<open>
  C3: when a breakdown is produced, its expression, computed exactly over its own inputs, rounds to
  the amount that is stored for the entry.
\<close>

theorem breakdown_explains_amount:
  assumes "breakdown_with rates code audience p = Inr b"
  shows "calculate_amount_with rates code audience p = Inr (b_amount b)
    \<and> from_rat (eval_breakdown b) = Inr (b_amount b)"
  using breakdown_sound [OF assms] by blast

section \<open>The formula text\<close>

text \<open>
  The arithmetic formulas of a spreadsheet over cells whose values are given: sums of products
  of atoms, an atom being a cell or a sum in brackets.
\<close>

datatype level = AtomLevel | ProductLevel | SumLevel

inductive reads :: "(string \<Rightarrow> rat option) \<Rightarrow> level \<Rightarrow> string \<Rightarrow> rat \<Rightarrow> bool" for env where
  reads_cell: "env a = Some v \<Longrightarrow> reads env AtomLevel a v"
| reads_brackets: "reads env SumLevel s v \<Longrightarrow> reads env AtomLevel (''('' @ s @ '')'') v"
| reads_atom: "reads env AtomLevel s v \<Longrightarrow> reads env ProductLevel s v"
| reads_times: "reads env ProductLevel s v \<Longrightarrow> reads env AtomLevel t w \<Longrightarrow>
    reads env ProductLevel (s @ ''*'' @ t) (v * w)"
| reads_product: "reads env ProductLevel s v \<Longrightarrow> reads env SumLevel s v"
| reads_plus: "reads env SumLevel s v \<Longrightarrow> reads env ProductLevel t w \<Longrightarrow>
    reads env SumLevel (s @ ''+'' @ t) (v + w)"

lemma reads_times_product:
  assumes "reads env ProductLevel t w" "reads env ProductLevel s v"
  shows "reads env ProductLevel (s @ ''*'' @ t) (v * w)"
proof -
  have "l = ProductLevel \<Longrightarrow> reads env ProductLevel (s @ ''*'' @ t) (v * w)" if "reads env l t w" for l
    using that
  proof induction
    case (reads_atom t w)
    then show ?case using assms(2) reads_times by blast
  next
    case (reads_times t w u x)
    then show ?case using reads.reads_times [of env "s @ ''*'' @ t" "v * w" u x] by (simp add: mult.assoc)
  qed simp_all
  then show ?thesis using assms(1) by blast
qed

lemma reads_plus_sum:
  assumes "reads env SumLevel t w" "reads env SumLevel s v"
  shows "reads env SumLevel (s @ ''+'' @ t) (v + w)"
proof -
  have "l = SumLevel \<Longrightarrow> reads env SumLevel (s @ ''+'' @ t) (v + w)" if "reads env l t w" for l
    using that
  proof induction
    case (reads_product t w)
    then show ?case using assms(2) reads_plus by blast
  next
    case (reads_plus t w u x)
    then show ?case using reads.reads_plus [of env "s @ ''+'' @ t" "v + w" u x] by (simp add: add.assoc)
  qed simp_all
  then show ?thesis using assms(1) by blast
qed

lemma reads_join_plus:
  "ks \<noteq> [] \<Longrightarrow> \<forall>k \<in> set ks. reads env SumLevel (f k) (g k) \<Longrightarrow>
    reads env SumLevel (join ''+'' (map f ks)) (sum_list (map g ks))"
proof (induction ks)
  case (Cons k ks)
  then show ?case
  proof (cases ks)
    case (Cons l ls)
    then show ?thesis using Cons.IH Cons.prems reads_plus_sum by simp
  qed simp
qed simp

lemma reads_join_times:
  "ks \<noteq> [] \<Longrightarrow> \<forall>k \<in> set ks. reads env ProductLevel (f k) (g k) \<Longrightarrow>
    reads env ProductLevel (join ''*'' (map f ks)) (prod_list (map g ks))"
proof (induction ks)
  case (Cons k ks)
  then show ?case
  proof (cases ks)
    case (Cons l ls)
    then show ?thesis using Cons.IH Cons.prems reads_times_product by simp
  qed simp
qed simp

lemma render_reads:
  assumes "\<And>i. i < length inputs \<Longrightarrow> env (cell i) = Some (bi_value (inputs ! i))"
  shows "proper (length inputs) n \<Longrightarrow>
    reads env ProductLevel (render cell n True) (eval_node inputs n) \<and>
    reads env SumLevel (render cell n False) (eval_node inputs n)"
proof (induction n)
  case (Leaf i)
  then show ?case using assms by (simp add: reads_cell reads_atom reads_product)
next
  case (Sum ns)
  then have "reads env SumLevel (render cell (Sum ns) False) (eval_node inputs (Sum ns))"
    using reads_join_plus [of ns env "\<lambda>k. render cell k False" "eval_node inputs"]
    by (simp add: Let_def list_all_iff)
  then show ?case
    using reads_atom [OF reads_brackets] by (simp add: Let_def)
next
  case (Product ns)
  then have "reads env ProductLevel (render cell (Product ns) True) (eval_node inputs (Product ns))"
    using reads_join_times [of ns env "\<lambda>k. render cell k True" "eval_node inputs"]
    by (simp add: list_all_iff)
  then show ?case by (simp add: reads_product)
qed

text \<open>
  C4: the text exported for a breakdown is \<open>ROUND(...,2)\<close> around a formula that a spreadsheet
  reads, with the usual precedence of the operators, as the exact sum: whenever every input
  stands in the cell the formula names, the value under the rounding is the one whose rounding
  to kopecks is the stored amount.
\<close>

theorem excel_text_computes_amount:
  assumes "breakdown_with rates code audience p = Inr b"
    and "\<And>i. i < length (b_inputs b) \<Longrightarrow> env (cell i) = Some (bi_value (b_inputs b ! i))"
  shows "\<exists>formula value. excel cell b = ''ROUND('' @ formula @ '',2)'' \<and> reads env SumLevel formula value
    \<and> from_rat value = Inr (b_amount b)"
proof -
  have e: "from_rat (eval_breakdown b) = Inr (b_amount b)"
    using breakdown_sound [OF assms(1)] by blast
  have "proper (length (b_inputs b)) (b_root b)" using breakdown_sound [OF assms(1)] by blast
  from render_reads [OF assms(2) this] e show ?thesis
    unfolding excel_def eval_breakdown_def by blast
qed

definition excel_cell :: "nat \<Rightarrow> string" where
  "excel_cell i = ''K'' @ show_nat (i + 1)"

definition club_entry :: payload where
  "club_entry = [(''academic_hours'', JNumber ''8.5''), (''developed_programs_count'', JNumber ''1'')]"

definition club_breakdown :: breakdown where
  "club_breakdown = \<lparr>b_inputs =
       [\<lparr>bi_key = ''academic_hours'', bi_rate_code = [], bi_value = 17 / 2\<rparr>,
        \<lparr>bi_key = [], bi_rate_code = school_program_hour, bi_value = 4260\<rparr>,
        \<lparr>bi_key = ''developed_programs_count'', bi_rate_code = [], bi_value = 1\<rparr>,
        \<lparr>bi_key = [], bi_rate_code = school_program_development, bi_value = 530890\<rparr>],
      b_root = Sum [Product [Leaf 0, Leaf 1], Product [Leaf 2, Leaf 3]], b_amount = 56710000\<rparr>"

lemma club_entry_breakdown: "breakdown_with default_card ''it_clubs'' ''school'' club_entry = Inr club_breakdown"
  by code_simp

theorem breakdown_explains_amount_witness:
  "calculate_amount_with default_card ''it_clubs'' ''school'' club_entry = Inr 56710000"
  using breakdown_explains_amount [OF club_entry_breakdown] by (simp add: club_breakdown_def)

definition club_cells :: "string \<Rightarrow> rat option" where
  "club_cells = map_of [(''K1'', 17 / 2), (''K2'', 4260), (''K3'', 1), (''K4'', 530890)]"

lemma club_cells_hold:
  "list_all (\<lambda>i. club_cells (excel_cell i) = Some (bi_value (b_inputs club_breakdown ! i))) [0..<4]"
  by code_simp

theorem excel_text_computes_amount_witness:
  "\<exists>formula value. excel excel_cell club_breakdown = ''ROUND('' @ formula @ '',2)''
    \<and> reads club_cells SumLevel formula value \<and> from_rat value = Inr 56710000"
proof -
  have n: "length (b_inputs club_breakdown) = 4" "b_amount club_breakdown = 56710000"
    by (simp_all add: club_breakdown_def)
  have "\<And>i. i < length (b_inputs club_breakdown) \<Longrightarrow>
      club_cells (excel_cell i) = Some (bi_value (b_inputs club_breakdown ! i))"
    using club_cells_hold by (simp add: list_all_iff n)
  from excel_text_computes_amount [OF club_entry_breakdown this] show ?thesis unfolding n .
qed

section \<open>The Methodology\<close>

text \<open>The formulas of the Methodology over given rates and figures.\<close>

fun methodology :: "(string \<Rightarrow> rat) \<Rightarrow> (string \<Rightarrow> rat) \<Rightarrow> category \<Rightarrow> string \<Rightarrow> payload \<Rightarrow> rat" where
  "methodology R F Teachers audience p = F ''academic_hours'' * R (hourly_code audience)"
| "methodology R F OodRpd audience p = R (document_code p)"
| "methodology R F Internship audience p =
     (F ''student_load_hours_per_month'' * R internship_student_hour
      + F ''mentor_load_hours_per_month'' * R internship_mentor_hour) * F ''duration_months''"
| "methodology R F EmploymentPractice audience p =
     (F ''student_load_hours_per_month'' * R internship_student_hour
      + F ''mentor_load_hours_per_month'' * R internship_mentor_hour) * F ''duration_months''"
| "methodology R F TopIT audience p = F (top_it_amount_key p)"
| "methodology R F MincDecision audience p = F ''amount_manual''"
| "methodology R F ItClubs audience p =
     F ''academic_hours'' * R school_program_hour + F ''developed_programs_count'' * R school_program_development"
| "methodology R F TeacherTraining audience p =
     F ''developed_programs_count'' * R teacher_training_development
     + F ''academic_hours_per_teacher'' * F ''trained_teachers_count'' * R teacher_training_hour"
| "methodology R F EduContent audience p =
     F ''student_platform_months'' * R platform_student_month
     + F ''teacher_platform_months'' * R platform_teacher_month"

definition figure :: "payload \<Rightarrow> string \<Rightarrow> rat" where
  "figure p k = (case exact_number (map_of p k) of Some v \<Rightarrow> v | None \<Rightarrow> 0)"

definition rate_value :: "card \<Rightarrow> string \<Rightarrow> rat" where
  "rate_value rates code = (case card_rat rates code of Inr v \<Rightarrow> v | Inl _ \<Rightarrow> 0)"

lemma clean_methodology:
  "clean (exact_term rates c audience p) v \<Longrightarrow> v = methodology (rate_value rates) (figure p) c audience p"
  by (cases c) (auto simp: clean_simps internship_term_def figure_def rate_value_def)

text \<open>
  C2: the amount stored for an entry is the sum of the Methodology, computed without any rounding
  from the decimal texts of the payload and the rates of the card, rounded once to the nearest
  kopeck (halves up), and it fits NUMERIC(16,2).
\<close>

theorem stored_amount_formula:
  assumes "calculate_amount_with rates code audience p = Inr a"
  shows "\<exists>c. get_calculator code = Inr c
    \<and> a = \<lfloor>100 * methodology (rate_value rates) (figure p) c audience p + 1 / 2\<rfloor>
    \<and> 0 \<le> a \<and> a \<le> numeric_limit"
proof -
  obtain c v where c: "get_calculator code = Inr c" "clean (exact_term rates c audience p) v"
    "from_rat v = Inr a" "a \<le> numeric_limit"
    using assms by (auto simp: calculate_amount_with_Inr)
  then show ?thesis using clean_methodology [OF c(2)] by (auto simp: from_rat_iff mult.commute)
qed

theorem stored_amount_formula_witness:
  "\<exists>c. get_calculator ''it_clubs'' = Inr c
    \<and> 56710000 = \<lfloor>100 * methodology (rate_value default_card) (figure club_entry) c ''school'' club_entry + 1 / 2\<rfloor>"
proof -
  have "calculate_amount_with default_card ''it_clubs'' ''school'' club_entry = Inr 56710000"
    using breakdown_sound [OF club_entry_breakdown] by (simp add: club_breakdown_def)
  from stored_amount_formula [OF this] show ?thesis by blast
qed

end
