(* ===== verification/Checks.thy ===== *)
theory Checks
  imports Categories
begin

text \<open>
  The checks a category runs on its payload after the common field validation: \<open>Validate\<close> of
  \<open>teachers.go\<close>, \<open>internship.go\<close>, \<open>order_activities.go\<close> and \<open>manual.go\<close>, the semester matrix
  of \<open>modules/teaching/domain/semester.go\<close>, and the guarantees they give to accepted entries.
\<close>

section \<open>The semester matrix\<close>

definition semester_ranges :: "(string \<times> int \<times> int) list" where
  "semester_ranges =
   [(''bachelor'', 1, 8), (''master'', 9, 12), (''specialist'', 1, 13), (''spo'', 1, 10)]"

definition validate_semester :: "string \<Rightarrow> int \<Rightarrow> calc_error + unit" where
  "validate_semester level semester = (case map_of semester_ranges level of
     None \<Rightarrow> Inl (BadOption ''education_level'')
   | Some (lo, hi) \<Rightarrow>
       if semester < lo \<or> semester > hi then Inl (Rejected ''semester'') else Inr ())"

section \<open>Parts of the checks\<close>

text \<open>The raw text of a field, as the Go type assertion \<open>payload[key].(string)\<close> reads it.\<close>

definition raw_text :: "payload \<Rightarrow> string \<Rightarrow> string option" where
  "raw_text p key = (case map_of p key of Some (JString s) \<Rightarrow> Some s | _ \<Rightarrow> None)"

definition filled :: "payload \<Rightarrow> string \<Rightarrow> string option" where
  "filled p key = (case raw_text p key of Some s \<Rightarrow> if trim_space s = [] then None else Some s | None \<Rightarrow> None)"

definition ordered_dates :: "string \<Rightarrow> string \<Rightarrow> bool" where
  "ordered_dates s t = (case (parse_date s, parse_date t) of
     (Some a, Some b) \<Rightarrow> \<not> date_less b a | _ \<Rightarrow> False)"

definition validate_teachers :: "payload \<Rightarrow> calc_error + payload" where
  "validate_teachers p =
     rbind (str p ''education_level'') (\<lambda>level.
     rbind (num p ''semester'') (\<lambda>semester.
     rbind (validate_semester level (trunc semester)) (\<lambda>_.
       (case (filled p ''semester_start'', filled p ''semester_end'') of
          (Some s, Some e) \<Rightarrow> if ordered_dates s e then Inr p else Inl (Rejected ''semester dates'')
        | _ \<Rightarrow> Inr p))))"

definition validate_mentor_appointment :: "payload \<Rightarrow> calc_error + unit" where
  "validate_mentor_appointment p =
     rbind (or_fail (str p ''mentor_assignment_start'') (Rejected ''mentor start'')) (\<lambda>start.
     rbind (or_fail (str p ''mentor_assignment_end'') (Rejected ''mentor end'')) (\<lambda>end.
     if \<not> ordered_dates start end then Inl (Rejected ''mentor period'')
     else if (case filled p ''period_start'' of None \<Rightarrow> False | Some s \<Rightarrow> start > s)
       then Inl (Rejected ''mentor late'')
     else if (case filled p ''period_end'' of None \<Rightarrow> False | Some e \<Rightarrow> end < e)
       then Inl (Rejected ''mentor leaves early'')
     else rbind (or_fail (str p ''mentor_order_number'') (Rejected ''order number'')) (\<lambda>_.
          rbind (or_fail (str p ''mentor_order_date'') (Rejected ''order date'')) (\<lambda>order.
            if ordered_dates order start then Inr () else Inl (Rejected ''order late'')))))"

definition weekly_hours_limit :: "rat \<Rightarrow> rat" where
  "weekly_hours_limit age = (if age < 16 then 24 else if age < 18 then 35 else 40)"

definition validate_working_time_limit :: "rat \<Rightarrow> rat \<Rightarrow> calc_error + unit" where
  "validate_working_time_limit age hours =
     (if age \<noteq> of_int (trunc age) then Inl (Rejected ''age'')
      else if age < 14 then Inl (Rejected ''minor'')
      else if hours \<le> 0 then Inl (Rejected ''hours'')
      else if hours > weekly_hours_limit age then Inl (Rejected ''working time'')
      else Inr ())"

definition validate_employment_practice :: "payload \<Rightarrow> calc_error + payload" where
  "validate_employment_practice p =
     rbind (validate_mentor_appointment p) (\<lambda>_.
     rbind (or_fail (str p ''course'') (Rejected ''course'')) (\<lambda>_.
     rbind (or_fail (str p ''specialty_code'') (Rejected ''specialty'')) (\<lambda>_.
     rbind (or_fail (str p ''period_start'') (Rejected ''start'')) (\<lambda>start.
     rbind (or_fail (str p ''period_end'') (Rejected ''end'')) (\<lambda>end.
     if \<not> ordered_dates start end then Inl (Rejected ''period'')
     else
     rbind (str p ''labor_contract_type'') (\<lambda>contract_type.
     if contract_type \<noteq> ''fixed_term'' then Inl (Rejected ''contract type'')
     else
     rbind (str p ''labor_contract_number'') (\<lambda>_.
     rbind (str p ''labor_contract_date'') (\<lambda>_.
     rbind (str p ''practice_agreement_number'') (\<lambda>_.
     rbind (str p ''practice_agreement_date'') (\<lambda>_.
     rbind (or_fail (num p ''student_age'') (Rejected ''age'')) (\<lambda>age.
     rbind (or_fail (num p ''weekly_hours'') (Rejected ''hours'')) (\<lambda>hours.
     rbind (validate_working_time_limit age hours) (\<lambda>_. Inr p)))))))))))))"

definition validate_internship :: "payload \<Rightarrow> calc_error + payload" where
  "validate_internship p = rbind (validate_mentor_appointment p) (\<lambda>_. Inr p)"

definition validate_top_it :: "payload \<Rightarrow> calc_error + payload" where
  "validate_top_it p =
     (if empty_value (map_of p ''actual_spent_amount_rub'') \<or> empty_value (map_of p ''transferred_amount_rub'')
      then Inr p
      else rbind (non_negative_num p ''actual_spent_amount_rub'') (\<lambda>spent.
           rbind (non_negative_num p ''transferred_amount_rub'') (\<lambda>transferred.
             if spent > transferred then Inl (Rejected ''spent'') else Inr p)))"

definition validate_school_funding :: "payload \<Rightarrow> calc_error + unit" where
  "validate_school_funding p =
     rbind (str p ''budget_funding'') (\<lambda>budget.
     if budget \<noteq> ''absent'' then Inl (Rejected ''budget funding'')
     else rbind (str p ''citizen_funding'') (\<lambda>citizen.
       if citizen \<noteq> ''absent'' then Inl (Rejected ''citizen funding'') else Inr ()))"

text \<open>\<open>FindAllString\<close> of \<open>\d+\<close>: the maximal runs of digits.\<close>

fun digit_runs :: "string \<Rightarrow> string \<Rightarrow> string list" where
  "digit_runs [] cur = (if cur = [] then [] else [cur])"
| "digit_runs (c # s) cur =
     (if is_digit c then digit_runs s (cur @ [c])
      else if cur = [] then digit_runs s [] else cur # digit_runs s [])"

text \<open>
  \<open>fmt.Sprint\<close> of a value: the field validation that comes first has left a text here, so the
  remaining kinds of values (which it refuses) are refused as well.
\<close>

fun sprint :: "jvalue \<Rightarrow> string option" where
  "sprint (JString s) = Some s"
| "sprint (JNumber s) = Some s"
| "sprint (JInt i) = Some (show_int i)"
| "sprint (JBool b) = Some (if b then ''true'' else ''false'')"
| "sprint _ = None"

definition check_class :: "string \<Rightarrow> unit \<Rightarrow> calc_error + unit" where
  "check_class v u =
     (let class = int (nat_of_digits v) in
      if class > max_int64 then Inl (Rejected ''class number'')
      else if class < 5 \<or> class > 11 then Inl (Rejected ''class range'') else Inr ())"

definition validate_school_class_range :: "payload \<Rightarrow> calc_error + unit" where
  "validate_school_class_range p = (case map_of p ''class_range'' of
     None \<Rightarrow> Inr ()
   | Some JNull \<Rightarrow> Inr ()
   | Some v \<Rightarrow> (case sprint v of
         None \<Rightarrow> Inl (NotString ''class_range'')
       | Some raw \<Rightarrow>
           (let text = trim_space raw; found = digit_runs text [] in
            if text = [] then Inr ()
            else if found = [] then Inl (Rejected ''classes'')
            else fold_result check_class found ())))"

definition validate_school_programs :: "payload \<Rightarrow> calc_error + payload" where
  "validate_school_programs p =
     rbind (validate_school_funding p) (\<lambda>_. rbind (validate_school_class_range p) (\<lambda>_. Inr p))"

definition validate_teacher_training :: "payload \<Rightarrow> calc_error + payload" where
  "validate_teacher_training p = rbind (validate_school_funding p) (\<lambda>_. Inr p)"

definition is_hex_digit :: "char \<Rightarrow> bool" where
  "is_hex_digit c = (is_digit c \<or> in_range 97 102 (byte c) \<or> in_range 65 70 (byte c))"

definition sha256_hex :: "string \<Rightarrow> bool" where
  "sha256_hex s = (length s = 64 \<and> list_all is_hex_digit s)"

definition validate_digital_trace :: "payload \<Rightarrow> calc_error + unit" where
  "validate_digital_trace p =
     rbind (or_fail (str p ''digital_trace_period_start'') (Rejected ''trace start'')) (\<lambda>start.
     rbind (or_fail (str p ''digital_trace_period_end'') (Rejected ''trace end'')) (\<lambda>end.
     case parse_date start of None \<Rightarrow> Inl (BadDate ''digital_trace_period_start'')
     | Some from \<Rightarrow>
     (case parse_date end of None \<Rightarrow> Inl (BadDate ''digital_trace_period_end'')
     | Some until \<Rightarrow>
     if date_less until from then Inl (Rejected ''trace period'')
     else
     rbind (or_fail (positive_num p ''digital_trace_participants'') (Rejected ''participants'')) (\<lambda>participants.
     if participants \<noteq> of_int (trunc participants) then Inl (Rejected ''participants whole'')
     else
     rbind (or_fail (str p ''digital_trace_sha256'') (Rejected ''checksum'')) (\<lambda>checksum.
     if sha256_hex checksum then Inr () else Inl (Rejected ''checksum format''))))))"

definition validate_educational_content :: "payload \<Rightarrow> calc_error + payload" where
  "validate_educational_content p =
     rbind (validate_school_funding p) (\<lambda>_. rbind (validate_digital_trace p) (\<lambda>_. Inr p))"

end
