(* ===== verification/Decision.thy ===== *)
theory Decision
  imports Checks
begin

text \<open>
  \<open>manualCalc.Validate\<close> and \<open>evidenceItems\<close> (\<open>calculators/manual.go\<close>): the checks of an event
  run under a decision of the Ministry, with the recogniser of numbers the unit of measure
  must not match, and \<open>ValidatePayload\<close> for each category.
\<close>

section \<open>Texts that are numbers for \<open>big.Rat\<close>\<close>

text \<open>
  \<open>big.Rat.SetString\<close> accepts a signed numeral with an optional radix prefix, single
  underscores between digits, a radix point and an exponent, or a fraction of two integers.
  \<open>scan_nat base frac_ok prev\<close> is the loop of \<open>nat.scan\<close>: it yields whether the separators are
  well placed, the digits read, how many of them stood before the point, and the rest.
\<close>

definition digit_value :: "char \<Rightarrow> nat" where
  "digit_value c =
     (if is_digit c then byte c - 48
      else if in_range 97 122 (byte c) then byte c - 87
      else if in_range 65 90 (byte c) then byte c - 55
      else 99)"

record scanned =
  sc_seps_ok :: bool
  sc_digits :: "nat list"
  sc_point :: "nat option"
  sc_rest :: string

fun scan_nat :: "nat \<Rightarrow> bool \<Rightarrow> char \<Rightarrow> bool \<Rightarrow> nat list \<Rightarrow> nat option \<Rightarrow> string \<Rightarrow> scanned" where
  "scan_nat base frac_ok prev ok ds dp [] =
     \<lparr>sc_seps_ok = ok \<and> prev \<noteq> CHR ''_'', sc_digits = ds, sc_point = dp, sc_rest = []\<rparr>"
| "scan_nat base frac_ok prev ok ds dp (c # s) =
     (if c = CHR ''.'' \<and> frac_ok then
        scan_nat base False (CHR ''.'') (ok \<and> prev \<noteq> CHR ''_'') ds (Some (length ds)) s
      else if c = CHR ''_'' then
        scan_nat base frac_ok (CHR ''_'') (ok \<and> prev = CHR ''0'') ds dp s
      else if digit_value c < base then
        scan_nat base frac_ok (CHR ''0'') ok (ds @ [digit_value c]) dp s
      else \<lparr>sc_seps_ok = ok \<and> prev \<noteq> CHR ''_'', sc_digits = ds, sc_point = dp, sc_rest = c # s\<rparr>)"

text \<open>The radix prefix: the base, whether the prefix is the octal \<open>0\<close>, the result of the loop.\<close>

definition scan_mantissa :: "bool \<Rightarrow> string \<Rightarrow> nat \<times> bool \<times> scanned" where
  "scan_mantissa frac_ok s = (case s of
     [] \<Rightarrow> (10, False, scan_nat 10 frac_ok (CHR ''.'') True [] None [])
   | [c] \<Rightarrow> (10, False, scan_nat 10 frac_ok (CHR ''.'') True [] None [c])
   | c # x # r \<Rightarrow>
       if c \<noteq> CHR ''0'' then (10, False, scan_nat 10 frac_ok (CHR ''.'') True [] None s)
       else if x = CHR ''b'' \<or> x = CHR ''B'' then (2, False, scan_nat 2 frac_ok (CHR ''0'') True [] None r)
       else if x = CHR ''o'' \<or> x = CHR ''O'' then (8, False, scan_nat 8 frac_ok (CHR ''0'') True [] None r)
       else if x = CHR ''x'' \<or> x = CHR ''X'' then (16, False, scan_nat 16 frac_ok (CHR ''0'') True [] None r)
       else if frac_ok then (10, False, scan_nat 10 frac_ok (CHR ''0'') True [0] None (x # r))
       else (8, True, scan_nat 8 frac_ok (CHR ''0'') True [] None (x # r)))"

definition scan_ok :: "bool \<Rightarrow> scanned \<Rightarrow> bool" where
  "scan_ok octal m = (if sc_digits m = [] then octal else sc_seps_ok m)"

fun scan_exponent_digits :: "char \<Rightarrow> bool \<Rightarrow> string \<Rightarrow> string \<Rightarrow> bool \<times> string \<times> string" where
  "scan_exponent_digits prev ok ds [] = (ok \<and> prev \<noteq> CHR ''_'', ds, [])"
| "scan_exponent_digits prev ok ds (c # s) =
     (if is_digit c then scan_exponent_digits (CHR ''0'') ok (ds @ [c]) s
      else if c = CHR ''_'' then scan_exponent_digits (CHR ''_'') (ok \<and> prev = CHR ''0'') ds s
      else (ok \<and> prev \<noteq> CHR ''_'', ds, c # s))"

text \<open>The exponent: its base and value; \<open>None\<close> when it is malformed or text is left over.\<close>

definition scan_exponent :: "string \<Rightarrow> (nat \<times> int) option" where
  "scan_exponent s = (case s of
     [] \<Rightarrow> Some (10, 0)
   | c # r \<Rightarrow>
       if c \<in> {CHR ''e'', CHR ''E'', CHR ''p'', CHR ''P''} then
         (let (neg, t) = take_sign r;
              (ok, ds, rest) = scan_exponent_digits (CHR ''.'') True [] t;
              v = (if neg then - int (nat_of_digits ds) else int (nat_of_digits ds))
          in if ds = [] \<or> \<not> ok \<or> rest \<noteq> [] \<or> \<not> is_int64 v then None
             else Some (if c = CHR ''e'' \<or> c = CHR ''E'' then 10 else 2, v))
       else None)"

definition rat_literal :: "string \<Rightarrow> bool" where
  "rat_literal s =
     (let body = snd (take_sign s) in
      if s = [] then False
      else if CHR ''/'' \<in> set s then
        (let (a, b) = (takeWhile (\<lambda>c. c \<noteq> CHR ''/'') s, tl (dropWhile (\<lambda>c. c \<noteq> CHR ''/'') s));
             (_, oa, ma) = scan_mantissa False (snd (take_sign a));
             (_, ob, mb) = scan_mantissa False b
         in scan_ok oa ma \<and> sc_rest ma = [] \<and> scan_ok ob mb \<and> sc_rest mb = []
            \<and> list_ex (\<lambda>d. d \<noteq> 0) (sc_digits mb))
      else
        (let (base, octal, m) = scan_mantissa True body;
             fcount = (case sc_point m of None \<Rightarrow> 0 | Some k \<Rightarrow> int k - int (length (sc_digits m)))
         in scan_ok octal m \<and>
            (case scan_exponent (sc_rest m) of None \<Rightarrow> False
             | Some (ebase, e) \<Rightarrow>
                 list_all (\<lambda>d. d = 0) (sc_digits m) \<or>
                 (let exp5 = (if base = 10 then fcount else 0) + (if ebase = 10 then e else 0);
                      exp2 = (if base = 8 then 3 * fcount else if base = 16 then 4 * fcount else fcount) + e
                  in \<bar>exp5\<bar> \<le> 1000000 \<and> \<bar>exp2\<bar> \<le> 10000000))))"

section \<open>The list of supporting documents\<close>

definition newline :: char where "newline = CHR 0x0A"

definition add_item :: "string \<Rightarrow> string list \<Rightarrow> calc_error + string list" where
  "add_item line items =
     (let item = squeeze line in
      if item = [] then Inr items
      else if to_lower item \<in> set (map to_lower items) then Inl (Rejected ''duplicate document'')
      else Inr (items @ [item]))"

definition evidence_items :: "payload \<Rightarrow> string \<Rightarrow> calc_error + string list" where
  "evidence_items p key = (case map_of p key of
     None \<Rightarrow> Inr []
   | Some JNull \<Rightarrow> Inr []
   | Some (JString text) \<Rightarrow>
       if trim_space text = [] then Inr []
       else rbind (fold_result add_item (split_on newline (replace_char (CHR '';'') newline text)) [])
              (\<lambda>items. if length items > 20 then Inl (Rejected ''too many documents'') else Inr items)
   | Some _ \<Rightarrow> Inl (NotString key))"

section \<open>The decision\<close>

definition expected_authority :: "(string \<times> string) list" where
  "expected_authority =
   [(''president_instruction'', ''president''), (''government_instruction'', ''prime_minister''),
    (''curator_instruction'', ''deputy_prime_minister''),
    (''security_council_decision'', ''security_council'')]"

text \<open>\<open>fmt.Sprintf\<close> of the number and the date of the decision, with their Russian particles.\<close>

definition decision_reference :: "string \<Rightarrow> string \<Rightarrow> string" where
  "decision_reference number date = utf8 [8470, 32] @ number @ utf8 [32, 1086, 1090, 32] @ date"

definition check_provided :: "string list \<Rightarrow> string \<Rightarrow> unit \<Rightarrow> calc_error + unit" where
  "check_provided req item u =
     (if to_lower item \<in> set (map to_lower req) then Inr () else Inl (Rejected ''document not required''))"

definition validate_decision_documents :: "payload \<Rightarrow> calc_error + unit" where
  "validate_decision_documents p =
     rbind (or_fail (evidence_items p ''decision_required_documents'') (Rejected ''required documents'')) (\<lambda>req.
     if req = [] then Inl (Rejected ''required documents'')
     else rbind (evidence_items p ''decision_provided_documents'') (\<lambda>provided.
       fold_result (check_provided req) provided ()))"

definition validate_decision_volume :: "payload \<Rightarrow> calc_error + unit" where
  "validate_decision_volume p =
     rbind (or_fail (str p ''metric_unit'') (Rejected ''unit'')) (\<lambda>unit.
     if rat_literal (replace_char (CHR '','') (CHR ''.'') unit) then Inl (Rejected ''numeric unit'')
     else
     rbind (or_fail (positive_num p ''actual_volume'') (Rejected ''actual volume'')) (\<lambda>_.
     rbind (if empty_value (map_of p ''planned_volume'') then Inr 0
            else or_fail (non_negative_num p ''planned_volume'') (Rejected ''planned volume'')) (\<lambda>_.
     rbind (or_fail (positive_num p ''amount_manual'') (Rejected ''amount'')) (\<lambda>_.
     rbind (or_fail (str p ''calculation_basis'') (Rejected ''basis'')) (\<lambda>_. Inr ())))))"

definition validate_manual :: "payload \<Rightarrow> calc_error + payload" where
  "validate_manual p =
     rbind (or_fail (str p ''instruction_type'') (Rejected ''instruction'')) (\<lambda>instruction.
     rbind (or_fail (str p ''instruction_authority'') (Rejected ''authority'')) (\<lambda>authority.
     if map_of expected_authority instruction \<noteq> Some authority then Inl (Rejected ''authority mismatch'')
     else
     rbind (or_fail (str p ''decision_number'') (Rejected ''decision number'')) (\<lambda>number.
     rbind (or_fail (str p ''decision_date'') (Rejected ''decision date'')) (\<lambda>date.
     rbind (or_fail (str p ''implementation_start'') (Rejected ''start'')) (\<lambda>start.
     rbind (or_fail (str p ''implementation_deadline'') (Rejected ''deadline'')) (\<lambda>deadline.
     if \<not> (ordered_dates start deadline \<and> ordered_dates date deadline) then Inl (Rejected ''decision dates'')
     else
     rbind (or_fail (str p ''implementation_conditions'') (Rejected ''conditions'')) (\<lambda>_.
     let q = AList.update ''decision_reference'' (JString (decision_reference number date)) p in
     rbind (validate_decision_volume q) (\<lambda>_.
     rbind (validate_decision_documents q) (\<lambda>_. Inr q)))))))))"

section \<open>Validation of an entry\<close>

fun validate_own :: "category \<Rightarrow> payload \<Rightarrow> calc_error + payload" where
  "validate_own Teachers p = validate_teachers p"
| "validate_own OodRpd p = Inr p"
| "validate_own Internship p = validate_internship p"
| "validate_own EmploymentPractice p = validate_employment_practice p"
| "validate_own TopIT p = validate_top_it p"
| "validate_own MincDecision p = validate_manual p"
| "validate_own ItClubs p = validate_school_programs p"
| "validate_own TeacherTraining p = validate_teacher_training p"
| "validate_own EduContent p = validate_educational_content p"

definition validate_entry :: "category \<Rightarrow> payload option \<Rightarrow> calc_error + payload" where
  "validate_entry c mp = validate_payload (fields_of c) (validate_own c) mp"

end
