(* ===== verification/Acceptance.thy ===== *)
theory Acceptance
  imports Decision
begin

text \<open>
  What an accepted entry satisfies: the guarantees \<open>ValidatePayload\<close> gives for the fields of its
  category, and those of each category's own checks, stated on dates and numbers rather than
  on the texts the code compares.
\<close>

section \<open>Fields\<close>

lemma fields_distinct: "distinct (map fs_key (fields_of c))"
  by (cases c) (simp_all add: field_tables Let_def)

lemma validate_own_keeps:
  assumes "validate_own c p = Inr r" "k \<noteq> ''decision_reference''"
  shows "map_of r k = map_of p k"
  using assms
  by (cases c)
     (auto simp: validate_teachers_def validate_internship_def validate_employment_practice_def
       validate_top_it_def validate_manual_def validate_school_programs_def
       validate_teacher_training_def validate_educational_content_def
       map_of_update_other Let_def rbind_Inr split: option.splits if_splits)

lemma accepted_own:
  assumes "validate_entry c mp = Inr r"
  obtains q where "validate_own c q = Inr r" "\<And>k. k \<noteq> ''decision_reference'' \<Longrightarrow> map_of r k = map_of q k"
    "\<And>f. f \<in> set (fields_of c) \<Longrightarrow> field_ok q f"
  using assms unfolding validate_entry_def
  by (rule validate_payload_ok [OF _ fields_distinct]) (auto intro: that validate_own_keeps)

lemma accepted_own_same:
  assumes "validate_entry c mp = Inr r" "c \<noteq> MincDecision"
  shows "validate_own c r = Inr r" "f \<in> set (fields_of c) \<Longrightarrow> field_ok r f"
proof -
  obtain q where q: "validate_own c q = Inr r" "\<And>f. f \<in> set (fields_of c) \<Longrightarrow> field_ok q f"
    using accepted_own [OF assms(1)] by metis
  have "r = q" using q(1) assms(2)
    by (cases c)
       (auto simp: validate_teachers_def validate_internship_def validate_employment_practice_def
         validate_top_it_def validate_school_programs_def validate_teacher_training_def
         validate_educational_content_def rbind_Inr split: option.splits if_splits)
  then show "validate_own c r = Inr r" "f \<in> set (fields_of c) \<Longrightarrow> field_ok r f"
    using q by simp_all
qed

section \<open>Dates\<close>

definition date_at :: "payload \<Rightarrow> string \<Rightarrow> date option" where
  "date_at p k = (case raw_text p k of Some s \<Rightarrow> parse_date s | None \<Rightarrow> None)"

definition has_date_field :: "category \<Rightarrow> string \<Rightarrow> bool" where
  "has_date_field c k = list_ex (\<lambda>f. fs_key f = k \<and> fs_type f = ''date'') (fields_of c)"

lemma str_raw: "str p k = Inr t \<Longrightarrow> \<exists>s. raw_text p k = Some s \<and> t = trim_space s \<and> t \<noteq> []"
  by (auto simp: str_def raw_text_def split: option.splits jvalue.splits if_splits)

lemma date_field_text:
  assumes "\<And>f. f \<in> set (fields_of c) \<Longrightarrow> field_ok r f" "has_date_field c k" "raw_text r k = Some s"
  shows "s = [] \<or> (\<exists>d. parse_date s = Some d)"
  using assms by (fastforce simp: has_date_field_def list_ex_iff field_ok_def text_ok_def raw_text_def
      empty_value_def split: option.splits jvalue.splits if_splits)

lemma date_field_str:
  assumes "\<And>f. f \<in> set (fields_of c) \<Longrightarrow> field_ok r f" "has_date_field c k" "str r k = Inr t"
  shows "\<exists>d. date_at r k = Some d \<and> parse_date t = Some d"
proof -
  obtain s where s: "raw_text r k = Some s" "t = trim_space s" "t \<noteq> []" using str_raw [OF assms(3)] by blast
  have "s \<noteq> []" using s by (auto simp: trim_space_def)
  then obtain d where "parse_date s = Some d" using date_field_text [OF assms(1,2) s(1)] by blast
  then show ?thesis using s parse_date_trim [of s d] by (intro exI [of _ d]) (simp add: date_at_def)
qed

lemma date_field_filled:
  assumes "\<And>f. f \<in> set (fields_of c) \<Longrightarrow> field_ok r f" "has_date_field c k" "filled r k = Some s"
  shows "\<exists>d. date_at r k = Some d \<and> parse_date s = Some d"
proof -
  have s: "raw_text r k = Some s" "trim_space s \<noteq> []"
    using assms(3) by (auto simp: filled_def split: option.splits if_splits)
  then have "s \<noteq> []" by (auto simp: trim_space_def)
  then show ?thesis using date_field_text [OF assms(1,2) s(1)] s by (auto simp: date_at_def)
qed

lemma ordered_dates_days:
  assumes "ordered_dates s t" "parse_date s = Some a" "parse_date t = Some b"
  shows "day_number a \<le> day_number b"
  using assms day_number_less_iff [of b a] parse_date_valid
  by (auto simp: ordered_dates_def)

lemma iso_not_less:
  assumes "\<not> s < t" "parse_date s = Some a" "parse_date t = Some b"
  shows "day_number b \<le> day_number a"
  using assms iso_order [OF assms(2,3)] day_number_less_iff [of a b] parse_date_valid by auto

section \<open>Internships and practice\<close>

lemma mentor_checks:
  assumes "validate_mentor_appointment r = Inr ()"
  obtains a b n k where "str r ''mentor_assignment_start'' = Inr a" "str r ''mentor_assignment_end'' = Inr b"
    "ordered_dates a b" "str r ''mentor_order_number'' = Inr n" "str r ''mentor_order_date'' = Inr k"
    "ordered_dates k a" "\<And>s. filled r ''period_start'' = Some s \<Longrightarrow> \<not> s < a"
    "\<And>e. filled r ''period_end'' = Some e \<Longrightarrow> \<not> b < e"
  using assms unfolding validate_mentor_appointment_def rbind_Inr or_fail_Inr
  by (auto simp: rbind_Inr or_fail_Inr split: if_splits option.splits)

text \<open>
  In every accepted internship or practice entry the mentor's order is dated no later than
  the first day of the appointment, the appointment is a proper period of calendar days, and it
  covers the period of the event wherever that is given: the code compares the texts of the
  dates, the property speaks of the days they denote.
\<close>

theorem mentor_covers_event:
  assumes "validate_entry c mp = Inr r" "c = Internship \<or> c = EmploymentPractice"
  shows "\<exists>order first last. date_at r ''mentor_order_date'' = Some order
    \<and> date_at r ''mentor_assignment_start'' = Some first \<and> date_at r ''mentor_assignment_end'' = Some last
    \<and> day_number order \<le> day_number first \<and> day_number first \<le> day_number last
    \<and> (filled r ''period_start'' \<noteq> None \<longrightarrow>
        (\<exists>s. date_at r ''period_start'' = Some s \<and> day_number first \<le> day_number s))
    \<and> (filled r ''period_end'' \<noteq> None \<longrightarrow>
        (\<exists>e. date_at r ''period_end'' = Some e \<and> day_number e \<le> day_number last))"
proof -
  have "c \<noteq> MincDecision" using assms(2) by auto
  note ok = accepted_own_same(2) [OF assms(1) this]
  have "validate_mentor_appointment r = Inr ()"
    using accepted_own_same(1) [OF assms(1) \<open>c \<noteq> MincDecision\<close>] assms(2)
    by (auto simp: validate_internship_def validate_employment_practice_def rbind_Inr)
  then obtain a b n k where m: "str r ''mentor_assignment_start'' = Inr a"
    "str r ''mentor_assignment_end'' = Inr b" "ordered_dates a b" "str r ''mentor_order_number'' = Inr n" "str r ''mentor_order_date'' = Inr k"
    "ordered_dates k a" "\<And>s. filled r ''period_start'' = Some s \<Longrightarrow> \<not> s < a"
    "\<And>e. filled r ''period_end'' = Some e \<Longrightarrow> \<not> b < e" by (rule mentor_checks) (rule that)
  have fields: "has_date_field c ''mentor_assignment_start''" "has_date_field c ''mentor_assignment_end''"
    "has_date_field c ''mentor_order_date''" "has_date_field c ''period_start''" "has_date_field c ''period_end''"
    using assms(2) by (auto simp: has_date_field_def field_tables)
  obtain first last order where d: "date_at r ''mentor_assignment_start'' = Some first" "parse_date a = Some first"
    "date_at r ''mentor_assignment_end'' = Some last" "parse_date b = Some last"
    "date_at r ''mentor_order_date'' = Some order" "parse_date k = Some order"
    using date_field_str [OF ok fields(1) m(1)] date_field_str [OF ok fields(2) m(2)]
      date_field_str [OF ok fields(3) m(5)] by blast
  have s: "\<exists>s. date_at r ''period_start'' = Some s \<and> day_number first \<le> day_number s"
    if f: "filled r ''period_start'' = Some t" for t
    using date_field_filled [OF ok fields(4) f] iso_not_less [OF m(7) [OF f] _ d(2)] by blast
  have e: "\<exists>e. date_at r ''period_end'' = Some e \<and> day_number e \<le> day_number last"
    if f: "filled r ''period_end'' = Some t" for t
    using date_field_filled [OF ok fields(5) f] iso_not_less [OF m(8) [OF f] d(4)] by blast
  show ?thesis
    using d ordered_dates_days [OF m(6) d(6,2)] ordered_dates_days [OF m(3) d(2,4)] s e by blast
qed

text \<open>A practice entry, and the same entry without the fields of the labour contract as an internship.\<close>

definition internship_example :: payload where
  "internship_example =
   [(''org_name'', JString ''7''), (''mentor_id'', JString ''4''), (''mentor_full_name'', JString ''A''),
    (''student_full_name'', JString ''B''), (''period_start'', JString ''2026-02-01''),
    (''mentor_assignment_start'', JString ''2026-01-26''), (''mentor_assignment_end'', JString ''2026-05-01''),
    (''mentor_order_number'', JString ''17''), (''mentor_order_date'', JString ''2026-01-20''),
    (''duration_months'', JNumber ''3''), (''student_load_hours_per_month'', JNumber ''80''),
    (''mentor_load_hours_per_month'', JNumber ''12.5'')]"

definition practice_example :: payload where
  "practice_example = internship_example @
   [(''course'', JString ''3''), (''specialty_code'', JString ''09.02.07''),
    (''period_end'', JString ''2026-04-30''), (''labor_contract_number'', JString ''T1''),
    (''labor_contract_date'', JString ''2026-01-25''), (''labor_contract_type'', JString ''fixed_term''),
    (''practice_agreement_number'', JString ''P9''), (''practice_agreement_date'', JString ''2026-01-15''),
    (''student_age'', JNumber ''16''), (''weekly_hours'', JNumber ''35'')]"

lemma internship_example_accepted:
  "validate_entry Internship (Some internship_example) = Inr internship_example"
  by code_simp

lemma practice_example_accepted:
  "validate_entry EmploymentPractice (Some practice_example) = Inr practice_example"
  by code_simp

theorem mentor_covers_event_witness:
  "\<exists>order first last. date_at internship_example ''mentor_order_date'' = Some order
    \<and> date_at internship_example ''mentor_assignment_start'' = Some first
    \<and> date_at internship_example ''mentor_assignment_end'' = Some last
    \<and> day_number order \<le> day_number first \<and> day_number first \<le> day_number last"
  using mentor_covers_event [OF internship_example_accepted] by blast

text \<open>
  C5: an accepted practice entry satisfies articles 63 and 92 of the Labour Code: the age is a
  whole number of years from 14 to 100, the weekly hours are positive and within the limit of
  the age (24 below 16, 35 below 18, 40 otherwise), the contract is fixed-term and the period
  of the practice is a proper period of days.
\<close>

theorem practice_labour_law:
  assumes "validate_entry EmploymentPractice mp = Inr r"
  shows "\<exists>age hours. num r ''student_age'' = Inr (of_int age) \<and> num r ''weekly_hours'' = Inr hours
    \<and> 14 \<le> age \<and> age \<le> 100 \<and> 0 < hours
    \<and> hours \<le> (if age < 16 then 24 else if age < 18 then 35 else 40)
    \<and> str r ''labor_contract_type'' = Inr ''fixed_term''
    \<and> (\<exists>s e. date_at r ''period_start'' = Some s \<and> date_at r ''period_end'' = Some e
          \<and> day_number s \<le> day_number e)"
proof -
  have "EmploymentPractice \<noteq> MincDecision" by simp
  note own = accepted_own_same(1) [OF assms this] and ok = accepted_own_same(2) [OF assms this]
  from own obtain s e age hours where h: "str r ''period_start'' = Inr s" "str r ''period_end'' = Inr e"
    "ordered_dates s e" "str r ''labor_contract_type'' = Inr ''fixed_term''"
    "num r ''student_age'' = Inr age" "num r ''weekly_hours'' = Inr hours"
    "validate_working_time_limit age hours = Inr ()"
    by (auto simp: validate_employment_practice_def rbind_Inr or_fail_Inr split: if_splits)
  have fields: "has_date_field EmploymentPractice ''period_start''" "has_date_field EmploymentPractice ''period_end''"
    by (simp_all add: has_date_field_def field_tables)
  obtain a b where d: "date_at r ''period_start'' = Some a" "parse_date s = Some a"
    "date_at r ''period_end'' = Some b" "parse_date e = Some b"
    using date_field_str [OF ok fields(1) h(1)] date_field_str [OF ok fields(2) h(2)] by blast
  have "required (integer (minimum 14 (maximum 100 (number_field ''student_age'')))) \<in> set (fields_of EmploymentPractice)"
    by (simp add: employment_practice_fields_def practice_extra_fields_def)
  from ok [OF this] have "age \<le> 100"
    using h(5) by (auto simp: field_ok_def number_ok_def num_def empty_value_def required_def integer_def minimum_def
        maximum_def field_of_def split: if_splits option.splits)
  then have "\<exists>n. age = of_int n \<and> 14 \<le> n \<and> n \<le> 100 \<and> 0 < hours
      \<and> hours \<le> (if n < 16 then 24 else if n < 18 then 35 else 40)"
    using h(7) by (intro exI [of _ "trunc age"])
      (auto simp: validate_working_time_limit_def weekly_hours_limit_def split: if_splits)
  then show ?thesis using h(4-6) d ordered_dates_days [OF h(3) d(2,4)] by blast
qed

theorem practice_labour_law_witness:
  "\<exists>age hours. num practice_example ''student_age'' = Inr (of_int age)
    \<and> num practice_example ''weekly_hours'' = Inr hours \<and> 14 \<le> age \<and> 0 < hours
    \<and> hours \<le> (if age < 16 then 24 else if age < 18 then 35 else 40)"
  using practice_labour_law [OF practice_example_accepted] by blast

section \<open>School categories\<close>

text \<open>
  An accepted school entry (programmes, training of teachers, access to content) is financed
  neither from budgets nor by citizens, and a school programme names only classes 5 to 11.
\<close>

theorem school_entry_funding:
  assumes "validate_entry c mp = Inr r" "c \<in> {ItClubs, TeacherTraining, EduContent}"
  shows "str r ''budget_funding'' = Inr ''absent'' \<and> str r ''citizen_funding'' = Inr ''absent''
    \<and> (c = ItClubs \<longrightarrow> (\<forall>t. filled r ''class_range'' = Some t \<longrightarrow>
         (\<forall>v \<in> set (digit_runs (trim_space t) []). 5 \<le> nat_of_digits v \<and> nat_of_digits v \<le> 11)
         \<and> digit_runs (trim_space t) [] \<noteq> []))"
proof -
  have "c \<noteq> MincDecision" using assms(2) by auto
  note own = accepted_own_same(1) [OF assms(1) this]
  have fund: "validate_school_funding r = Inr ()"
    using own assms(2) by (auto simp: validate_school_programs_def validate_teacher_training_def
        validate_educational_content_def rbind_Inr)
  have each: "\<forall>v \<in> set vs. 5 \<le> nat_of_digits v \<and> nat_of_digits v \<le> 11"
    if "fold_result check_class vs () = Inr ()" for vs
    using that by (induction vs) (auto simp: check_class_def Let_def rbind_Inr split: if_splits)
  have "validate_school_class_range r = Inr ()" if "c = ItClubs"
    using own that by (auto simp: validate_school_programs_def rbind_Inr)
  then show ?thesis
    using fund each by (auto simp: validate_school_funding_def validate_school_class_range_def filled_def raw_text_def
        Let_def rbind_Inr split: if_splits option.splits jvalue.splits)
qed

definition club_example :: payload where
  "club_example =
   [(''org_name'', JString ''7''), (''program_name'', JString ''Go''), (''academic_hours'', JNumber ''8''),
    (''developed_programs_count'', JNumber ''1''), (''students_count'', JNumber ''9''),
    (''class_range'', JString ''5-11''), (''funding_source'', JString ''own''),
    (''budget_funding'', JString ''absent''), (''citizen_funding'', JString ''absent'')]"

lemma club_example_accepted: "validate_entry ItClubs (Some club_example) = Inr club_example"
  by code_simp

theorem school_entry_funding_witness:
  "str club_example ''budget_funding'' = Inr ''absent'' \<and> str club_example ''citizen_funding'' = Inr ''absent''"
  using school_entry_funding [OF club_example_accepted] by blast

text \<open>
  An accepted entry on access to educational content carries a digital trace that can be
  checked: a proper period of days, a positive whole number of participants and a SHA-256 of 64
  hexadecimal digits.
\<close>

theorem digital_trace_complete:
  assumes "validate_entry EduContent mp = Inr r"
  shows "\<exists>a b n h. date_at r ''digital_trace_period_start'' = Some a
    \<and> date_at r ''digital_trace_period_end'' = Some b \<and> day_number a \<le> day_number b
    \<and> num r ''digital_trace_participants'' = Inr (of_int n) \<and> 0 < n
    \<and> str r ''digital_trace_sha256'' = Inr h \<and> length h = 64 \<and> list_all is_hex_digit h"
proof -
  have "EduContent \<noteq> MincDecision" by simp
  note own = accepted_own_same(1) [OF assms this] and ok = accepted_own_same(2) [OF assms this]
  from own obtain s e a b n h where t: "str r ''digital_trace_period_start'' = Inr s"
    "str r ''digital_trace_period_end'' = Inr e" "parse_date s = Some a" "parse_date e = Some b"
    "\<not> date_less b a" "positive_num r ''digital_trace_participants'' = Inr n" "n = of_int (trunc n)"
    "str r ''digital_trace_sha256'' = Inr h" "sha256_hex h"
    unfolding validate_own.simps validate_educational_content_def validate_digital_trace_def result_simps
      not_not by blast
  have fields: "has_date_field EduContent ''digital_trace_period_start''"
    "has_date_field EduContent ''digital_trace_period_end''"
    by (simp_all add: has_date_field_def field_tables)
  have d: "date_at r ''digital_trace_period_start'' = Some a" "date_at r ''digital_trace_period_end'' = Some b"
    using date_field_str [OF ok fields(1) t(1)] date_field_str [OF ok fields(2) t(2)] t(3,4) by auto
  have "day_number a \<le> day_number b"
    using t(5) day_number_less_iff [of b a] parse_date_valid [OF t(3)] parse_date_valid [OF t(4)] by auto
  moreover obtain k where k: "n = of_int k" using t(7) by blast
  moreover have "0 < k" "num r ''digital_trace_participants'' = Inr (of_int k)"
    using t(6) k by (simp_all add: positive_num_Inr)
  ultimately show ?thesis using d t(8,9) by (auto simp: sha256_hex_def)
qed

definition content_example :: payload where
  "content_example =
   [(''org_name'', JString ''7''), (''platform_name'', JString ''P''), (''student_platform_months'', JNumber ''8''),
    (''teacher_platform_months'', JNumber ''0''), (''digital_trace_reference'', JString ''log''),
    (''digital_trace_period_start'', JString ''2026-01-01''), (''digital_trace_period_end'', JString ''2026-03-31''),
    (''digital_trace_participants'', JNumber ''5''),
    (''digital_trace_sha256'', JString ''0123456789abcdef0123456789ABCDEF0123456789abcdef0123456789abcdef''),
    (''funding_source'', JString ''own''), (''budget_funding'', JString ''absent''),
    (''citizen_funding'', JString ''absent'')]"

lemma content_example_accepted: "validate_entry EduContent (Some content_example) = Inr content_example"
  by code_simp

theorem digital_trace_complete_witness:
  "\<exists>a b. date_at content_example ''digital_trace_period_start'' = Some a
    \<and> date_at content_example ''digital_trace_period_end'' = Some b \<and> day_number a \<le> day_number b"
  using digital_trace_complete [OF content_example_accepted] by blast

section \<open>Decisions of the Ministry\<close>

lemma evidence_items_distinct:
  assumes "evidence_items p k = Inr items"
  shows "distinct (map to_lower items) \<and> [] \<notin> set items \<and> length items \<le> 20"
proof -
  have "distinct (map to_lower ys) \<and> [] \<notin> set ys" if "fold_result add_item lines [] = Inr ys" for lines ys
    by (rule fold_result_invariant [OF that, where P = "\<lambda>ys. distinct (map to_lower ys) \<and> [] \<notin> set ys"])
       (auto simp: add_item_def Let_def split: if_splits)
  with assms show ?thesis
    by (fastforce simp: evidence_items_def rbind_Inr split: option.splits jvalue.splits if_splits)
qed

lemma check_provided_all:
  "fold_result (check_provided req) items () = Inr () \<Longrightarrow> set (map to_lower items) \<subseteq> set (map to_lower req)"
  by (induction items) (auto simp: check_provided_def rbind_Inr split: if_splits)

text \<open>
  An accepted event under a decision of the Ministry names between 1 and 20 required documents,
  none twice (letter case apart), every provided document is among them, the instruction comes
  from the authority of its kind, and the summary reference is built from the number and the
  date of the decision.
\<close>

theorem decision_documents:
  assumes "validate_entry MincDecision mp = Inr r"
  shows "\<exists>req provided kind auth number date.
    evidence_items r ''decision_required_documents'' = Inr req
    \<and> evidence_items r ''decision_provided_documents'' = Inr provided
    \<and> req \<noteq> [] \<and> length req \<le> 20 \<and> distinct (map to_lower req)
    \<and> set (map to_lower provided) \<subseteq> set (map to_lower req)
    \<and> str r ''instruction_type'' = Inr kind \<and> str r ''instruction_authority'' = Inr auth
    \<and> map_of expected_authority kind = Some auth
    \<and> str r ''decision_number'' = Inr number \<and> str r ''decision_date'' = Inr date
    \<and> map_of r ''decision_reference'' = Some (JString (decision_reference number date))"
proof -
  obtain q where q: "validate_manual q = Inr r" by (rule accepted_own [OF assms]) (use that in simp)
  then obtain kind auth number date where h: "str q ''instruction_type'' = Inr kind"
    "str q ''instruction_authority'' = Inr auth" "map_of expected_authority kind = Some auth"
    "str q ''decision_number'' = Inr number" "str q ''decision_date'' = Inr date"
    "r = AList.update ''decision_reference'' (JString (decision_reference number date)) q"
    "validate_decision_documents r = Inr ()"
    by (auto simp: validate_manual_def rbind_Inr or_fail_Inr Let_def split: if_splits)
  have same: "str r k = str q k" if "k \<noteq> ''decision_reference''" for k
    using that by (simp add: h(6) str_def map_of_update_other)
  obtain req provided where d: "evidence_items r ''decision_required_documents'' = Inr req" "req \<noteq> []"
    "evidence_items r ''decision_provided_documents'' = Inr provided"
    "fold_result (check_provided req) provided () = Inr ()"
    using h(7) by (auto simp: validate_decision_documents_def rbind_Inr or_fail_Inr split: if_splits)
  show ?thesis
    using d h(1-5) evidence_items_distinct [OF d(1)] check_provided_all [OF d(4)]
    by (simp add: same) (simp add: h(6))
qed

definition decision_example :: payload where
  "decision_example =
   [(''org_name'', JString ''7''), (''instruction_type'', JString ''president_instruction''),
    (''instruction_authority'', JString ''president''), (''instruction_reference'', JString ''R''),
    (''decision_number'', JString ''5''), (''decision_date'', JString ''2026-01-10''),
    (''implementation_start'', JString ''2026-02-01''), (''implementation_deadline'', JString ''2026-12-01''),
    (''implementation_conditions'', JString ''C''), (''activity_description'', JString ''D''),
    (''metric_description'', JString ''M''), (''metric_unit'', JString ''item''),
    (''actual_volume'', JNumber ''4''), (''calculation_basis'', JString ''B''),
    (''amount_manual'', JNumber ''100''), (''decision_required_documents'', JString ''Act;Report''),
    (''decision_provided_documents'', JString ''act'')]"

lemma decision_example_accepted:
  "validate_entry MincDecision (Some decision_example) =
    Inr (AList.update ''decision_reference'' (JString (decision_reference ''5'' ''2026-01-10'')) decision_example)"
  by code_simp

theorem decision_documents_witness:
  "\<exists>req. evidence_items (AList.update ''decision_reference''
      (JString (decision_reference ''5'' ''2026-01-10'')) decision_example) ''decision_required_documents'' = Inr req
    \<and> req \<noteq> [] \<and> length req \<le> 20"
  using decision_documents [OF decision_example_accepted] by blast

section \<open>The fields of every category\<close>

text \<open>
  C1: every entry accepted by ValidatePayload, in any category, has only fields of its category,
  all mandatory fields filled, every number non-negative, within its bounds and whole where the
  field is whole, and every text within its length, free of control characters, among the
  options of its list and a calendar date where the field is a date. One field is not checked but
  written: the summary reference of a decision of the Ministry, which is the one composed of the
  number and the date of the decision, whatever the payload had there.
\<close>

theorem accepted_entry_fields:
  assumes "validate_entry c mp = Inr r"
  shows "\<exists>p. mp = Some p \<and> (\<forall>k \<in> set (map fst p). k \<in> set (map fs_key (fields_of c)))
    \<and> (\<forall>f \<in> set (fields_of c). \<not> (c = MincDecision \<and> fs_key f = ''decision_reference'') \<longrightarrow> field_ok r f)
    \<and> (c = MincDecision \<longrightarrow> (\<exists>number date. str r ''decision_number'' = Inr number \<and> str r ''decision_date'' = Inr date
         \<and> map_of r ''decision_reference'' = Some (JString (decision_reference number date))))"
proof -
  obtain p q where p: "mp = Some p" and own: "validate_own c q = Inr r"
    and keys: "set (map fst q) \<subseteq> set (map fs_key (fields_of c))" "set (map fst q) = set (map fst p)"
    and ok: "\<forall>f \<in> set (fields_of c). field_ok q f"
    using assms unfolding validate_entry_def by (rule validate_payload_ok [OF _ fields_distinct])
  have "field_ok r f" if f: "f \<in> set (fields_of c)" "\<not> (c = MincDecision \<and> fs_key f = ''decision_reference'')" for f
  proof (cases "c = MincDecision")
    case True
    then show ?thesis using ok f validate_own_keeps [OF own] field_ok_cong by blast
  next
    case False
    then show ?thesis using accepted_own_same(2) [OF assms False f(1)] by blast
  qed
  moreover have "\<exists>number date. str r ''decision_number'' = Inr number \<and> str r ''decision_date'' = Inr date
      \<and> map_of r ''decision_reference'' = Some (JString (decision_reference number date))" if "c = MincDecision"
    using decision_documents [OF assms [unfolded that]] by blast
  ultimately show ?thesis using p keys by auto
qed

theorem accepted_entry_fields_witness:
  "\<exists>number date. map_of (AList.update ''decision_reference'' (JString (decision_reference ''5'' ''2026-01-10'')) decision_example)
      ''decision_reference'' = Some (JString (decision_reference number date))
    \<and> (\<forall>f \<in> set (fields_of MincDecision). fs_key f \<noteq> ''decision_reference'' \<longrightarrow>
         field_ok (AList.update ''decision_reference'' (JString (decision_reference ''5'' ''2026-01-10'')) decision_example) f)"
  using accepted_entry_fields [OF decision_example_accepted] by blast

section \<open>Teaching and programmes of top level\<close>

text \<open>
  C6: an accepted teaching entry has a semester that the matrix allows for its level of education,
  and its semester dates, when both are given, form a proper period.
\<close>

theorem teaching_semester:
  assumes "validate_entry Teachers mp = Inr r"
  shows "\<exists>level n lo hi. str r ''education_level'' = Inr level \<and> num r ''semester'' = Inr (of_int n)
    \<and> map_of semester_ranges level = Some (lo, hi) \<and> lo \<le> n \<and> n \<le> hi
    \<and> (filled r ''semester_start'' \<noteq> None \<and> filled r ''semester_end'' \<noteq> None \<longrightarrow>
        (\<exists>a b. date_at r ''semester_start'' = Some a \<and> date_at r ''semester_end'' = Some b
          \<and> day_number a \<le> day_number b))"
proof -
  have "Teachers \<noteq> MincDecision" by simp
  note own = accepted_own_same(1) [OF assms this] and ok = accepted_own_same(2) [OF assms this]
  from own obtain level x where h: "str r ''education_level'' = Inr level" "num r ''semester'' = Inr x"
    "validate_semester level (trunc x) = Inr ()"
    by (auto simp: validate_teachers_def rbind_Inr)
  have dates: "ordered_dates s e" if "filled r ''semester_start'' = Some s" "filled r ''semester_end'' = Some e" for s e
    using own that by (auto simp: validate_teachers_def rbind_Inr split: if_splits)
  have fields: "has_date_field Teachers ''semester_start''" "has_date_field Teachers ''semester_end''"
    by (simp_all add: has_date_field_def field_tables)
  have "required (integer (minimum 1 (maximum 13 (number_field ''semester'')))) \<in> set (fields_of Teachers)"
    by (simp add: teachers_fields_def)
  from ok [OF this] have "of_int (trunc x) = x"
    using h(2) by (auto simp: field_ok_def number_ok_def num_def empty_value_def required_def integer_def minimum_def
        maximum_def field_of_def split: if_splits option.splits)
  moreover have "\<exists>lo hi. map_of semester_ranges level = Some (lo, hi) \<and> lo \<le> trunc x \<and> trunc x \<le> hi"
    using h(3) by (auto simp: validate_semester_def split: option.splits if_splits)
  moreover have "\<exists>a b. date_at r ''semester_start'' = Some a \<and> date_at r ''semester_end'' = Some b
      \<and> day_number a \<le> day_number b"
    if s: "filled r ''semester_start'' = Some s" and e: "filled r ''semester_end'' = Some e" for s e
    using date_field_filled [OF ok fields(1) s] date_field_filled [OF ok fields(2) e]
      ordered_dates_days [OF dates [OF s e]] by blast
  ultimately show ?thesis using h(1,2) by (metis not_None_eq)
qed

definition teaching_example :: payload where
  "teaching_example =
   [(''org_name'', JString ''7''), (''course_name'', JString ''Go''), (''education_level'', JString ''master''),
    (''semester'', JNumber ''9''), (''semester_start'', JString ''2026-02-01''),
    (''semester_end'', JString ''2026-06-30''), (''teacher_full_name'', JString ''T''),
    (''employment_form'', JString (utf8 [1043, 1055, 1061])), (''academic_hours'', JNumber ''8'')]"

lemma teaching_example_accepted: "validate_entry Teachers (Some teaching_example) = Inr teaching_example"
  by code_simp

theorem teaching_semester_witness:
  "\<exists>level n lo hi. str teaching_example ''education_level'' = Inr level
    \<and> num teaching_example ''semester'' = Inr (of_int n)
    \<and> map_of semester_ranges level = Some (lo, hi) \<and> lo \<le> n \<and> n \<le> hi"
  using teaching_semester [OF teaching_example_accepted] by blast

end
