(* ===== verification/Regulatory.thy ===== *)
theory Regulatory
  imports GoDate
begin

text \<open>
  \<open>backend/internal/regulatory/machine.go\<close> and \<open>calendar.go\<close>: the regulatory process of order
  No. 270, its chains of calendar deadlines and the approval by silence. An instant is a number
  of nanoseconds since 1970 UTC; business days are Moscow days (a fixed offset of three hours).
\<close>

section \<open>Kinds, statuses, windows, actions\<close>

datatype kind = Agreement | Preliminary | Final | OtherKind string

record chain =
  ch_review :: int
  ch_rework :: int
  ch_rereview :: int

definition chain_of :: "int \<Rightarrow> int \<Rightarrow> int \<Rightarrow> chain" where
  "chain_of a b c = \<lparr>ch_review = a, ch_rework = b, ch_rereview = c\<rparr>"

fun chains :: "kind \<Rightarrow> chain option" where
  "chains Agreement = Some (chain_of 14 10 10)"
| "chains Preliminary = Some (chain_of 10 10 5)"
| "chains Final = Some (chain_of 20 20 10)"
| "chains (OtherKind _) = None"

datatype status =
    Draft | Sent | InReview | Rework | Resubmitted | Approved | DefaultApproved | Disputed

definition terminal :: "status \<Rightarrow> bool" where
  "terminal s = (s = Approved \<or> s = DefaultApproved \<or> s = Disputed)"

lemma terminal_simps [simp]:
  "terminal Approved" "terminal DefaultApproved" "terminal Disputed"
  "\<not> terminal Draft" "\<not> terminal Sent" "\<not> terminal InReview" "\<not> terminal Rework" "\<not> terminal Resubmitted"
  by (simp_all add: terminal_def)

datatype window = WindowNone | WindowReview | WindowRework | WindowReReview

datatype action =
    Send | StartReview | Approve | RequestRework | Resubmit | Dispute
  | DefaultApprove | ReworkLapsed | OtherAction string

definition actions :: "action list" where
  "actions = [Send, StartReview, Approve, RequestRework, Resubmit, Dispute]"

datatype reg_error =
    UnknownKind
  | InvalidTransition
  | ReasonRequired
  | TooEarly
  | WindowClosed
  | BadReportYear int

section \<open>State, events, calendar\<close>

record proc_state =
  ps_kind :: kind
  ps_year :: int
  ps_status :: status
  ps_window :: window
  ps_due :: string
  ps_expires :: instant
  ps_round :: nat
  ps_sent_at :: "instant option"
  ps_sent_late :: bool
  ps_remarks :: string
  ps_lapsed_at :: "instant option"

record event =
  ev_action :: action
  ev_from :: status
  ev_to :: status
  ev_reason :: string
  ev_due :: string
  ev_at :: instant
  ev_system :: bool

text \<open>\<open>time.Time{}\<close>, the first of January of year 1, UTC.\<close>

definition zero_time :: instant where
  "zero_time = day_number (1, 1, 1) * day_ns"

definition last_day :: "instant \<Rightarrow> int \<Rightarrow> int" where
  "last_day received days = moscow_day received + days"

definition calendar_deadline :: "instant \<Rightarrow> int \<Rightarrow> string \<times> instant" where
  "calendar_deadline received days =
     (format_date (date_of_day (last_day received days)), moscow_midnight (last_day received days + 1))"

definition deadline_expired :: "instant \<Rightarrow> instant \<Rightarrow> bool" where
  "deadline_expired expires now = (\<not> now < expires)"

definition today :: "instant \<Rightarrow> instant" where
  "today now = moscow_midnight (moscow_day now)"

definition business_date :: "int \<Rightarrow> int \<Rightarrow> int \<Rightarrow> instant" where
  "business_date y m d = moscow_midnight (day_number (y, m, d))"

text \<open>\<open>MilestonesFor\<close>: the cutoff and the last day of sending, where the kind has them.\<close>

fun milestones_for :: "kind \<Rightarrow> int \<Rightarrow> (instant \<times> instant) option" where
  "milestones_for Preliminary year = Some (business_date year 11 1, business_date year 11 10)"
| "milestones_for Final year = Some (business_date year 12 31, business_date (year + 1) 3 1)"
| "milestones_for _ year = None"

definition new_process :: "kind \<Rightarrow> int \<Rightarrow> reg_error + proc_state" where
  "new_process k year =
     (if chains k = None then Inl UnknownKind
      else if year < 2000 \<or> year > 2100 then Inl (BadReportYear year)
      else Inr \<lparr>ps_kind = k, ps_year = year, ps_status = Draft, ps_window = WindowNone, ps_due = [],
        ps_expires = zero_time, ps_round = 0, ps_sent_at = None, ps_sent_late = False,
        ps_remarks = [], ps_lapsed_at = None\<rparr>)"

section \<open>Actions\<close>

definition open_window :: "window \<Rightarrow> instant \<Rightarrow> int \<Rightarrow> proc_state \<Rightarrow> proc_state" where
  "open_window w now days s = s\<lparr>ps_window := w, ps_due := fst (calendar_deadline now days),
     ps_expires := snd (calendar_deadline now days)\<rparr>"

definition close_window :: "proc_state \<Rightarrow> proc_state" where
  "close_window s = s\<lparr>ps_window := WindowNone, ps_due := [], ps_expires := zero_time\<rparr>"

definition event_of :: "action \<Rightarrow> proc_state \<Rightarrow> string \<Rightarrow> string \<Rightarrow> instant \<Rightarrow> proc_state \<Rightarrow> event" where
  "event_of a s reason due now t = \<lparr>ev_action = a, ev_from = ps_status s, ev_to = ps_status t,
     ev_reason = reason, ev_due = due, ev_at = now, ev_system = False\<rparr>"

text \<open>The transition that opens a window, and the one that leaves the deadline alone.\<close>

definition opened_step :: "action \<Rightarrow> proc_state \<Rightarrow> string \<Rightarrow> instant \<Rightarrow> proc_state \<Rightarrow> proc_state \<times> event" where
  "opened_step a s reason now t = (t, event_of a s reason (ps_due t) now t)"

definition plain_step :: "action \<Rightarrow> proc_state \<Rightarrow> string \<Rightarrow> instant \<Rightarrow> proc_state \<Rightarrow> proc_state \<times> event" where
  "plain_step a s reason now t = (t, event_of a s reason [] now t)"

definition apply_send :: "proc_state \<Rightarrow> chain \<Rightarrow> string \<Rightarrow> instant \<Rightarrow> reg_error + proc_state \<times> event" where
  "apply_send s ch reason now =
     (if ps_status s \<noteq> Draft then Inl InvalidTransition
      else
       let early = (case milestones_for (ps_kind s) (ps_year s) of
             None \<Rightarrow> False | Some (cutoff, _) \<Rightarrow> today now < cutoff);
           late = (case milestones_for (ps_kind s) (ps_year s) of
             None \<Rightarrow> ps_sent_late s | Some (_, send_due) \<Rightarrow> today now > send_due)
       in if early then Inl TooEarly
          else Inr (opened_step Send s reason now
            (open_window WindowReview now (ch_review ch)
              (s\<lparr>ps_sent_late := late, ps_sent_at := Some now, ps_status := Sent, ps_round := 1\<rparr>))))"

definition apply_start_review :: "proc_state \<Rightarrow> string \<Rightarrow> instant \<Rightarrow> reg_error + proc_state \<times> event" where
  "apply_start_review s reason now =
     (if ps_status s \<noteq> Sent \<and> ps_status s \<noteq> Resubmitted then Inl InvalidTransition
      else Inr (plain_step StartReview s reason now (s\<lparr>ps_status := InReview\<rparr>)))"

definition apply_approve :: "proc_state \<Rightarrow> string \<Rightarrow> instant \<Rightarrow> reg_error + proc_state \<times> event" where
  "apply_approve s reason now =
     (if ps_status s \<noteq> Sent \<and> ps_status s \<noteq> InReview \<and> ps_status s \<noteq> Resubmitted then Inl InvalidTransition
      else Inr (plain_step Approve s reason now (close_window (s\<lparr>ps_status := Approved\<rparr>))))"

definition apply_request_rework ::
  "proc_state \<Rightarrow> chain \<Rightarrow> string \<Rightarrow> instant \<Rightarrow> reg_error + proc_state \<times> event" where
  "apply_request_rework s ch reason now =
     (if ps_round s \<noteq> 1 \<or> (ps_status s \<noteq> Sent \<and> ps_status s \<noteq> InReview) then Inl InvalidTransition
      else if reason = [] then Inl ReasonRequired
      else Inr (opened_step RequestRework s reason now
        (open_window WindowRework now (ch_rework ch) (s\<lparr>ps_status := Rework, ps_remarks := reason\<rparr>))))"

definition apply_resubmit :: "proc_state \<Rightarrow> chain \<Rightarrow> string \<Rightarrow> instant \<Rightarrow> reg_error + proc_state \<times> event" where
  "apply_resubmit s ch reason now =
     (if ps_status s \<noteq> Rework then Inl InvalidTransition
      else if deadline_expired (ps_expires s) now then Inl WindowClosed
      else Inr (opened_step Resubmit s reason now
        (open_window WindowReReview now (ch_rereview ch) (s\<lparr>ps_status := Resubmitted, ps_round := 2\<rparr>))))"

definition apply_dispute :: "proc_state \<Rightarrow> string \<Rightarrow> instant \<Rightarrow> reg_error + proc_state \<times> event" where
  "apply_dispute s reason now =
     (if ps_status s \<noteq> Resubmitted \<and> \<not> (ps_status s = InReview \<and> ps_round s = 2) then Inl InvalidTransition
      else if reason = [] then Inl ReasonRequired
      else Inr (plain_step Dispute s reason now (close_window (s\<lparr>ps_status := Disputed\<rparr>))))"

definition apply_action :: "proc_state \<Rightarrow> action \<Rightarrow> instant \<Rightarrow> string \<Rightarrow> reg_error + proc_state \<times> event" where
  "apply_action s a now raw =
     (let reason = trim_space raw in
      if terminal (ps_status s) then Inl InvalidTransition
      else (case chains (ps_kind s) of
        None \<Rightarrow> Inl UnknownKind
      | Some ch \<Rightarrow>
         (case a of
            Send \<Rightarrow> apply_send s ch reason now
          | StartReview \<Rightarrow> apply_start_review s reason now
          | Approve \<Rightarrow> apply_approve s reason now
          | RequestRework \<Rightarrow> apply_request_rework s ch reason now
          | Resubmit \<Rightarrow> apply_resubmit s ch reason now
          | Dispute \<Rightarrow> apply_dispute s reason now
          | _ \<Rightarrow> Inl InvalidTransition)))"

section \<open>Silence\<close>

definition review_expired_text :: "string \<Rightarrow> string" where
  "review_expired_text due =
     utf8 [1089, 1088, 1086, 1082, 32, 1088, 1072, 1089, 1089, 1084, 1086, 1090, 1088, 1077, 1085,
      1080, 1103, 32, 1080, 1089, 1090, 1105, 1082, 32]
     @ due @
     utf8 [32, 1073, 1077, 1079, 32, 1086, 1090, 1074, 1077, 1090, 1072]"

definition rework_expired_text :: "string \<Rightarrow> string" where
  "rework_expired_text due =
     utf8 [1089, 1088, 1086, 1082, 32, 1076, 1086, 1088, 1072, 1073, 1086, 1090, 1082, 1080, 32,
      1080, 1089, 1090, 1105, 1082, 32]
     @ due"

definition system_event :: "action \<Rightarrow> proc_state \<Rightarrow> status \<Rightarrow> string \<Rightarrow> instant \<Rightarrow> event" where
  "system_event a s to_status reason now = \<lparr>ev_action = a, ev_from = ps_status s, ev_to = to_status,
     ev_reason = reason, ev_due = ps_due s, ev_at = now, ev_system = True\<rparr>"

definition expire_if_due :: "proc_state \<Rightarrow> instant \<Rightarrow> proc_state \<times> event option" where
  "expire_if_due s now =
     (if terminal (ps_status s) \<or> ps_window s = WindowNone \<or> \<not> deadline_expired (ps_expires s) now
      then (s, None)
      else (case ps_window s of
         WindowRework \<Rightarrow>
           if ps_lapsed_at s \<noteq> None then (s, None)
           else (s\<lparr>ps_lapsed_at := Some now\<rparr>,
                 Some (system_event ReworkLapsed s (ps_status s) (rework_expired_text (ps_due s)) now))
       | WindowNone \<Rightarrow> (s, None)
       | _ \<Rightarrow> (close_window (s\<lparr>ps_status := DefaultApproved\<rparr>),
               Some (system_event DefaultApprove s DefaultApproved (review_expired_text (ps_due s)) now))))"

text \<open>\<open>Allowed\<close> tries every action with a reason that is not empty.\<close>

definition probe_reason :: string where
  "probe_reason = utf8 [1087, 1088, 1086, 1074, 1077, 1088, 1082, 1072]"

definition allowed :: "proc_state \<Rightarrow> instant \<Rightarrow> action list" where
  "allowed s now =
     (if terminal (ps_status s) then []
      else filter (\<lambda>a. succeeds (apply_action s a now probe_reason)) actions)"

section \<open>Well-formed processes\<close>

definition window_ok :: "proc_state \<Rightarrow> bool" where
  "window_ok s =
     (if ps_window s = WindowNone then ps_due s = [] \<and> ps_expires s = zero_time
      else ps_due s = format_date (date_of_day (moscow_day (ps_expires s) - 1))
        \<and> ps_expires s = moscow_midnight (moscow_day (ps_expires s)))"

definition phase_ok :: "proc_state \<Rightarrow> bool" where
  "phase_ok s = (case ps_status s of
     Draft \<Rightarrow> ps_round s = 0 \<and> ps_window s = WindowNone \<and> ps_sent_at s = None
   | Sent \<Rightarrow> ps_round s = 1 \<and> ps_window s = WindowReview \<and> ps_sent_at s \<noteq> None
   | InReview \<Rightarrow> (ps_round s = 1 \<and> ps_window s = WindowReview \<or> ps_round s = 2 \<and> ps_window s = WindowReReview)
       \<and> ps_sent_at s \<noteq> None
   | Rework \<Rightarrow> ps_round s = 1 \<and> ps_window s = WindowRework \<and> ps_remarks s \<noteq> [] \<and> ps_sent_at s \<noteq> None
   | Resubmitted \<Rightarrow> ps_round s = 2 \<and> ps_window s = WindowReReview \<and> ps_sent_at s \<noteq> None
   | _ \<Rightarrow> (ps_round s = 1 \<or> ps_round s = 2) \<and> ps_window s = WindowNone \<and> ps_sent_at s \<noteq> None)"

definition well_formed :: "proc_state \<Rightarrow> bool" where
  "well_formed s = (chains (ps_kind s) \<noteq> None \<and> 2000 \<le> ps_year s \<and> ps_year s \<le> 2100
     \<and> window_ok s \<and> phase_ok s)"

lemmas apply_defs =
  apply_send_def apply_start_review_def apply_approve_def apply_request_rework_def
  apply_resubmit_def apply_dispute_def opened_step_def plain_step_def

lemma open_window_fields [simp]:
  "ps_kind (open_window w now d s) = ps_kind s" "ps_year (open_window w now d s) = ps_year s"
  "ps_status (open_window w now d s) = ps_status s" "ps_window (open_window w now d s) = w"
  "ps_round (open_window w now d s) = ps_round s" "ps_sent_at (open_window w now d s) = ps_sent_at s"
  "ps_sent_late (open_window w now d s) = ps_sent_late s"
  "ps_remarks (open_window w now d s) = ps_remarks s" "ps_lapsed_at (open_window w now d s) = ps_lapsed_at s"
  "ps_due (open_window w now d s) = format_date (date_of_day (last_day now d))"
  "ps_expires (open_window w now d s) = moscow_midnight (last_day now d + 1)"
  by (simp_all add: open_window_def calendar_deadline_def)

lemma close_window_fields [simp]:
  "ps_kind (close_window s) = ps_kind s" "ps_year (close_window s) = ps_year s"
  "ps_status (close_window s) = ps_status s" "ps_window (close_window s) = WindowNone"
  "ps_round (close_window s) = ps_round s" "ps_sent_at (close_window s) = ps_sent_at s"
  "ps_sent_late (close_window s) = ps_sent_late s" "ps_remarks (close_window s) = ps_remarks s"
  "ps_lapsed_at (close_window s) = ps_lapsed_at s"
  "ps_due (close_window s) = []" "ps_expires (close_window s) = zero_time"
  by (simp_all add: close_window_def)

lemma new_process_well_formed: "new_process k y = Inr s \<Longrightarrow> well_formed s"
  by (auto simp: new_process_def well_formed_def window_ok_def phase_ok_def split: if_splits)

text \<open>A successful action: the state it starts from, by the cases of the switch.\<close>

lemma apply_action_cases:
  assumes "apply_action s a now raw = Inr (t, e)"
  obtains
    (send) ch where "a = Send" "chains (ps_kind s) = Some ch" "apply_send s ch (trim_space raw) now = Inr (t, e)"
  | (start) "a = StartReview" "apply_start_review s (trim_space raw) now = Inr (t, e)"
  | (approve) "a = Approve" "apply_approve s (trim_space raw) now = Inr (t, e)"
  | (rework) ch where "a = RequestRework" "chains (ps_kind s) = Some ch"
      "apply_request_rework s ch (trim_space raw) now = Inr (t, e)"
  | (resubmit) ch where "a = Resubmit" "chains (ps_kind s) = Some ch"
      "apply_resubmit s ch (trim_space raw) now = Inr (t, e)"
  | (dispute) "a = Dispute" "apply_dispute s (trim_space raw) now = Inr (t, e)"
  using assms by (auto simp: apply_action_def Let_def split: if_splits option.splits action.splits)

lemma phase_ok_status:
  "ps_status s = Draft \<Longrightarrow> phase_ok s = (ps_round s = 0 \<and> ps_window s = WindowNone \<and> ps_sent_at s = None)"
  "ps_status s = Sent \<Longrightarrow> phase_ok s = (ps_round s = 1 \<and> ps_window s = WindowReview \<and> ps_sent_at s \<noteq> None)"
  "ps_status s = InReview \<Longrightarrow> phase_ok s = ((ps_round s = 1 \<and> ps_window s = WindowReview
     \<or> ps_round s = 2 \<and> ps_window s = WindowReReview) \<and> ps_sent_at s \<noteq> None)"
  "ps_status s = Rework \<Longrightarrow> phase_ok s = (ps_round s = 1 \<and> ps_window s = WindowRework
     \<and> ps_remarks s \<noteq> [] \<and> ps_sent_at s \<noteq> None)"
  "ps_status s = Resubmitted \<Longrightarrow> phase_ok s = (ps_round s = 2 \<and> ps_window s = WindowReReview \<and> ps_sent_at s \<noteq> None)"
  "terminal (ps_status s) \<Longrightarrow> phase_ok s = ((ps_round s = 1 \<or> ps_round s = 2) \<and> ps_window s = WindowNone
     \<and> ps_sent_at s \<noteq> None)"
  by (auto simp: phase_ok_def terminal_def)

lemma phase_ok_open:
  "phase_ok s \<Longrightarrow> ps_status s = Sent \<or> ps_status s = InReview \<or> ps_status s = Resubmitted \<Longrightarrow>
     (ps_round s = 1 \<or> ps_round s = 2) \<and> ps_sent_at s \<noteq> None
     \<and> (ps_window s = WindowReview \<or> ps_window s = WindowReReview)"
  by (auto simp: phase_ok_def)

lemma window_ok_open: "w \<noteq> WindowNone \<Longrightarrow> window_ok (open_window w now d s)"
  by (simp add: window_ok_def)

lemma window_ok_close: "window_ok (close_window s)"
  by (simp add: window_ok_def)

lemma window_ok_cong:
  "ps_window s = ps_window t \<Longrightarrow> ps_due s = ps_due t \<Longrightarrow> ps_expires s = ps_expires t \<Longrightarrow> window_ok s = window_ok t"
  by (simp add: window_ok_def)

lemma apply_action_well_formed:
  assumes "apply_action s a now raw = Inr (t, e)" "well_formed s"
  shows "well_formed t"
proof -
  have s: "chains (ps_kind s) \<noteq> None" "2000 \<le> ps_year s" "ps_year s \<le> 2100" "window_ok s" "phase_ok s"
    using assms(2) by (simp_all add: well_formed_def)
  show ?thesis using assms(1)
  proof (cases rule: apply_action_cases)
    case (send ch)
    then show ?thesis using s
      by (auto simp: apply_send_def opened_step_def well_formed_def window_ok_open phase_ok_status Let_def
          split: if_splits)
  next
    case start
    then show ?thesis using s
      by (auto simp: apply_start_review_def plain_step_def well_formed_def phase_ok_status window_ok_def
          split: if_splits)
  next
    case approve
    then have t: "t = close_window (s\<lparr>ps_status := Approved\<rparr>)"
      "ps_status s = Sent \<or> ps_status s = InReview \<or> ps_status s = Resubmitted"
      by (auto simp: apply_approve_def plain_step_def split: if_splits)
    then show ?thesis using s phase_ok_open [OF s(5) t(2)]
      by (simp add: well_formed_def window_ok_close phase_ok_status)
  next
    case (rework ch)
    then have t: "t = open_window WindowRework now (ch_rework ch)
        (s\<lparr>ps_status := Rework, ps_remarks := trim_space raw\<rparr>)" "trim_space raw \<noteq> []"
      "ps_status s = Sent \<or> ps_status s = InReview \<or> ps_status s = Resubmitted" "ps_round s = 1"
      by (auto simp: apply_request_rework_def opened_step_def split: if_splits)
    then show ?thesis using s phase_ok_open [OF s(5) t(3)]
      by (simp add: well_formed_def window_ok_open phase_ok_status)
  next
    case (resubmit ch)
    then show ?thesis using s
      by (auto simp: apply_resubmit_def opened_step_def well_formed_def window_ok_open phase_ok_status
          split: if_splits)
  next
    case dispute
    then have t: "t = close_window (s\<lparr>ps_status := Disputed\<rparr>)"
      "ps_status s = Sent \<or> ps_status s = InReview \<or> ps_status s = Resubmitted"
      by (auto simp: apply_dispute_def plain_step_def split: if_splits)
    then show ?thesis using s phase_ok_open [OF s(5) t(2)]
      by (simp add: well_formed_def window_ok_close phase_ok_status)
  qed
qed

text \<open>What silence does: nothing, a lapse of the rework window, or approval.\<close>

lemma expire_if_due_cases:
  assumes "expire_if_due s now = (t, e)"
  obtains
    (quiet) "t = s" "e = None"
  | (lapse) "ps_window s = WindowRework" "ps_lapsed_at s = None" "deadline_expired (ps_expires s) now"
      "\<not> terminal (ps_status s)" "t = s\<lparr>ps_lapsed_at := Some now\<rparr>"
      "e = Some (system_event ReworkLapsed s (ps_status s) (rework_expired_text (ps_due s)) now)"
  | (silence) "ps_window s = WindowReview \<or> ps_window s = WindowReReview" "deadline_expired (ps_expires s) now"
      "\<not> terminal (ps_status s)" "t = close_window (s\<lparr>ps_status := DefaultApproved\<rparr>)"
      "e = Some (system_event DefaultApprove s DefaultApproved (review_expired_text (ps_due s)) now)"
proof -
  note def = assms [unfolded expire_if_due_def, symmetric]
  consider "terminal (ps_status s) \<or> ps_window s = WindowNone \<or> \<not> deadline_expired (ps_expires s) now"
    | "ps_window s = WindowRework" "ps_lapsed_at s \<noteq> None" "deadline_expired (ps_expires s) now"
        "\<not> terminal (ps_status s)"
    | "ps_window s = WindowRework" "ps_lapsed_at s = None" "deadline_expired (ps_expires s) now"
        "\<not> terminal (ps_status s)"
    | "ps_window s = WindowReview \<or> ps_window s = WindowReReview" "deadline_expired (ps_expires s) now"
        "\<not> terminal (ps_status s)"
    using window.exhaust by blast
  then show ?thesis
  proof cases
    case 1
    then show ?thesis using def by (intro quiet) simp_all
  next
    case 2
    then show ?thesis using def by (intro quiet) simp_all
  next
    case 3
    then show ?thesis using def by (intro lapse) simp_all
  next
    case 4
    then show ?thesis using def by (intro silence) auto
  qed
qed

lemma expire_quiet: "expire_if_due s now = (t, None) \<Longrightarrow> t = s"
  by (erule expire_if_due_cases) simp_all

lemma expire_event_system: "expire_if_due s now = (t, Some e) \<Longrightarrow> ev_system e"
  by (erule expire_if_due_cases) (simp_all add: system_event_def)

lemma phase_ok_review:
  "phase_ok s \<Longrightarrow> ps_window s = WindowReview \<or> ps_window s = WindowReReview \<Longrightarrow>
     (ps_round s = 1 \<or> ps_round s = 2) \<and> ps_sent_at s \<noteq> None"
  by (auto simp: phase_ok_def split: status.splits)

lemma expire_if_due_well_formed:
  assumes "expire_if_due s now = (t, e)" "well_formed s"
  shows "well_formed t"
  using assms(1)
proof (cases rule: expire_if_due_cases)
  case silence
  then show ?thesis using assms(2) phase_ok_review [of s]
    by (auto simp: well_formed_def window_ok_close phase_ok_status)
next
  case lapse
  have "phase_ok (s\<lparr>ps_lapsed_at := Some now\<rparr>) = phase_ok s"
    "window_ok (s\<lparr>ps_lapsed_at := Some now\<rparr>) = window_ok s"
    by (cases "ps_status s"; simp add: phase_ok_def window_ok_def)+
  then show ?thesis using assms(2) lapse(5) by (simp add: well_formed_def)
qed (use assms in simp)

end
