(* ===== verification/RegulatoryLaws.thy ===== *)
theory RegulatoryLaws
  imports Regulatory
begin

text \<open>
  The laws of the regulatory process: when silence approves, what the final statuses allow, how
  long a history can get, what a lapsed rework window leaves possible. The histories are a step
  relation over actions and silence, the invariants are proved by induction over it.
\<close>

section \<open>Single steps\<close>

lemma deadline_of_midnight: "deadline_expired (moscow_midnight d) now \<longleftrightarrow> d \<le> moscow_day now"
  by (simp add: deadline_expired_def not_less moscow_midnight_le_iff)

lemma send_result:
  assumes "apply_action s Send now raw = Inr (t, e)" "chains (ps_kind s) = Some ch"
  shows "ps_status t = Sent \<and> ps_window t = WindowReview \<and> ps_due t = format_date (date_of_day (last_day now (ch_review ch)))
    \<and> ps_expires t = moscow_midnight (last_day now (ch_review ch) + 1) \<and> ev_due e = ps_due t"
  using assms by (auto simp: apply_action_def apply_send_def opened_step_def event_of_def Let_def split: if_splits)

lemma resubmit_result:
  assumes "apply_action s Resubmit now raw = Inr (t, e)" "chains (ps_kind s) = Some ch"
  shows "ps_status t = Resubmitted \<and> ps_window t = WindowReReview
    \<and> ps_due t = format_date (date_of_day (last_day now (ch_rereview ch)))
    \<and> ps_expires t = moscow_midnight (last_day now (ch_rereview ch) + 1) \<and> ev_due e = ps_due t"
  using assms by (auto simp: apply_action_def apply_resubmit_def opened_step_def event_of_def Let_def split: if_splits)

lemma silence_iff:
  assumes "ps_window t = WindowReview \<or> ps_window t = WindowReReview" "\<not> terminal (ps_status t)"
  shows "ps_status (fst (expire_if_due t later)) = DefaultApproved \<longleftrightarrow> deadline_expired (ps_expires t) later"
  using assms by (auto simp: expire_if_due_def terminal_def split: window.splits)

text \<open>
  C10: approval by silence follows the calendar: after a list is sent, or sent again, at any hour of a
  Moscow day, the window closes at the end of the last of the calendar days of the chain of its
  kind, the day of sending not counted; the process is approved by silence at exactly the
  moments of later days, and the recorded due date is that last day.
\<close>

theorem silence_after_last_day:
  assumes "apply_action s a now raw = Inr (t, e)" "chains (ps_kind s) = Some ch"
    and "a = Send \<and> days = ch_review ch \<or> a = Resubmit \<and> days = ch_rereview ch"
  shows "ps_due t = format_date (date_of_day (moscow_day now + days)) \<and> ev_due e = ps_due t
    \<and> (ps_status (fst (expire_if_due t later)) = DefaultApproved \<longleftrightarrow> moscow_day now + days < moscow_day later)"
proof -
  have "ps_due t = format_date (date_of_day (last_day now days)) \<and> ev_due e = ps_due t
    \<and> ps_expires t = moscow_midnight (last_day now days + 1) \<and> \<not> terminal (ps_status t)
    \<and> (ps_window t = WindowReview \<or> ps_window t = WindowReReview)"
    using assms(3)
  proof
    assume "a = Send \<and> days = ch_review ch"
    then show ?thesis using send_result [of s now raw t e ch] assms(1,2) by simp
  next
    assume "a = Resubmit \<and> days = ch_rereview ch"
    then show ?thesis using resubmit_result [of s now raw t e ch] assms(1,2) by simp
  qed
  then show ?thesis
    using silence_iff [of t later] by (auto simp: last_day_def deadline_of_midnight)
qed

definition draft_example :: proc_state where
  "draft_example = \<lparr>ps_kind = Agreement, ps_year = 2026, ps_status = Draft, ps_window = WindowNone, ps_due = [],
     ps_expires = zero_time, ps_round = 0, ps_sent_at = None, ps_sent_late = False, ps_remarks = [],
     ps_lapsed_at = None\<rparr>"

definition sent_example :: proc_state where
  "sent_example = open_window WindowReview 0 14
     (draft_example\<lparr>ps_sent_late := False, ps_sent_at := Some 0, ps_status := Sent, ps_round := 1\<rparr>)"

lemma send_example:
  "apply_action draft_example Send 0 [] = Inr (sent_example, event_of Send draft_example [] (ps_due sent_example) 0 sent_example)"
  by (simp add: apply_action_def apply_send_def draft_example_def sent_example_def chain_of_def opened_step_def
      trim_space_def Let_def)

theorem silence_after_last_day_witness:
  "ps_due sent_example = format_date (date_of_day (moscow_day 0 + 14))
    \<and> (ps_status (fst (expire_if_due sent_example 1286000000000000)) = DefaultApproved
         \<longleftrightarrow> moscow_day 0 + 14 < moscow_day 1286000000000000)"
  using silence_after_last_day [OF send_example, of "chain_of 14 10 10" 14]
  by (simp add: draft_example_def chain_of_def)

text \<open>
  A final status is final: no action, known or unknown, is accepted, silence changes nothing and
  no action is offered.
\<close>

theorem terminal_absorbing:
  assumes "terminal (ps_status s)"
  shows "apply_action s a now raw = Inl InvalidTransition \<and> expire_if_due s now = (s, None) \<and> allowed s now = []"
  using assms by (simp add: apply_action_def expire_if_due_def allowed_def)

theorem terminal_absorbing_witness:
  "allowed (draft_example\<lparr>ps_status := Disputed\<rparr>) 0 = []"
  using terminal_absorbing [of "draft_example\<lparr>ps_status := Disputed\<rparr>"] by (simp add: terminal_def)

text \<open>
  Silence acts once: after an expiry has been recorded, at whatever later or earlier moment it is
  asked again, nothing more happens.
\<close>

theorem expiry_idempotent:
  assumes "expire_if_due s now = (t, Some e)"
  shows "expire_if_due t later = (t, None)"
  using assms by (cases rule: expire_if_due_cases) (auto simp: expire_if_due_def)

lemma sent_example_expires:
  "expire_if_due sent_example (moscow_midnight (moscow_day 0 + 15)) =
    (close_window (sent_example\<lparr>ps_status := DefaultApproved\<rparr>),
     Some (system_event DefaultApprove sent_example DefaultApproved (review_expired_text (ps_due sent_example))
       (moscow_midnight (moscow_day 0 + 15))))"
  by (simp add: expire_if_due_def sent_example_def deadline_expired_def last_day_def add.commute)

theorem expiry_idempotent_witness:
  "snd (expire_if_due (close_window (sent_example\<lparr>ps_status := DefaultApproved\<rparr>)) 0) = None"
  using expiry_idempotent [OF sent_example_expires, of 0] by simp

section \<open>Histories\<close>

text \<open>A step is an accepted action or an event of silence; a history lists the events of the steps.\<close>

inductive proc_step :: "proc_state \<Rightarrow> event \<Rightarrow> proc_state \<Rightarrow> bool" where
  acted: "apply_action s a now raw = Inr (t, e) \<Longrightarrow> proc_step s e t"
| silent: "expire_if_due s now = (t, Some e) \<Longrightarrow> proc_step s e t"

inductive history :: "proc_state \<Rightarrow> event list \<Rightarrow> proc_state \<Rightarrow> bool" for s where
  history_start: "history s [] s"
| history_step: "history s es t \<Longrightarrow> proc_step t e u \<Longrightarrow> history s (es @ [e]) u"

inductive_cases proc_stepE: "proc_step s e t"
inductive_simps history_snoc: "history s (es @ [e]) u"

text \<open>How far a process has come: every step but a lapse moves it forward.\<close>

definition rank :: "proc_state \<Rightarrow> nat" where
  "rank s = (case ps_status s of Draft \<Rightarrow> 0 | Sent \<Rightarrow> 1 | InReview \<Rightarrow> (if ps_round s = 1 then 2 else 5)
     | Rework \<Rightarrow> 3 | Resubmitted \<Rightarrow> 4 | _ \<Rightarrow> 6)"

definition lapses :: "proc_state \<Rightarrow> nat" where
  "lapses s = (if ps_lapsed_at s = None then 0 else 1)"

lemma rank_status:
  "ps_status s = Draft \<Longrightarrow> rank s = 0" "ps_status s = Sent \<Longrightarrow> rank s = 1" "ps_status s = Rework \<Longrightarrow> rank s = 3"
  "ps_status s = Resubmitted \<Longrightarrow> rank s = 4" "terminal (ps_status s) \<Longrightarrow> rank s = 6"
  "ps_status s = InReview \<Longrightarrow> rank s = (if ps_round s = 1 then 2 else 5)"
  by (auto simp: rank_def terminal_def)

lemma rank_less: "\<not> terminal (ps_status s) \<Longrightarrow> rank s < 6" "rank s \<le> 6"
  by (auto simp: rank_def terminal_def split: status.splits)

lemma action_moves:
  assumes "apply_action s a now raw = Inr (t, e)" "well_formed s"
  shows "ev_from e = ps_status s \<and> ev_to e = ps_status t \<and> lapses t = lapses s \<and> rank s < rank t
    \<and> (ev_action e = RequestRework \<longrightarrow> rank s < 3 \<and> rank t = 3)"
  using assms(1)
proof (cases rule: apply_action_cases)
  case (send ch)
  then show ?thesis
    by (auto simp: apply_send_def opened_step_def event_of_def lapses_def rank_status Let_def split: if_splits)
next
  case start
  have "ps_status s = Resubmitted \<Longrightarrow> ps_round s = 2" "ps_status s = Sent \<Longrightarrow> ps_round s = 1"
    using assms(2) by (simp_all add: well_formed_def phase_ok_status)
  with start show ?thesis
    by (auto simp: apply_start_review_def plain_step_def event_of_def lapses_def rank_status split: if_splits)
next
  case approve
  then have "\<not> terminal (ps_status s)"
    by (auto simp: apply_approve_def split: if_splits)
  from rank_less(1) [OF this] approve show ?thesis
    by (auto simp: apply_approve_def plain_step_def event_of_def lapses_def rank_status split: if_splits)
next
  case (rework ch)
  then show ?thesis
    by (auto simp: apply_request_rework_def opened_step_def event_of_def lapses_def rank_status split: if_splits)
next
  case (resubmit ch)
  then show ?thesis
    by (auto simp: apply_resubmit_def opened_step_def event_of_def lapses_def rank_status split: if_splits)
next
  case dispute
  then have "\<not> terminal (ps_status s)"
    by (auto simp: apply_dispute_def split: if_splits)
  from rank_less(1) [OF this] dispute show ?thesis
    by (auto simp: apply_dispute_def plain_step_def event_of_def lapses_def rank_status split: if_splits)
qed

lemma silence_moves:
  assumes "expire_if_due s now = (t, Some e)"
  shows "ev_from e = ps_status s \<and> ev_to e = ps_status t \<and> ev_action e \<noteq> RequestRework
    \<and> rank s + lapses s < rank t + lapses t \<and> rank s \<le> rank t"
  using assms
proof (cases rule: expire_if_due_cases)
  case lapse
  then show ?thesis by (auto simp: system_event_def lapses_def rank_def)
next
  case silence
  then show ?thesis using rank_less(1) [of s] by (auto simp: system_event_def lapses_def rank_status)
qed simp

lemma step_moves:
  assumes "proc_step s e t" "well_formed s"
  shows "well_formed t" "ev_from e = ps_status s" "ev_to e = ps_status t"
    "rank s + lapses s < rank t + lapses t" "rank s \<le> rank t"
    "ev_action e = RequestRework \<Longrightarrow> rank s < 3 \<and> rank t = 3"
proof -
  have "well_formed t \<and> ev_from e = ps_status s \<and> ev_to e = ps_status t
    \<and> rank s + lapses s < rank t + lapses t \<and> rank s \<le> rank t
    \<and> (ev_action e = RequestRework \<longrightarrow> rank s < 3 \<and> rank t = 3)"
    using assms(1)
  proof (rule proc_stepE)
    fix a now raw assume a: "apply_action s a now raw = Inr (t, e)"
    show ?thesis using action_moves [OF a assms(2)] apply_action_well_formed [OF a assms(2)] by simp
  next
    fix now assume x: "expire_if_due s now = (t, Some e)"
    show ?thesis using silence_moves [OF x] expire_if_due_well_formed [OF x assms(2)] by simp
  qed
  then show "well_formed t" "ev_from e = ps_status s" "ev_to e = ps_status t"
    "rank s + lapses s < rank t + lapses t" "rank s \<le> rank t"
    "ev_action e = RequestRework \<Longrightarrow> rank s < 3 \<and> rank t = 3" by simp_all
qed

definition reworks :: "event list \<Rightarrow> nat" where
  "reworks es = length (filter (\<lambda>e. ev_action e = RequestRework) es)"

text \<open>The events of a history join up: each starts at the status the one before it reached.\<close>

fun chained :: "status \<Rightarrow> event list \<Rightarrow> status \<Rightarrow> bool" where
  "chained a [] b = (a = b)"
| "chained a (e # es) b = (ev_from e = a \<and> chained (ev_to e) es b)"

lemma chained_snoc: "chained a (es @ [e]) b \<longleftrightarrow> chained a es (ev_from e) \<and> ev_to e = b"
  by (induction es arbitrary: a) auto

lemma history_facts:
  assumes "history s es t" "well_formed s" "rank s = 0" "lapses s = 0"
  shows "well_formed t \<and> length es \<le> rank t + lapses t \<and> reworks es \<le> (if 3 \<le> rank t then 1 else 0)
    \<and> chained (ps_status s) es (ps_status t)"
  using assms(1)
proof induction
  case history_start
  then show ?case using assms by (simp add: reworks_def)
next
  case (history_step es t e u)
  then have t: "well_formed t" by simp
  note m = step_moves [OF history_step(2) t]
  show ?case using history_step(3) m by (auto simp: reworks_def chained_snoc split: if_splits)
qed

lemma bounded_history_facts:
  assumes "new_process k year = Inr s" "history s es t"
  shows "length es \<le> 7 \<and> reworks es \<le> 1 \<and> well_formed t \<and> chained Draft es (ps_status t)"
proof -
  have s: "well_formed s" "ps_status s = Draft" "lapses s = 0"
    using assms(1) new_process_well_formed [OF assms(1)]
    by (auto simp: new_process_def lapses_def split: if_splits)
  from history_facts [OF assms(2) s(1) rank_status(1) [OF s(2)] s(3)] show ?thesis
    using rank_less(2) [of t] s(2) by (auto simp: lapses_def split: if_splits)
qed

text \<open>
  C11: from its creation a process goes through at most seven events, among them at most one return
  for rework; at every point it is well formed (status, round, window and deadline agree), and
  the statuses of its events join up from draft to its present status.
\<close>

theorem bounded_history:
  assumes "new_process k year = Inr s" "history s es t"
  shows "length es \<le> 7 \<and> reworks es \<le> 1 \<and> well_formed t \<and> chained Draft es (ps_status t)"
  using bounded_history_facts [OF assms] .

lemma draft_example_new: "new_process Agreement 2026 = Inr draft_example"
  by (simp add: new_process_def draft_example_def)

theorem bounded_history_witness:
  "\<exists>es. history draft_example es sent_example \<and> length es \<le> 7 \<and> reworks es \<le> 1"
  using bounded_history [OF draft_example_new history_step [OF history_start acted [OF send_example]]]
    history_step [OF history_start acted [OF send_example]] by blast

section \<open>Actions on offer\<close>

text \<open>The reason only matters for being empty or not.\<close>

lemma apply_action_reason:
  assumes "trim_space r \<noteq> []" "trim_space q \<noteq> []"
  shows "succeeds (apply_action s a now r) = succeeds (apply_action s a now q)"
  using assms by (cases a) (auto simp: apply_action_def apply_defs Let_def split: option.splits)

lemma probe_reason_filled: "trim_space probe_reason \<noteq> []"
  by code_simp

text \<open>
  C15: the actions offered are exactly the ones the process would accept with some reason given, and
  none that it accepts is withheld.
\<close>

theorem allowed_exact:
  assumes "trim_space reason \<noteq> []"
  shows "a \<in> set (allowed s now) \<longleftrightarrow> succeeds (apply_action s a now reason)"
proof -
  have "a \<in> set actions" if "succeeds (apply_action s a now reason)"
    using that by (cases a) (auto simp: apply_action_def actions_def Let_def split: if_splits option.splits)
  moreover have "\<not> succeeds (apply_action s a now reason)" if "terminal (ps_status s)"
    using that by (simp add: apply_action_def)
  ultimately show ?thesis
    using apply_action_reason [OF assms probe_reason_filled, of s a now] by (auto simp: allowed_def)
qed

theorem allowed_exact_witness: "Send \<in> set (allowed draft_example 0)"
proof -
  have "trim_space ''ok'' \<noteq> []" by code_simp
  moreover have "succeeds (apply_action draft_example Send 0 ''ok'')"
    by (simp add: apply_action_def apply_send_def draft_example_def Let_def)
  ultimately show ?thesis using allowed_exact [of "''ok''" Send draft_example 0] by blast
qed

text \<open>
  C16: a process whose rework window has passed is stuck: it stays in rework, no action is accepted at
  any later moment, and silence never changes its status.
\<close>

theorem lapsed_rework_stuck:
  assumes "ps_status s = Rework" "ps_window s = WindowRework" "ps_expires s \<le> now"
  shows "allowed s now = [] \<and> \<not> succeeds (apply_action s a now raw)
    \<and> ps_status (fst (expire_if_due s now)) = Rework"
proof -
  have none: "\<not> succeeds (apply_action s b now r)" for b r
    using assms by (cases b)
      (auto simp: apply_action_def apply_defs deadline_expired_def Let_def split: option.splits)
  then have "allowed s now = []" by (simp add: allowed_def)
  moreover have "ps_status (fst (expire_if_due s now)) = Rework"
    using assms by (simp add: expire_if_due_def)
  ultimately show ?thesis using none by blast
qed

definition rework_example :: proc_state where
  "rework_example = open_window WindowRework 0 10
     (sent_example\<lparr>ps_status := Rework, ps_remarks := ''fix''\<rparr>)"

theorem lapsed_rework_stuck_witness: "allowed rework_example (ps_expires rework_example) = []"
  using lapsed_rework_stuck [of rework_example "ps_expires rework_example"] by (simp add: rework_example_def)

end
