(* ===== verification/Timestamps.thy ===== *)
theory Timestamps
  imports GoTime GoNumber
begin

text \<open>
  What a \<open>timestamptz\<close> column keeps of a \<open>time.Time\<close>. The driver (\<open>lib/pq\<close>) sends the nine digits of
  the nanoseconds; PostgreSQL reads the fraction of the second as a binary64 number, multiplies it
  by a million and rounds to a whole number of microseconds (ties to even). The theory is about
  the value only; an instant is a number of nanoseconds since 1970.
\<close>

definition second_ns :: int where
  "second_ns = 1000000000"

definition microseconds :: "int \<Rightarrow> int" where
  "microseconds ns = round_even (fmul (f64 (of_int ns / 1000000000)) 1000000)"

definition stored_instant :: "int \<Rightarrow> int" where
  "stored_instant t = t div second_ns * second_ns + microseconds (t mod second_ns) * 1000"

section \<open>The error of one rounding\<close>

lemma round_even_near: "\<bar>of_int (round_even x) - x\<bar> \<le> 1/2"
proof -
  have "of_int \<lfloor>x\<rfloor> \<le> x" "x < of_int \<lfloor>x\<rfloor> + 1" by linarith+
  then show ?thesis by (auto simp: round_even_def Let_def abs_le_iff)
qed

lemma round_even_close:
  assumes "\<bar>x - of_int k\<bar> < 1/2"
  shows "round_even x = k"
proof -
  have "\<bar>of_int (round_even x) - (of_int k :: rat)\<bar> < 1"
    using round_even_near [of x] assms by linarith
  then have "\<bar>of_int (round_even x - k) :: rat\<bar> < 1" by simp
  then show ?thesis by linarith
qed

lemma f64_near:
  assumes "0 < q"
  shows "\<bar>f64 q - q\<bar> \<le> q / 2 ^ 53"
proof -
  let ?u = "pow2 (exponent q - 52)"
  have "?u * 2 ^ 52 = pow2 (exponent q)" using pow2_add_nat [of "exponent q - 52" 52] by simp
  then have u: "?u \<le> q / 2 ^ 52" using exponent_lower [OF assms] by (simp add: field_simps)
  have "f64 q = of_int (round_even (q / ?u)) * ?u" using assms by (simp add: f64_def Let_def)
  then have "f64 q - q = (of_int (round_even (q / ?u)) - q / ?u) * ?u" by (simp add: algebra_simps)
  then have "\<bar>f64 q - q\<bar> = \<bar>of_int (round_even (q / ?u)) - q / ?u\<bar> * ?u" by (simp add: abs_mult)
  also have "\<dots> \<le> 1/2 * ?u" using round_even_near [of "q / ?u"] by (intro mult_right_mono) auto
  also have "\<dots> \<le> q / 2 ^ 53" using u by (simp add: field_simps)
  finally show ?thesis .
qed

section \<open>Whole microseconds are kept\<close>

lemma le_add_of_abs: "\<bar>x - y\<bar> \<le> z \<Longrightarrow> x \<le> y + (z :: rat)"
  by linarith

lemma abs_chain: "\<bar>x - y\<bar> \<le> 1/8 \<Longrightarrow> \<bar>y - z\<bar> \<le> 1/8 \<Longrightarrow> \<bar>x - z\<bar> < (1/2 :: rat)"
  by linarith

lemma microseconds_exact:
  assumes "0 \<le> k" "k < 1000000"
  shows "microseconds (k * 1000) = k"
proof (cases "k = 0")
  case False
  let ?q = "of_int k / 1000000 :: rat"
  let ?b = "f64 ?q * 1000000"
  have q: "0 < ?q" "of_int (k * 1000) / 1000000000 = ?q" using assms False by simp_all
  have k: "(0::rat) < of_int k" "(of_int k :: rat) < 1000000" using assms False by simp_all
  have "\<bar>?b - of_int k\<bar> = \<bar>f64 ?q - ?q\<bar> * 1000000" by (simp add: abs_if algebra_simps)
  also have "\<dots> \<le> of_int k / 2 ^ 53" using f64_near [OF q(1)] by simp
  finally have b: "\<bar>?b - of_int k\<bar> \<le> of_int k / 2 ^ 53" .
  have "0 < ?b" using q(1) by simp
  from f64_near [OF this] have c: "\<bar>f64 ?b - ?b\<bar> \<le> ?b / 2 ^ 53" .
  have "?b \<le> of_int k + of_int k / 2 ^ 53" using b by (rule le_add_of_abs)
  also have "\<dots> \<le> of_int k + of_int k" using k(1) by simp
  also have "\<dots> \<le> 2000000" using k(2) by simp
  finally have "?b \<le> 2000000" .
  with c have "\<bar>f64 ?b - ?b\<bar> \<le> 2000000 / 2 ^ 53"
    by (meson divide_right_mono order_trans zero_le_power zero_le_numeral)
  also have "\<dots> \<le> 1/8" by simp
  finally have fine: "\<bar>f64 ?b - ?b\<bar> \<le> 1/8" .
  have "of_int k / 2 ^ 53 \<le> (1000000 / 2 ^ 53 :: rat)" using k(2) by (simp add: divide_right_mono)
  also have "\<dots> \<le> 1/8" by simp
  finally have "\<bar>?b - of_int k\<bar> \<le> 1/8" by (rule order_trans [OF b])
  with fine have "\<bar>f64 ?b - of_int k\<bar> < 1/2" by (rule abs_chain)
  then show ?thesis unfolding microseconds_def q(2) fmul_def by (rule round_even_close)
qed (simp add: microseconds_def fmul_def round_even_def f64_def)

lemma microseconds_nonneg: "0 \<le> ns \<Longrightarrow> 0 \<le> microseconds ns"
  using round_even_ge [of 0 "fmul (f64 (of_int ns / 1000000000)) 1000000"] by (simp add: microseconds_def fmul_def)

lemma stored_instant_whole:
  assumes "t mod 1000 = 0"
  shows "stored_instant t = t"
proof -
  obtain m where m: "t = 1000 * m" using assms by auto
  have "t mod second_ns = m mod 1000000 * 1000"
    using mult_mod_right [of 1000 m 1000000] by (simp add: second_ns_def m mult.commute)
  then have "stored_instant t = t div second_ns * second_ns + m mod 1000000 * 1000"
    by (simp add: stored_instant_def microseconds_exact)
  then show ?thesis using div_mult_mod_eq [of t second_ns] \<open>t mod second_ns = m mod 1000000 * 1000\<close> by linarith
qed

lemma stored_instant_multiple: "stored_instant t mod 1000 = 0"
proof -
  have "stored_instant t = 1000 * (t div second_ns * 1000000 + microseconds (t mod second_ns))"
    by (simp add: stored_instant_def second_ns_def algebra_simps)
  then show ?thesis by simp
qed

lemma stored_instant_idem [simp]: "stored_instant (stored_instant t) = stored_instant t"
  by (rule stored_instant_whole [OF stored_instant_multiple])

text \<open>A moment at or after a whole second is stored at or after it.\<close>

lemma stored_instant_after:
  assumes "s mod second_ns = 0" "s \<le> t"
  shows "s \<le> stored_instant t"
proof -
  have pos: "0 < second_ns" by (simp add: second_ns_def)
  have "s div second_ns \<le> t div second_ns" using assms(2) pos by (rule zdiv_mono1)
  then have "s div second_ns * second_ns \<le> t div second_ns * second_ns" using pos by simp
  moreover have "0 \<le> microseconds (t mod second_ns)" using pos by (intro microseconds_nonneg) simp
  ultimately show ?thesis
    using div_mult_mod_eq [of s second_ns] assms(1) by (simp add: stored_instant_def)
qed

end
