(* ===== verification/RegulatoryStore.thy ===== *)
theory RegulatoryStore
  imports RegulatoryLaws Timestamps "HOL-Library.Multiset"
begin

text \<open>
  \<open>backend/internal/regulatory/store.go\<close>, \<open>worker.go\<close>: processes and their events in the database. A
  row holds the columns of \<open>regulatory_processes\<close> with the CHECK constraints and foreign keys of
  migration 0807, the event table is append-only, and each operation is one transaction: it returns
  the database it leaves and its result. The columns \<open>created_at\<close>, \<open>created_by\<close> and \<open>updated_at\<close>, which
  nothing reads back into the state, and failures of the connection are outside. Agreements and
  users are the identifiers a foreign key may name; an identifier is the text of a uuid as the
  database prints it. A generated identifier and the clock of each transaction (\<open>now()\<close>, the default
  of \<open>occurred_at\<close>) are arguments, apart from the time \<open>now\<close> that the program takes.
\<close>

section \<open>Rows\<close>

record process_row =
  rw_kind :: kind
  rw_agreement :: string
  rw_year :: int
  rw_status :: status
  rw_window :: "window option"
  rw_due :: "string option"
  rw_expires :: "instant option"
  rw_round :: nat
  rw_sent_at :: "instant option"
  rw_sent_late :: bool
  rw_remarks :: "string option"
  rw_lapsed_at :: "instant option"

text \<open>\<open>scanProcess\<close>: the state read from a row, with its COALESCE of missing columns.\<close>

definition scan_state :: "process_row \<Rightarrow> proc_state" where
  "scan_state r = \<lparr>ps_kind = rw_kind r, ps_year = rw_year r, ps_status = rw_status r,
     ps_window = (case rw_window r of None \<Rightarrow> WindowNone | Some w \<Rightarrow> w),
     ps_due = (case rw_due r of None \<Rightarrow> [] | Some d \<Rightarrow> d),
     ps_expires = (case rw_expires r of None \<Rightarrow> zero_time | Some t \<Rightarrow> t),
     ps_round = rw_round r, ps_sent_at = rw_sent_at r, ps_sent_late = rw_sent_late r,
     ps_remarks = (case rw_remarks r of None \<Rightarrow> [] | Some s \<Rightarrow> s), ps_lapsed_at = rw_lapsed_at r\<rparr>"

text \<open>
  The columns that \<open>persist\<close> writes: the window columns together, an empty remark as NULL, and the
  time stamps as their columns keep them, in microseconds.
\<close>

definition update_row :: "proc_state \<Rightarrow> process_row \<Rightarrow> process_row" where
  "update_row s r = r\<lparr>rw_status := ps_status s,
     rw_window := (if ps_window s = WindowNone then None else Some (ps_window s)),
     rw_due := (if ps_window s = WindowNone then None else Some (ps_due s)),
     rw_expires := (if ps_window s = WindowNone then None else Some (stored_instant (ps_expires s))),
     rw_round := ps_round s, rw_sent_at := map_option stored_instant (ps_sent_at s), rw_sent_late := ps_sent_late s,
     rw_remarks := (if ps_remarks s = [] then None else Some (ps_remarks s)),
     rw_lapsed_at := map_option stored_instant (ps_lapsed_at s)\<rparr>"

text \<open>The CHECK constraints of the table.\<close>

definition row_checks :: "process_row \<Rightarrow> bool" where
  "row_checks r = ((\<forall>k. rw_kind r \<noteq> OtherKind k) \<and> 2000 \<le> rw_year r \<and> rw_year r \<le> 2100 \<and> rw_round r \<le> 2
     \<and> rw_window r \<noteq> Some WindowNone
     \<and> (rw_window r = None \<longleftrightarrow> rw_due r = None) \<and> (rw_window r = None \<longleftrightarrow> rw_expires r = None)
     \<and> (terminal (rw_status r) \<longrightarrow> rw_window r = None)
     \<and> (rw_status r = Draft \<longleftrightarrow> rw_round r = 0))"

text \<open>The same, computed.\<close>

fun known_kind :: "kind \<Rightarrow> bool" where
  "known_kind (OtherKind _) = False"
| "known_kind _ = True"

definition row_checks_hold :: "process_row \<Rightarrow> bool" where
  "row_checks_hold r = (known_kind (rw_kind r) \<and> 2000 \<le> rw_year r \<and> rw_year r \<le> 2100 \<and> rw_round r \<le> 2
     \<and> rw_window r \<noteq> Some WindowNone
     \<and> (rw_window r = None) = (rw_due r = None) \<and> (rw_window r = None) = (rw_expires r = None)
     \<and> (terminal (rw_status r) \<longrightarrow> rw_window r = None)
     \<and> (rw_status r = Draft) = (rw_round r = 0))"

lemma row_checks_computed: "row_checks r \<longleftrightarrow> row_checks_hold r"
  by (cases "rw_kind r") (auto simp: row_checks_def row_checks_hold_def)

record stored_event =
  se_process :: string
  se_event :: event
  se_actor :: "string option"

record reg_db =
  db_rows :: "(string \<times> process_row) list"
  db_events :: "stored_event list"
  db_users :: "string list"
  db_agreements :: "string list"

datatype store_error =
    NotFound
  | CheckViolation
  | UnknownReference
  | DuplicateKey
  | BadText
  | Refused reg_error
  | HookFailed

text \<open>A text parameter with a NUL byte is refused by the server.\<close>

definition storable_text :: "string \<Rightarrow> bool" where
  "storable_text s = (CHR 0x00 \<notin> set s)"

section \<open>Operations\<close>

text \<open>
  \<open>persist\<close>: the UPDATE and the INSERT. An event of the system has no actor, and the table demands an
  actor, a user, of every other event. The event keeps the clock of the transaction, not the time
  of the program.
\<close>

definition event_actor :: "event \<Rightarrow> string \<Rightarrow> string option" where
  "event_actor e actor = (if ev_system e \<or> actor = [] then None else Some actor)"

definition stored_form :: "string \<Rightarrow> event \<Rightarrow> string \<Rightarrow> instant \<Rightarrow> stored_event" where
  "stored_form i e actor clock = \<lparr>se_process = i, se_event = e\<lparr>ev_at := stored_instant clock\<rparr>,
     se_actor = event_actor e actor\<rparr>"

definition persist :: "string \<Rightarrow> proc_state \<Rightarrow> event \<Rightarrow> string \<Rightarrow> instant \<Rightarrow> reg_db \<Rightarrow> store_error + reg_db" where
  "persist i s e actor clock db = (case map_of (db_rows db) i of
     None \<Rightarrow> Inl UnknownReference
   | Some r \<Rightarrow>
       rbind (require (storable_text (ps_remarks s)) BadText) (\<lambda>_.
       rbind (require (row_checks_hold (update_row s r)) CheckViolation) (\<lambda>_.
       rbind (require (storable_text (ev_reason e)) BadText) (\<lambda>_.
       rbind (require (ev_system e = (event_actor e actor = None)) CheckViolation) (\<lambda>_.
       rbind (require (case event_actor e actor of None \<Rightarrow> True | Some u \<Rightarrow> u \<in> set (db_users db)) UnknownReference) (\<lambda>_.
         Inr (db\<lparr>db_rows := AList.update i (update_row s r) (db_rows db),
           db_events := db_events db @ [stored_form i e actor clock]\<rparr>)))))))"

definition same_process :: "kind \<Rightarrow> string \<Rightarrow> int \<Rightarrow> process_row \<Rightarrow> bool" where
  "same_process k agreement year r = (rw_kind r = k \<and> rw_agreement r = agreement \<and> rw_year r = year)"

definition draft_row :: "kind \<Rightarrow> string \<Rightarrow> int \<Rightarrow> process_row" where
  "draft_row k agreement year = \<lparr>rw_kind = k, rw_agreement = agreement, rw_year = year, rw_status = Draft,
     rw_window = None, rw_due = None, rw_expires = None, rw_round = 0, rw_sent_at = None,
     rw_sent_late = False, rw_remarks = None, rw_lapsed_at = None\<rparr>"

text \<open>
  \<open>Create\<close>: the process and whether it existed already (\<open>ErrExists\<close>). A conflict with the unique key
  inserts nothing, so the foreign keys are only asked of a new row. \<open>fresh\<close> is the identifier the
  database generates; one that is taken would break the primary key.
\<close>

definition create :: "kind \<Rightarrow> string \<Rightarrow> int \<Rightarrow> string \<Rightarrow> string \<Rightarrow> reg_db \<Rightarrow>
    reg_db \<times> (store_error + (string \<times> process_row) \<times> bool)" where
  "create k agreement year creator fresh db = (case new_process k year of
     Inl e \<Rightarrow> (db, Inl (Refused e))
   | Inr _ \<Rightarrow> (case find (\<lambda>(_, r). same_process k agreement year r) (db_rows db) of
         Some p \<Rightarrow> (db, Inr (p, True))
       | None \<Rightarrow>
           (let row = draft_row k agreement year
            in if fresh \<in> set (map fst (db_rows db)) then (db, Inl DuplicateKey)
               else if agreement \<notin> set (db_agreements db) \<or> creator \<notin> set (db_users db)
               then (db, Inl UnknownReference)
               else (db\<lparr>db_rows := db_rows db @ [(fresh, row)]\<rparr>, Inr ((fresh, row), False)))))"

definition get_process :: "string \<Rightarrow> reg_db \<Rightarrow> store_error + process_row" where
  "get_process i db =
     (if \<not> storable_text i then Inl BadText
      else (case map_of (db_rows db) i of None \<Rightarrow> Inl NotFound | Some r \<Rightarrow> Inr r))"

definition events_of :: "string \<Rightarrow> reg_db \<Rightarrow> stored_event list" where
  "events_of i db = filter (\<lambda>e. se_process e = i) (db_events db)"

text \<open>The first part of \<open>Act\<close>: what happened by itself.\<close>

definition settle :: "string \<Rightarrow> instant \<Rightarrow> instant \<Rightarrow> process_row \<Rightarrow> reg_db \<Rightarrow>
    store_error + (proc_state \<times> event list \<times> reg_db)" where
  "settle i now clock r db = (case expire_if_due (scan_state r) now of
     (s, None) \<Rightarrow> Inr (s, [], db)
   | (s, Some e) \<Rightarrow> rbind (persist i s e [] clock db) (\<lambda>db1. Inr (s, [e], db1)))"

text \<open>
  \<open>Act\<close>: the result is the list of events recorded, with the error if the action was refused. The
  hook runs inside the transaction of a successful action and may fail it.
\<close>

record act_result =
  ar_events :: "event list"
  ar_error :: "store_error option"

definition failed :: "event list \<Rightarrow> store_error \<Rightarrow> act_result" where
  "failed es e = \<lparr>ar_events = es, ar_error = Some e\<rparr>"

definition act :: "(event list \<Rightarrow> bool) \<Rightarrow> string \<Rightarrow> action \<Rightarrow> string \<Rightarrow> string \<Rightarrow> instant \<Rightarrow> instant \<Rightarrow> reg_db \<Rightarrow>
    reg_db \<times> act_result" where
  "act hook i a actor reason now clock db = (case get_process i db of
     Inl e \<Rightarrow> (db, failed [] e)
   | Inr r \<Rightarrow>
      (case settle i now clock r db of
         Inl e \<Rightarrow> (db, failed [] e)
       | Inr (s, applied, db1) \<Rightarrow>
          (case apply_action s a now reason of
             Inl e \<Rightarrow> (if applied \<noteq> [] then (db1, failed applied (Refused e)) else (db, failed [] (Refused e)))
           | Inr (t, e) \<Rightarrow>
              (case persist i t e actor clock db1 of
                 Inl x \<Rightarrow> (db, failed [] x)
               | Inr db2 \<Rightarrow>
                   if hook (applied @ [e]) then (db2, \<lparr>ar_events = applied @ [e], ar_error = None\<rparr>)
                   else (db, failed [] HookFailed)))))"

definition expire_one :: "string \<Rightarrow> instant \<Rightarrow> instant \<Rightarrow> reg_db \<Rightarrow> reg_db \<times> (store_error + action option)" where
  "expire_one i now clock db = (case map_of (db_rows db) i of
     None \<Rightarrow> (db, Inl NotFound)
   | Some r \<Rightarrow>
      (case expire_if_due (scan_state r) now of
         (s, None) \<Rightarrow> (db, Inr None)
       | (s, Some e) \<Rightarrow> (case persist i s e [] clock db of
             Inl x \<Rightarrow> (db, Inl x) | Inr db1 \<Rightarrow> (db1, Inr (Some (ev_action e))))))"

text \<open>
  The SELECT of \<open>ExpireDue\<close>: open windows that are over, a recorded lapse apart, oldest first. The
  variadic list of agreements is passed through \<open>pq.Array\<close>: left out it is a nil slice, which the
  driver sends as NULL; then \<open>cardinality\<close> and \<open>= ANY\<close> are NULL too and no row is selected. A list
  that is given and empty selects every agreement.
\<close>

definition in_agreements :: "string list option \<Rightarrow> string \<Rightarrow> bool" where
  "in_agreements agreements x = (case agreements of None \<Rightarrow> False | Some xs \<Rightarrow> xs = [] \<or> x \<in> set xs)"

definition due_row :: "instant \<Rightarrow> string list option \<Rightarrow> process_row \<Rightarrow> bool" where
  "due_row now agreements r = (rw_window r \<noteq> None
     \<and> (case rw_expires r of None \<Rightarrow> False | Some t \<Rightarrow> t \<le> stored_instant now)
     \<and> \<not> (rw_window r = Some WindowRework \<and> rw_lapsed_at r \<noteq> None)
     \<and> in_agreements agreements (rw_agreement r))"

definition expiry_key :: "string \<times> process_row \<Rightarrow> int" where
  "expiry_key p = (case rw_expires (snd p) of None \<Rightarrow> 0 | Some t \<Rightarrow> t)"

definition due_ids :: "instant \<Rightarrow> string list option \<Rightarrow> reg_db \<Rightarrow> string list" where
  "due_ids now agreements db =
     take 500 (map fst (sort_key expiry_key (sort_key fst (filter (\<lambda>p. due_row now agreements (snd p)) (db_rows db)))))"

text \<open>Each process has a transaction, and so a clock, of its own.\<close>

fun expire_all :: "string list \<Rightarrow> instant \<Rightarrow> (string \<Rightarrow> instant) \<Rightarrow> nat \<Rightarrow> nat \<Rightarrow> reg_db \<Rightarrow>
    reg_db \<times> nat \<times> nat \<times> store_error option" where
  "expire_all [] now clock approved lapsed db = (db, approved, lapsed, None)"
| "expire_all (i # is) now clock approved lapsed db = (case expire_one i now (clock i) db of
     (db1, Inl e) \<Rightarrow> (db1, approved, lapsed, Some e)
   | (db1, Inr out) \<Rightarrow>
       expire_all is now clock (if out = Some DefaultApprove then approved + 1 else approved)
         (if out = Some ReworkLapsed then lapsed + 1 else lapsed) db1)"

definition expire_due :: "instant \<Rightarrow> (string \<Rightarrow> instant) \<Rightarrow> string list option \<Rightarrow> reg_db \<Rightarrow>
    reg_db \<times> nat \<times> nat \<times> store_error option" where
  "expire_due now clock agreements db = expire_all (due_ids now agreements db) now clock 0 0 db"

text \<open>\<open>RunExpiry\<close>: the scheduled pass, which gives no list of agreements.\<close>

definition scheduled_pass :: "instant \<Rightarrow> (string \<Rightarrow> instant) \<Rightarrow> reg_db \<Rightarrow> reg_db" where
  "scheduled_pass now clock db = fst (expire_due now clock None db)"

section \<open>What a row keeps of a state\<close>

text \<open>The state as the columns keep it: the two recorded moments lose what is below a microsecond.\<close>

definition to_microseconds :: "proc_state \<Rightarrow> proc_state" where
  "to_microseconds s = s\<lparr>ps_sent_at := map_option stored_instant (ps_sent_at s),
     ps_lapsed_at := map_option stored_instant (ps_lapsed_at s)\<rparr>"

lemma to_microseconds_fields [simp]:
  "ps_kind (to_microseconds s) = ps_kind s" "ps_year (to_microseconds s) = ps_year s"
  "ps_status (to_microseconds s) = ps_status s" "ps_window (to_microseconds s) = ps_window s"
  "ps_due (to_microseconds s) = ps_due s" "ps_expires (to_microseconds s) = ps_expires s"
  "ps_round (to_microseconds s) = ps_round s" "ps_remarks (to_microseconds s) = ps_remarks s"
  "ps_sent_at (to_microseconds s) = map_option stored_instant (ps_sent_at s)"
  "ps_lapsed_at (to_microseconds s) = map_option stored_instant (ps_lapsed_at s)"
  "ps_sent_late (to_microseconds s) = ps_sent_late s"
  by (simp_all add: to_microseconds_def)

lemma to_microseconds_idem [simp]: "to_microseconds (to_microseconds s) = to_microseconds s"
  by (simp add: to_microseconds_def option.map_comp o_def)

lemma well_formed_to_microseconds [simp]: "well_formed (to_microseconds s) = well_formed s"
  by (simp add: well_formed_def window_ok_def phase_ok_def split: status.splits)

lemma midnight_whole: "moscow_midnight d mod second_ns = 0" "moscow_midnight d mod 1000 = 0"
proof -
  have "moscow_midnight d = (d * 86400 - 10800) * second_ns"
    by (simp add: moscow_midnight_def moscow_offset_def day_ns_def second_ns_def)
  then show "moscow_midnight d mod second_ns = 0" by simp
  have "moscow_midnight d = ((d * 86400 - 10800) * 1000000) * 1000"
    by (simp add: moscow_midnight_def moscow_offset_def day_ns_def)
  then show "moscow_midnight d mod 1000 = 0" by simp
qed

lemma window_stored: "window_ok s \<Longrightarrow> ps_window s \<noteq> WindowNone \<Longrightarrow> stored_instant (ps_expires s) = ps_expires s"
  using stored_instant_whole [OF midnight_whole(2)] by (metis window_ok_def)

lemma scan_update:
  assumes "window_ok s" "rw_kind r = ps_kind s" "rw_year r = ps_year s"
  shows "scan_state (update_row s r) = to_microseconds s"
  using assms window_stored [OF assms(1)]
  by (auto simp: scan_state_def update_row_def window_ok_def intro!: proc_state.equality)

lemma well_formed_checks:
  assumes "well_formed s" "rw_kind r = ps_kind s" "rw_year r = ps_year s"
  shows "row_checks_hold (update_row s r)"
proof -
  have "ps_round s \<le> 2" "(ps_status s = Draft) = (ps_round s = 0)" "terminal (ps_status s) \<longrightarrow> ps_window s = WindowNone"
    using assms(1) by (auto simp: well_formed_def phase_ok_def split: status.splits)
  moreover have "known_kind (ps_kind s)" using assms(1) by (cases "ps_kind s") (auto simp: well_formed_def)
  ultimately show ?thesis using assms by (auto simp: row_checks_hold_def update_row_def well_formed_def)
qed

lemma update_row_fixed [simp]:
  "rw_kind (update_row s r) = rw_kind r" "rw_year (update_row s r) = rw_year r"
  "rw_agreement (update_row s r) = rw_agreement r"
  by (simp_all add: update_row_def)

lemma scan_state_fixed [simp]:
  "ps_kind (scan_state r) = rw_kind r" "ps_year (scan_state r) = rw_year r" "ps_status (scan_state r) = rw_status r"
  "ps_lapsed_at (scan_state r) = rw_lapsed_at r"
  by (simp_all add: scan_state_def)

text \<open>
  C14: a well-formed state written to its row satisfies every CHECK constraint and reads back as the
  state with its two recorded moments kept to the microsecond, everything else unchanged: the
  empty window, due date and remark come back from NULL, and the deadline, a midnight, exactly.
  A state whose moments are whole microseconds reads back as it is, and so writing what was read
  changes nothing.
\<close>

theorem row_round_trip:
  assumes "well_formed s" "rw_kind r = ps_kind s" "rw_year r = ps_year s"
  shows "row_checks (update_row s r) \<and> scan_state (update_row s r) = to_microseconds s
    \<and> ((\<forall>t. ps_sent_at s = Some t \<or> ps_lapsed_at s = Some t \<longrightarrow> t mod 1000 = 0) \<longrightarrow> scan_state (update_row s r) = s)
    \<and> update_row (scan_state (update_row s r)) (update_row s r) = update_row s r"
proof -
  have "window_ok s" using assms(1) by (simp add: well_formed_def)
  from scan_update [OF this assms(2,3)] have scan: "scan_state (update_row s r) = to_microseconds s" .
  have "to_microseconds s = s" if "\<forall>t. ps_sent_at s = Some t \<or> ps_lapsed_at s = Some t \<longrightarrow> t mod 1000 = 0"
    using that stored_instant_whole by (cases "ps_sent_at s"; cases "ps_lapsed_at s") (auto simp: to_microseconds_def)
  moreover have "update_row (to_microseconds s) (update_row s r) = update_row s r"
    by (simp add: update_row_def option.map_comp o_def)
  ultimately show ?thesis using well_formed_checks [OF assms] scan by (simp add: row_checks_computed)
qed

lemma draft_example_well_formed: "well_formed draft_example"
  by (rule new_process_well_formed [OF draft_example_new])

lemma sent_example_well_formed: "well_formed sent_example"
  by (rule apply_action_well_formed [OF send_example draft_example_well_formed])

theorem row_round_trip_witness:
  "row_checks (update_row sent_example (draft_row Agreement ''A1'' 2026))
    \<and> scan_state (update_row sent_example (draft_row Agreement ''A1'' 2026)) = sent_example"
proof -
  have "\<forall>t. ps_sent_at sent_example = Some t \<or> ps_lapsed_at sent_example = Some t \<longrightarrow> t mod 1000 = 0"
    by (simp add: sent_example_def draft_example_def)
  moreover have "rw_kind (draft_row Agreement ''A1'' 2026) = ps_kind sent_example"
    "rw_year (draft_row Agreement ''A1'' 2026) = ps_year sent_example"
    by (simp_all add: draft_row_def sent_example_def draft_example_def)
  ultimately show ?thesis using row_round_trip [OF sent_example_well_formed] by blast
qed

section \<open>The moments do not steer the machine\<close>

text \<open>Two states that the columns cannot tell apart take the same steps to states of this kind.\<close>

definition same_stored :: "proc_state \<Rightarrow> proc_state \<Rightarrow> bool" where
  "same_stored s t = (to_microseconds s = to_microseconds t)"

lemma same_stored_times:
  assumes "same_stored s t"
  shows "t = s\<lparr>ps_sent_at := ps_sent_at t, ps_lapsed_at := ps_lapsed_at t\<rparr>"
    "(ps_lapsed_at t = None) = (ps_lapsed_at s = None)"
    "map_option stored_instant (ps_sent_at t) = map_option stored_instant (ps_sent_at s)"
    "map_option stored_instant (ps_lapsed_at t) = map_option stored_instant (ps_lapsed_at s)"
  using assms by (cases s; cases t; auto simp: same_stored_def to_microseconds_def)+

lemma same_stored_refl [simp]: "same_stored s s" "same_stored s (to_microseconds s)" "same_stored (to_microseconds s) s"
  by (simp_all add: same_stored_def)

lemma apply_action_times:
  "apply_action (s\<lparr>ps_sent_at := x, ps_lapsed_at := y\<rparr>) a now raw = (case apply_action s a now raw of
     Inl er \<Rightarrow> Inl er
   | Inr (t, e) \<Rightarrow> Inr (t\<lparr>ps_sent_at := (if a = Send then Some now else x), ps_lapsed_at := y\<rparr>, e))"
  by (cases a) (auto simp: apply_action_def apply_defs open_window_def close_window_def event_of_def Let_def
      split: option.splits)

lemma expire_if_due_times:
  assumes "(y = None) = (ps_lapsed_at s = None)" "expire_if_due s now = (t, Some e)"
  shows "expire_if_due (s\<lparr>ps_sent_at := x, ps_lapsed_at := y\<rparr>) now =
    (t\<lparr>ps_sent_at := x, ps_lapsed_at := (if ps_window s = WindowRework then Some now else y)\<rparr>, Some e)"
  using assms(2)
proof (cases rule: expire_if_due_cases)
  case lapse
  then show ?thesis using assms by (simp add: expire_if_due_def system_event_def split: if_splits)
next
  case silence
  then show ?thesis using assms
    by (cases "ps_window s") (simp_all add: expire_if_due_def system_event_def close_window_def split: if_splits)
qed simp

lemma send_records: "apply_action s Send now raw = Inr (t, e) \<Longrightarrow> ps_sent_at t = Some now"
  by (auto simp: apply_action_def apply_send_def opened_step_def Let_def split: if_splits option.splits)

lemma action_keeps_times:
  assumes "apply_action s a now raw = Inr (t, e)"
  shows "ps_lapsed_at t = ps_lapsed_at s" "a \<noteq> Send \<Longrightarrow> ps_sent_at t = ps_sent_at s"
  using assms by (cases a; auto simp: apply_action_def apply_defs Let_def split: if_splits option.splits)+

lemma expiry_times:
  assumes "expire_if_due s now = (t, Some e)"
  shows "ps_sent_at t = ps_sent_at s" "ps_lapsed_at t = (if ps_window s = WindowRework then Some now else ps_lapsed_at s)"
  using assms by (cases rule: expire_if_due_cases; auto)+

lemma step_same_stored:
  assumes "proc_step s e t" "same_stored s s'"
  shows "\<exists>t'. proc_step s' e t' \<and> same_stored t t'"
  using assms(1)
proof (rule proc_stepE)
  note eq = same_stored_times [OF assms(2)]
  let ?x = "ps_sent_at s'" and ?y = "ps_lapsed_at s'"
  fix a now raw assume a: "apply_action s a now raw = Inr (t, e)"
  let ?t = "t\<lparr>ps_sent_at := (if a = Send then Some now else ?x), ps_lapsed_at := ?y\<rparr>"
  have "apply_action s' a now raw = Inr (?t, e)"
    using apply_action_times [where s = s and x = ?x and y = ?y and a = a and now = now and raw = raw] eq(1) a by simp
  then have "proc_step s' e ?t" by (rule acted)
  moreover have "same_stored t ?t"
    using eq(3,4) send_records [of s now raw t e] a action_keeps_times [OF a]
    by (auto simp: same_stored_def to_microseconds_def intro!: proc_state.equality)
  ultimately show ?thesis by blast
next
  note eq = same_stored_times [OF assms(2)]
  let ?x = "ps_sent_at s'" and ?y = "ps_lapsed_at s'"
  fix now assume x: "expire_if_due s now = (t, Some e)"
  let ?t = "t\<lparr>ps_sent_at := ?x, ps_lapsed_at := (if ps_window s = WindowRework then Some now else ?y)\<rparr>"
  have "expire_if_due s' now = (?t, Some e)"
    using expire_if_due_times [where x = ?x, OF eq(2) x] eq(1) by simp
  then have "proc_step s' e ?t" by (rule silent)
  moreover have "same_stored t ?t"
    using eq(3,4) expiry_times [OF x]
    by (auto simp: same_stored_def to_microseconds_def intro!: proc_state.equality)
  ultimately show ?thesis by blast
qed

section \<open>The database replays the machine\<close>

lemma keys_update_mem: "i \<in> set (map fst m) \<Longrightarrow> map fst (AList.update i v m) = map fst m"
  by (induction m) auto

text \<open>An event as it is stored: the event of the machine but for its time.\<close>

definition recorded :: "event \<Rightarrow> event \<Rightarrow> bool" where
  "recorded e stored = (stored = e\<lparr>ev_at := ev_at stored\<rparr>)"

lemma recorded_system: "recorded e f \<Longrightarrow> ev_system f = ev_system e"
  unfolding recorded_def by (cases e; cases f) simp

definition replays :: "reg_db \<Rightarrow> string \<Rightarrow> process_row \<Rightarrow> bool" where
  "replays db i r = (row_checks_hold r \<and> storable_text (ps_remarks (scan_state r))
     \<and> (\<exists>s es t. new_process (rw_kind r) (rw_year r) = Inr s \<and> history s es t
         \<and> scan_state r = to_microseconds t \<and> list_all2 recorded es (map se_event (events_of i db))))"

definition event_ok :: "reg_db \<Rightarrow> stored_event \<Rightarrow> bool" where
  "event_ok db e = (se_process e \<in> set (map fst (db_rows db)) \<and> (ev_system (se_event e) \<longleftrightarrow> se_actor e = None)
     \<and> (\<forall>u. se_actor e = Some u \<longrightarrow> u \<in> set (db_users db)))"

definition db_ok :: "reg_db \<Rightarrow> bool" where
  "db_ok db = (distinct (map fst (db_rows db))
     \<and> (\<forall>i r. map_of (db_rows db) i = Some r \<longrightarrow> replays db i r \<and> rw_agreement r \<in> set (db_agreements db))
     \<and> (\<forall>e \<in> set (db_events db). event_ok db e))"

lemma step_fixed: "proc_step s e t \<Longrightarrow> ps_kind t = ps_kind s \<and> ps_year t = ps_year s"
proof (erule proc_stepE)
  fix a now raw assume "apply_action s a now raw = Inr (t, e)"
  then show ?thesis
    by (cases rule: apply_action_cases) (auto simp: apply_defs Let_def split: if_splits)
next
  fix now assume "expire_if_due s now = (t, Some e)"
  then show ?thesis by (cases rule: expire_if_due_cases) auto
qed

lemma replays_well_formed: "replays db i r \<Longrightarrow> well_formed (scan_state r)"
  using bounded_history_facts by (auto simp: replays_def)

lemma db_ok_row: "db_ok db \<Longrightarrow> map_of (db_rows db) i = Some r \<Longrightarrow> replays db i r \<and> well_formed (scan_state r)"
  using replays_well_formed unfolding db_ok_def by blast

lemma db_ok_agreement: "db_ok db \<Longrightarrow> map_of (db_rows db) i = Some r \<Longrightarrow> rw_agreement r \<in> set (db_agreements db)"
  unfolding db_ok_def by blast

text \<open>What a successful \<open>persist\<close> has checked and what it leaves.\<close>

lemma persist_Inr:
  assumes "persist i t e actor clock db = Inr db'" "map_of (db_rows db) i = Some r"
  shows "db' = db\<lparr>db_rows := AList.update i (update_row t r) (db_rows db),
      db_events := db_events db @ [stored_form i e actor clock]\<rparr>"
    "storable_text (ps_remarks t)" "row_checks_hold (update_row t r)"
    "ev_system e \<longleftrightarrow> event_actor e actor = None" "event_actor e actor = Some u \<Longrightarrow> u \<in> set (db_users db)"
  using assms by (auto simp: persist_def rbind_Inr split: option.splits)

lemma stored_form_fields [simp]:
  "se_process (stored_form i e actor clock) = i" "se_actor (stored_form i e actor clock) = event_actor e actor"
  "ev_system (se_event (stored_form i e actor clock)) = ev_system e"
  "recorded e (se_event (stored_form i e actor clock))"
  by (simp_all add: stored_form_def recorded_def)

text \<open>
  The step is taken from the row's state, or from the state before it was stored (an action that
  follows a silence in the same transaction).
\<close>

lemma persist_step:
  assumes ok: "db_ok db" and row: "map_of (db_rows db) i = Some r" and same: "same_stored (scan_state r) s"
    and step: "proc_step s e t" and p: "persist i t e actor clock db = Inr db'"
  shows "db_ok db' \<and> map_of (db_rows db') i = Some (update_row t r) \<and> same_stored (scan_state (update_row t r)) t
    \<and> map fst (db_rows db') = map fst (db_rows db)"
proof -
  have r: "replays db i r" using ok row by (simp add: db_ok_def)
  then obtain s0 es t0 where h: "new_process (rw_kind r) (rw_year r) = Inr s0" "history s0 es t0"
    "scan_state r = to_microseconds t0" "list_all2 recorded es (map se_event (events_of i db))"
    by (auto simp: replays_def)
  have "same_stored s t0" using same h(3) by (simp add: same_stored_def)
  then obtain u where u: "proc_step t0 e u" "same_stored t u" using step_same_stored [OF step] by blast
  have wf: "well_formed t"
    using step_moves(1) [OF step] same well_formed_to_microseconds [of s]
      well_formed_to_microseconds [of "scan_state r"] replays_well_formed [OF r] by (simp add: same_stored_def)
  have fixed: "ps_kind t = rw_kind r" "ps_year t = rw_year r"
    using step_fixed [OF step] same_stored_times(1) [OF same] by (metis scan_state_fixed(1,2)
      to_microseconds_fields(1,2) same same_stored_def)+
  have scan: "scan_state (update_row t r) = to_microseconds t"
    using wf fixed by (intro scan_update) (simp_all add: well_formed_def)
  note p' = persist_Inr [OF p row]
  have mem: "i \<in> set (map fst (db_rows db))" using map_of_SomeD [OF row] by force
  have keys: "map fst (db_rows db') = map fst (db_rows db)"
    by (simp add: p'(1) keys_update_mem [OF mem])
  have at_i: "map_of (db_rows db') i = Some (update_row t r)" by (simp add: p'(1))
  have events: "events_of i db' = events_of i db @ [stored_form i e actor clock]"
    by (simp add: p'(1) events_of_def)
  have new: "replays db' i (update_row t r)"
    unfolding replays_def scan update_row_fixed
  proof (intro conjI exI)
    show "list_all2 recorded (es @ [e]) (map se_event (events_of i db'))"
      unfolding events using h(4) by (simp add: list_all2_appendI)
    show "to_microseconds t = to_microseconds u" using u(2) by (simp add: same_stored_def)
    show "history s0 (es @ [e]) u" using h(2) u(1) by (rule history_step)
  qed (use p'(2,3) h(1) in simp_all)
  have old: "replays db' j q" if "map_of (db_rows db) j = Some q" "j \<noteq> i" for j q
    using ok that by (auto simp: db_ok_def replays_def p'(1) events_of_def)
  have all: "replays db' j q \<and> rw_agreement q \<in> set (db_agreements db')" if "map_of (db_rows db') j = Some q" for j q
    using that new old at_i ok row by (cases "j = i") (auto simp: p'(1) map_of_update_other db_ok_def)
  have "db_ok db'"
    unfolding db_ok_def keys
  proof (intro conjI allI impI ballI)
    show "distinct (map fst (db_rows db))" using ok by (simp add: db_ok_def)
    fix x assume "x \<in> set (db_events db')"
    then have "x \<in> set (db_events db) \<or> x = stored_form i e actor clock" by (auto simp: p'(1))
    then show "event_ok db' x"
    proof
      assume "x \<in> set (db_events db)"
      then have "event_ok db x" using ok by (simp add: db_ok_def)
      then show ?thesis unfolding event_ok_def keys by (simp add: p'(1))
    next
      assume "x = stored_form i e actor clock"
      then show ?thesis using mem p'(4,5) unfolding event_ok_def keys by (simp add: p'(1))
    qed
  qed (use all in blast)+
  with at_i scan keys show ?thesis by (simp add: same_stored_def)
qed

lemma get_process_Inr: "get_process i db = Inr r \<longleftrightarrow> storable_text i \<and> map_of (db_rows db) i = Some r"
  by (auto simp: get_process_def split: option.splits)

lemma settle_ok:
  assumes "db_ok db" "map_of (db_rows db) i = Some r" "settle i now clock r db = Inr (s, es, db1)"
  shows "db_ok db1 \<and> (\<exists>r1. map_of (db_rows db1) i = Some r1 \<and> same_stored (scan_state r1) s) \<and> (es = [] \<longrightarrow> db1 = db)"
proof -
  obtain t out where x: "expire_if_due (scan_state r) now = (t, out)"
    by (cases "expire_if_due (scan_state r) now")
  show ?thesis
  proof (cases out)
    case None
    then have "t = scan_state r" using x expire_quiet by simp
    then show ?thesis using assms x None by (auto simp: settle_def)
  next
    case (Some e)
    then have "rbind (persist i t e [] clock db) (\<lambda>d. Inr (t, [e], d)) = Inr (s, es, db1)"
      using assms(3) x by (simp add: settle_def)
    then obtain d where d: "persist i t e [] clock db = Inr d" "s = t" "es = [e]" "db1 = d"
      by (cases "persist i t e [] clock db") simp_all
    show ?thesis
      using persist_step [OF assms(1,2) same_stored_refl(1) silent [OF x [unfolded Some]] d(1)] unfolding d by blast
  qed
qed

lemma act_ok:
  assumes "db_ok db"
  shows "db_ok (fst (act hook i a actor reason now clock db))"
proof (cases "get_process i db")
  case (Inl x)
  then show ?thesis using assms by (simp add: act_def)
next
  case got: (Inr r)
  then have Some: "map_of (db_rows db) i = Some r" by (simp add: get_process_Inr)
  show ?thesis
  proof (cases "settle i now clock r db")
    case (Inl x)
    then show ?thesis using assms got by (simp add: act_def)
  next
    case (Inr q)
    obtain s es db1 where q: "settle i now clock r db = Inr (s, es, db1)" using Inr by (cases q) auto
    note settled = settle_ok [OF assms Some q]
    then obtain r1 where r1: "map_of (db_rows db1) i = Some r1" "same_stored (scan_state r1) s" by blast
    have "db_ok d" if "apply_action s a now reason = Inr (t, e)" "persist i t e actor clock db1 = Inr d" for t e d
      using persist_step [OF _ r1 acted [OF that(1)] that(2)] settled by simp
    then show ?thesis
      using assms settled got q by (auto simp: act_def split: sum.splits)
  qed
qed

lemma expire_one_ok:
  assumes "db_ok db"
  shows "db_ok (fst (expire_one i now clock db))"
proof (cases "map_of (db_rows db) i")
  case (Some r)
  have "db_ok d" if "expire_if_due (scan_state r) now = (s, Some e)" "persist i s e [] clock db = Inr d" for s e d
    using persist_step [OF assms Some same_stored_refl(1) silent [OF that(1)] that(2)] by blast
  then show ?thesis
    using assms Some by (auto simp: expire_one_def split: prod.splits option.splits sum.splits)
qed (use assms in \<open>simp add: expire_one_def\<close>)

lemma expire_all_ok: "db_ok db \<Longrightarrow> db_ok (fst (expire_all is now clock m n db))"
proof (induction "is" arbitrary: m n db)
  case (Cons i "is")
  obtain d r where x: "expire_one i now (clock i) db = (d, r)" by fastforce
  then have "db_ok d" using expire_one_ok [OF Cons.prems, of i now "clock i"] by simp
  then show ?case using Cons.IH x by (cases r) auto
qed simp

lemma create_ok:
  assumes "db_ok db"
  shows "db_ok (fst (create k agreement year creator fresh db))"
proof (cases "\<exists>s. new_process k year = Inr s \<and> fresh \<notin> set (map fst (db_rows db))
    \<and> find (\<lambda>(_, r). same_process k agreement year r) (db_rows db) = None
    \<and> agreement \<in> set (db_agreements db) \<and> creator \<in> set (db_users db)")
  case True
  then obtain s where s: "new_process k year = Inr s" "fresh \<notin> set (map fst (db_rows db))"
    "find (\<lambda>(_, r). same_process k agreement year r) (db_rows db) = None"
    "agreement \<in> set (db_agreements db)" "creator \<in> set (db_users db)" by blast
  let ?row = "draft_row k agreement year"
  let ?db = "db\<lparr>db_rows := db_rows db @ [(fresh, ?row)]\<rparr>"
  have none: "events_of fresh ?db = []"
    using assms s(2) by (auto simp: events_of_def db_ok_def event_ok_def filter_empty_conv)
  have "scan_state ?row = to_microseconds s" "ps_remarks s = []"
    using s(1) by (auto simp: new_process_def scan_state_def draft_row_def to_microseconds_def split: if_splits)
  moreover have "row_checks_hold ?row"
    using s(1) by (cases k) (auto simp: row_checks_hold_def draft_row_def new_process_def split: if_splits)
  ultimately have new: "replays ?db fresh ?row"
    using s(1) none history_start [of s] unfolding replays_def
    by (auto simp: draft_row_def storable_text_def intro!: exI [of _ "[]"] exI [of _ s])
  have old: "replays ?db j q" if "map_of (db_rows db) j = Some q" for j q
    using assms that by (auto simp: db_ok_def replays_def events_of_def)
  have fresh_none: "map_of (db_rows db) fresh = None" using s(2) by (simp add: map_of_eq_None_iff)
  have "rw_agreement ?row = agreement" by (simp add: draft_row_def)
  then have "map_of (db_rows ?db) j = Some q \<Longrightarrow> replays ?db j q \<and> rw_agreement q \<in> set (db_agreements db)" for j q
    using new old fresh_none db_ok_agreement [OF assms] s(4)
    by (cases "j = fresh") (auto simp: map_add_def split: option.splits)
  then have "db_ok ?db" using assms s(2) unfolding db_ok_def event_ok_def by auto
  then show ?thesis using s by (simp add: create_def Let_def)
next
  case False
  then show ?thesis using assms
    by (auto simp: create_def Let_def split: sum.splits option.splits)
qed

text \<open>The operations as commands of one machine.\<close>

datatype reg_command =
    CmdCreate kind string int string string
  | CmdAct string action string string instant instant bool
  | CmdExpire instant "string \<Rightarrow> instant" "string list option"

fun execute :: "reg_command \<Rightarrow> reg_db \<Rightarrow> store_error + reg_db" where
  "execute (CmdCreate k agreement year creator fresh) db = Inr (fst (create k agreement year creator fresh db))"
| "execute (CmdAct i a actor reason now clock hook) db = Inr (fst (act (\<lambda>_. hook) i a actor reason now clock db))"
| "execute (CmdExpire now clock agreements) db = Inr (fst (expire_due now clock agreements db))"

interpretation registry: guarded_machine execute db_ok
proof unfold_locales
  fix s t :: reg_db and c :: reg_command
  assume "db_ok s" "execute c s = Inr t"
  then show "db_ok t"
    using create_ok act_ok expire_all_ok by (cases c) (auto simp: expire_due_def)
qed

definition empty_db :: "string list \<Rightarrow> string list \<Rightarrow> reg_db" where
  "empty_db users agreements = \<lparr>db_rows = [], db_events = [], db_users = users, db_agreements = agreements\<rparr>"

lemma empty_db_ok: "db_ok (empty_db users agreements)"
  by (simp add: db_ok_def empty_db_def)

text \<open>
  C9: whatever creations, actions and passes of the background job are run on a registry that starts
  empty, in any order, with any refusals and at any times, the machine has a history from the draft
  of every process whose end is the state of its row (its two recorded moments to the microsecond)
  and whose events are the stored ones, each but for its time, which the database sets itself.
  There are at most seven, an event has no actor precisely when the system made it, and an actor
  is a user.
\<close>

theorem store_replays_machine:
  assumes "map_of (db_rows (run_machine execute commands (empty_db users agreements))) i = Some r"
  shows "\<exists>s es t. new_process (rw_kind r) (rw_year r) = Inr s \<and> history s es t
    \<and> scan_state r = to_microseconds t
    \<and> list_all2 recorded es (map se_event (events_of i (run_machine execute commands (empty_db users agreements))))
    \<and> length es \<le> 7
    \<and> (\<forall>e \<in> set (events_of i (run_machine execute commands (empty_db users agreements))).
         (ev_system (se_event e) \<longleftrightarrow> se_actor e = None)
         \<and> (\<forall>u. se_actor e = Some u \<longrightarrow> u \<in> set (db_users (run_machine execute commands (empty_db users agreements)))))"
proof -
  let ?db = "run_machine execute commands (empty_db users agreements)"
  have ok: "db_ok ?db" by (rule registry.run_inv [OF empty_db_ok])
  then obtain s es t where s: "new_process (rw_kind r) (rw_year r) = Inr s" "history s es t"
    "scan_state r = to_microseconds t" "list_all2 recorded es (map se_event (events_of i ?db))"
    using assms unfolding db_ok_def replays_def by blast
  have "\<forall>e \<in> set (events_of i ?db). event_ok ?db e" using ok by (simp add: db_ok_def events_of_def)
  then show ?thesis using s bounded_history_facts [OF s(1,2)] unfolding event_ok_def by blast
qed

definition demo_commands :: "reg_command list" where
  "demo_commands =
   [CmdCreate Agreement ''A1'' 2026 ''u1'' ''p1'', CmdAct ''p1'' Send ''u1'' [] 1999 5000 True,
    CmdExpire 1296000000000000 (\<lambda>_. 1296000000007000) (Some [])]"

definition demo_db :: reg_db where
  "demo_db = run_machine execute demo_commands (empty_db [''u1''] [''A1''])"

lemma demo_row:
  "map_option (\<lambda>r. (rw_status r, rw_sent_at r)) (map_of (db_rows demo_db) ''p1'') = Some (DefaultApproved, Some 2000)"
  by code_simp

theorem store_replays_machine_witness:
  "\<exists>r s es t. map_of (db_rows demo_db) ''p1'' = Some r \<and> rw_sent_at r = Some 2000
    \<and> history s es t \<and> scan_state r = to_microseconds t
    \<and> list_all2 recorded es (map se_event (events_of ''p1'' demo_db)) \<and> length es \<le> 7"
proof -
  obtain r where r: "map_of (db_rows demo_db) ''p1'' = Some r" "rw_sent_at r = Some 2000"
    using demo_row by auto
  from r(2) store_replays_machine [OF r(1) [unfolded demo_db_def], folded demo_db_def] r(1) show ?thesis by blast
qed

section \<open>Refusals\<close>

lemma action_not_system: "apply_action s a now raw = Inr (t, e) \<Longrightarrow> \<not> ev_system e"
  by (erule apply_action_cases)
     (auto simp: apply_defs event_of_def Let_def split: if_splits)

text \<open>Texts without NUL: a trimmed reason keeps the property, and the texts of the system have it.\<close>

lemma trim_space_set: "set (trim_space s) \<subseteq> set s"
proof -
  let ?drop = "dropWhile (is_space_rune \<circ> fst)"
  have "set (rev (?drop (rev (?drop (runes s))))) \<subseteq> set (runes s)" by (auto dest!: set_dropWhileD)
  then have "set (trim_space s) \<subseteq> set (concat (map snd (runes s)))"
    unfolding trim_space_def set_concat set_map by (intro UN_mono image_mono) simp_all
  then show ?thesis by (simp only: concat_runes)
qed

lemma storable_trim: "storable_text s \<Longrightarrow> storable_text (trim_space s)"
  using trim_space_set [of s] by (auto simp: storable_text_def)

lemma storable_append [simp]: "storable_text (s @ t) \<longleftrightarrow> storable_text s \<and> storable_text t"
  by (auto simp: storable_text_def)

lemma storable_digits: "list_all is_digit s \<Longrightarrow> storable_text s"
  by (auto simp: storable_text_def list_all_iff is_digit_def in_range_def)

lemma storable_pad: "storable_text (pad w n)"
  by (rule storable_digits) (rule pad_facts)

lemma storable_date: "storable_text (format_date d)"
proof -
  have "storable_text ''-''" by (simp add: storable_text_def)
  then show ?thesis by (cases d) (simp only: format_date_def prod.case storable_append storable_pad)
qed

lemma system_texts: "storable_text (review_expired_text d) = storable_text d" "storable_text (rework_expired_text d) = storable_text d"
proof -
  have "storable_text (review_expired_text [])" "storable_text (rework_expired_text [])" by code_simp+
  then show "storable_text (review_expired_text d) = storable_text d" "storable_text (rework_expired_text d) = storable_text d"
    by (auto simp: review_expired_text_def rework_expired_text_def)
qed

lemma silence_reason_storable:
  assumes "expire_if_due s now = (t, Some e)" "window_ok s"
  shows "storable_text (ev_reason e)"
proof -
  have due: "storable_text (ps_due s)" if "ps_window s \<noteq> WindowNone"
  proof -
    have "ps_due s = format_date (date_of_day (moscow_day (ps_expires s) - 1))"
      using assms(2) that by (simp add: window_ok_def)
    then show ?thesis by (simp only: storable_date)
  qed
  show ?thesis using assms(1)
  proof (cases rule: expire_if_due_cases)
    case lapse
    then show ?thesis using due by (simp add: system_event_def system_texts)
  next
    case silence
    then show ?thesis using due by (auto simp: system_event_def system_texts)
  qed simp
qed

lemma action_texts:
  assumes "apply_action s a now raw = Inr (t, e)"
  shows "ev_reason e = trim_space raw" "ps_remarks t = ps_remarks s \<or> ps_remarks t = trim_space raw"
  using assms
  by (cases rule: apply_action_cases; auto simp: apply_defs event_of_def Let_def split: if_splits option.splits)+

lemma silence_remarks: "expire_if_due s now = (t, e) \<Longrightarrow> ps_remarks t = ps_remarks s"
  by (erule expire_if_due_cases) simp_all

text \<open>With the texts storable and the actor a user, or the system, \<open>persist\<close> cannot fail.\<close>

lemma persist_succeeds:
  assumes ok: "db_ok db" and row: "map_of (db_rows db) i = Some r" and same: "same_stored (scan_state r) s"
    and step: "proc_step s e t"
    and texts: "storable_text (ev_reason e)" "storable_text (ps_remarks t)"
    and actor: "ev_system e \<or> actor \<noteq> [] \<and> actor \<in> set (db_users db)"
  shows "\<exists>db'. persist i t e actor clock db = Inr db'"
proof -
  have wf: "well_formed t"
    using step_moves(1) [OF step] same well_formed_to_microseconds [of s]
      well_formed_to_microseconds [of "scan_state r"] db_ok_row [OF ok row] by (simp add: same_stored_def)
  have "ps_kind t = rw_kind r" "ps_year t = rw_year r"
    using step_fixed [OF step] same by (metis scan_state_fixed(1,2) to_microseconds_fields(1,2) same_stored_def)+
  with wf have "row_checks_hold (update_row t r)" by (intro well_formed_checks) simp_all
  then show ?thesis using row texts actor by (auto simp: persist_def event_actor_def require_def)
qed

lemma silence_persists:
  assumes ok: "db_ok db" and row: "map_of (db_rows db) i = Some r" and x: "expire_if_due (scan_state r) now = (s, Some e)"
  shows "\<exists>db'. persist i s e actor clock db = Inr db'"
proof (rule persist_succeeds [OF ok row same_stored_refl(1) silent [OF x]])
  have r: "replays db i r" "well_formed (scan_state r)" using db_ok_row [OF ok row] by simp_all
  then show "storable_text (ev_reason e)" using silence_reason_storable [OF x] by (simp add: well_formed_def)
  show "storable_text (ps_remarks s)" using r(1) silence_remarks [OF x] by (simp add: replays_def)
  show "ev_system e \<or> actor \<noteq> [] \<and> actor \<in> set (db_users db)" using expire_event_system [OF x] by simp
qed

text \<open>The errors a caller with a known actor and texts without NUL may see.\<close>

fun expected_error :: "store_error option \<Rightarrow> bool" where
  "expected_error None = True"
| "expected_error (Some NotFound) = True"
| "expected_error (Some (Refused _)) = True"
| "expected_error (Some HookFailed) = True"
| "expected_error (Some _) = False"

lemma settled_action_persists:
  assumes ok: "db_ok db" and row: "map_of (db_rows db) i = Some r" and q: "settle i now clock r db = Inr (s, es, db1)"
    and a: "apply_action s a now reason = Inr (t, e)"
    and actor: "actor \<noteq> []" "actor \<in> set (db_users db)" and reason: "storable_text reason"
  shows "\<exists>db'. persist i t e actor clock db1 = Inr db'"
proof -
  from settle_ok [OF ok row q] obtain r1 where r1: "db_ok db1" "map_of (db_rows db1) i = Some r1"
    "same_stored (scan_state r1) s" by blast
  have users: "db_users db1 = db_users db"
    using q by (auto simp: settle_def persist_def rbind_Inr split: prod.splits option.splits)
  have "ps_remarks s = ps_remarks (scan_state r1)" using r1(3) by (metis to_microseconds_fields(8) same_stored_def)
  then have "storable_text (ps_remarks s)" using db_ok_row [OF r1(1,2)] by (simp add: replays_def)
  then show ?thesis
    using persist_succeeds [OF r1 acted [OF a], of actor clock] action_texts [OF a] storable_trim [OF reason] actor users
    by auto
qed

text \<open>
  C12: a refused action leaves the database as it was, or with the single event of silence that was
  due: it is kept although the action is not, and only when it is the machine that refuses the
  action. Given an actor who is a user and texts without NUL, an action is refused for no other
  reason than an unknown process, a transition the machine refuses, or the caller's hook.
\<close>

theorem refused_action_effect:
  assumes "db_ok db" "act hook i a actor reason now clock db = (db', result)"
  shows "(ar_error result \<noteq> None \<longrightarrow> db' = db \<and> ar_events result = []
        \<or> (\<exists>r s e x. map_of (db_rows db) i = Some r \<and> expire_if_due (scan_state r) now = (s, Some e)
             \<and> persist i s e [] clock db = Inr db' \<and> ar_events result = [e]
             \<and> apply_action s a now reason = Inl x \<and> ar_error result = Some (Refused x)))
    \<and> (actor \<noteq> [] \<and> actor \<in> set (db_users db) \<and> storable_text reason \<and> storable_text i
        \<longrightarrow> expected_error (ar_error result))"
proof (cases "get_process i db")
  case (Inl x)
  then show ?thesis using assms by (auto simp: act_def failed_def get_process_def split: if_splits option.splits)
next
  case (Inr r)
  then have row: "map_of (db_rows db) i = Some r" by (simp add: get_process_Inr)
  obtain s out where x: "expire_if_due (scan_state r) now = (s, out)"
    by (cases "expire_if_due (scan_state r) now")
  have "\<exists>es db1. settle i now clock r db = Inr (s, es, db1) \<and> (case out of None \<Rightarrow> es = [] \<and> db1 = db
      | Some e \<Rightarrow> es = [e] \<and> persist i s e [] clock db = Inr db1)"
  proof (cases out)
    case (Some e)
    obtain d where "persist i s e [] clock db = Inr d"
      using silence_persists [OF assms(1) row x [unfolded Some]] by blast
    then show ?thesis using x Some by (simp add: settle_def)
  qed (use x in \<open>simp add: settle_def\<close>)
  then obtain es db1 where q: "settle i now clock r db = Inr (s, es, db1)"
    "case out of None \<Rightarrow> es = [] \<and> db1 = db | Some e \<Rightarrow> es = [e] \<and> persist i s e [] clock db = Inr db1" by blast
  show ?thesis
  proof (cases "apply_action s a now reason")
    case (Inl y)
    then show ?thesis using assms(2) Inr q row x by (cases out) (auto simp: act_def failed_def)
  next
    case step: (Inr p)
    obtain t e where p: "apply_action s a now reason = Inr (t, e)" using step by (cases p) auto
    have sure: "actor \<noteq> [] \<and> actor \<in> set (db_users db) \<and> storable_text reason \<Longrightarrow>
        \<exists>d. persist i t e actor clock db1 = Inr d"
      using settled_action_persists [OF assms(1) row q(1) p] by blast
    show ?thesis
      using assms(2) Inr q(1) p sure
      by (cases "persist i t e actor clock db1"; cases "hook (es @ [e])") (auto simp: act_def failed_def)
  qed
qed

lemma demo_db_ok: "db_ok demo_db"
  unfolding demo_db_def by (rule registry.run_inv [OF empty_db_ok])

theorem refused_action_effect_witness:
  "expected_error (ar_error (snd (act (\<lambda>_. True) ''p1'' Dispute ''u1'' ''no'' 0 0 demo_db)))"
proof -
  have users: "''u1'' \<in> set (db_users demo_db)" by code_simp
  have texts: "storable_text ''no''" "storable_text ''p1''" by code_simp+
  show ?thesis
    using refused_action_effect [OF demo_db_ok, of "\<lambda>_. True" "''p1''" Dispute "''u1''" "''no''" 0 0
        "fst (act (\<lambda>_. True) ''p1'' Dispute ''u1'' ''no'' 0 0 demo_db)"] users texts by auto
qed

section \<open>The background job\<close>

text \<open>Silence that is due in a process of the given agreements, said by the machine alone.\<close>

definition silence_due :: "instant \<Rightarrow> string list \<Rightarrow> process_row \<Rightarrow> bool" where
  "silence_due now agreements r =
     (snd (expire_if_due (scan_state r) now) \<noteq> None \<and> (agreements = [] \<or> rw_agreement r \<in> set agreements))"

lemma silence_due_iff:
  assumes "row_checks_hold r"
  shows "silence_due now ags r \<longleftrightarrow> (\<exists>w x. rw_window r = Some w \<and> rw_expires r = Some x \<and> x \<le> now
    \<and> \<not> (w = WindowRework \<and> rw_lapsed_at r \<noteq> None)) \<and> (ags = [] \<or> rw_agreement r \<in> set ags)"
proof (cases "rw_window r")
  case None
  then show ?thesis by (simp add: silence_due_def expire_if_due_def scan_state_def)
next
  case (Some w)
  then obtain x where x: "rw_expires r = Some x" and w: "w \<noteq> WindowNone" and t: "\<not> terminal (rw_status r)"
    using assms by (cases "rw_expires r") (auto simp: row_checks_hold_def)
  have "ps_window (scan_state r) = w" "ps_expires (scan_state r) = x" using Some x by (simp_all add: scan_state_def)
  then show ?thesis using Some x w t
    by (cases w) (auto simp: silence_due_def expire_if_due_def deadline_expired_def)
qed

text \<open>The deadline is a midnight, so the rounding of the moment asked about loses no due process.\<close>

lemma silence_is_selected:
  assumes ok: "db_ok db" and row: "map_of (db_rows db) i = Some r" and due: "silence_due now ags r"
  shows "due_row now (Some ags) r"
proof -
  have r: "row_checks_hold r" "well_formed (scan_state r)" using db_ok_row [OF ok row] by (auto simp: replays_def)
  then obtain w x where w: "rw_window r = Some w" "rw_expires r = Some x" "x \<le> now"
    "\<not> (w = WindowRework \<and> rw_lapsed_at r \<noteq> None)" "ags = [] \<or> rw_agreement r \<in> set ags"
    using silence_due_iff due by blast
  have "w \<noteq> WindowNone" using r(1) w(1) by (auto simp: row_checks_hold_def)
  then have "x = moscow_midnight (moscow_day x)"
    using r(2) w by (simp add: well_formed_def window_ok_def scan_state_def)
  then have "x \<le> stored_instant now" using stored_instant_after [OF _ w(3)] midnight_whole(1) by metis
  then show ?thesis using w by (auto simp: due_row_def in_agreements_def)
qed

lemma expire_one_effect:
  assumes ok: "db_ok db" and row: "map_of (db_rows db) i = Some r"
  obtains (quiet) "snd (expire_if_due (scan_state r) now) = None" "expire_one i now clock db = (db, Inr None)"
  | (settled) d a r' where "snd (expire_if_due (scan_state r) now) \<noteq> None"
      "expire_one i now clock db = (d, Inr (Some a))" "a = DefaultApprove \<or> a = ReworkLapsed"
      "db_ok d" "map_of (db_rows d) = (map_of (db_rows db))(i \<mapsto> r')" "\<not> silence_due now ags r'"
proof (cases "expire_if_due (scan_state r) now")
  case (Pair s out)
  show ?thesis
  proof (cases out)
    case None
    then show ?thesis using quiet row Pair by (simp add: expire_one_def)
  next
    case (Some e)
    note x = Pair [unfolded Some]
    obtain d where d: "persist i s e [] clock db = Inr d" using silence_persists [OF ok row x] by blast
    note next_row = persist_step [OF ok row same_stored_refl(1) proc_step.silent [OF x] d]
    have kind: "ev_action e = DefaultApprove \<or> ev_action e = ReworkLapsed"
      by (rule expire_if_due_cases [OF x]; simp add: system_event_def)
    have quiet: "snd (expire_if_due s now) = None" using expiry_idempotent [OF x, of now] by simp
    have "snd (expire_if_due (scan_state (update_row s r)) now) = None"
    proof (rule ccontr)
      assume "snd (expire_if_due (scan_state (update_row s r)) now) \<noteq> None"
      then obtain t f where f: "expire_if_due (scan_state (update_row s r)) now = (t, Some f)"
        by (cases "expire_if_due (scan_state (update_row s r)) now") auto
      have "same_stored (scan_state (update_row s r)) s" using next_row by blast
      note eq = same_stored_times [OF this]
      from expire_if_due_times [OF eq(2) f] eq(1) quiet show False by (metis option.distinct(1) snd_conv)
    qed
    then have "\<not> silence_due now ags (update_row s r)" by (simp add: silence_due_def)
    moreover have "map_of (db_rows d) = (map_of (db_rows db))(i \<mapsto> update_row s r)"
      using persist_Inr(1) [OF d row] by (simp add: update_conv')
    ultimately show ?thesis using settled [of d "ev_action e" "update_row s r"] row x d kind next_row
      by (simp add: expire_one_def)
  qed
qed

lemma expire_all_effect:
  assumes "db_ok db" "distinct is" "set is \<subseteq> set (map fst (db_rows db))"
  shows "\<exists>d a l. expire_all is now clock m n db = (d, m + a, n + l, None) \<and> db_ok d
    \<and> a + l = length (filter (\<lambda>i. \<exists>r. map_of (db_rows db) i = Some r \<and> silence_due now [] r) is)
    \<and> set (map fst (db_rows d)) = set (map fst (db_rows db))
    \<and> (a + l = 0 \<longrightarrow> d = db)
    \<and> (\<forall>i. i \<notin> set is \<longrightarrow> map_of (db_rows d) i = map_of (db_rows db) i)
    \<and> (\<forall>i r. map_of (db_rows db) i = Some r \<longrightarrow> \<not> silence_due now [] r \<longrightarrow> map_of (db_rows d) i = Some r)
    \<and> (\<forall>i r. i \<in> set is \<longrightarrow> map_of (db_rows d) i = Some r \<longrightarrow> \<not> silence_due now [] r)"
  using assms
proof (induction "is" arbitrary: m n db)
  case (Cons i "is")
  then obtain r where r: "map_of (db_rows db) i = Some r"
    by (metis (no_types, lifting) list.set_intros(1) map_of_eq_None_iff not_Some_eq set_map subsetD)
  have rest: "distinct is" "i \<notin> set is" using Cons.prems(2) by simp_all
  consider (quiet) "snd (expire_if_due (scan_state r) now) = None" "expire_one i now (clock i) db = (db, Inr None)"
    | (settled) d b r' where "snd (expire_if_due (scan_state r) now) \<noteq> None"
      "expire_one i now (clock i) db = (d, Inr (Some b))" "b = DefaultApprove \<or> b = ReworkLapsed"
      "db_ok d" "map_of (db_rows d) = (map_of (db_rows db))(i \<mapsto> r')" "\<not> silence_due now [] r'"
    by (rule expire_one_effect [where now = now and clock = "clock i" and ags = "[]", OF Cons.prems(1) r]) blast+
  then show ?case
  proof cases
    case quiet
    have "set is \<subseteq> set (map fst (db_rows db))" using Cons.prems(3) by simp
    from Cons.IH [OF Cons.prems(1) rest(1) this, of m n] obtain d a l where
      ih: "expire_all is now clock m n db = (d, m + a, n + l, None)" "db_ok d"
      "a + l = length (filter (\<lambda>i. \<exists>r. map_of (db_rows db) i = Some r \<and> silence_due now [] r) is)"
      "set (map fst (db_rows d)) = set (map fst (db_rows db))" "a + l = 0 \<longrightarrow> d = db"
      "\<forall>j. j \<notin> set is \<longrightarrow> map_of (db_rows d) j = map_of (db_rows db) j"
      "\<forall>j r. map_of (db_rows db) j = Some r \<longrightarrow> \<not> silence_due now [] r \<longrightarrow> map_of (db_rows d) j = Some r"
      "\<forall>j r. j \<in> set is \<longrightarrow> map_of (db_rows d) j = Some r \<longrightarrow> \<not> silence_due now [] r" by blast
    have none: "\<not> silence_due now [] r" using quiet(1) by (simp add: silence_due_def)
    have at_i: "map_of (db_rows d) i = Some r" using ih(6) rest(2) r by simp
    have all: "expire_all (i # is) now clock m n db = (d, m + a, n + l, None)" using quiet(2) ih(1) by simp
    have count: "a + l = length (filter (\<lambda>i. \<exists>r. map_of (db_rows db) i = Some r \<and> silence_due now [] r) (i # is))"
      using ih(3) none r by simp
    have cleared: "\<not> silence_due now [] q" if "j \<in> set (i # is)" "map_of (db_rows d) j = Some q" for j q
      using that ih(8) none at_i by (cases "j = i") auto
    show ?thesis
      by (intro exI conjI) (rule all, rule ih(2), rule count, use ih(4-7) cleared in auto)
  next
    case (settled d b r')
    have doms: "set (map fst (db_rows d)) = set (map fst (db_rows db))"
    proof -
      have "dom (map_of (db_rows d)) = dom (map_of (db_rows db))" using settled(5) r by (auto simp: dom_def)
      then show ?thesis by (simp add: dom_map_of_conv_image_fst)
    qed
    have "set is \<subseteq> set (map fst (db_rows d))" using Cons.prems(3) by (simp only: doms) simp
    from Cons.IH [OF settled(4) rest(1) this, of "if b = DefaultApprove then m + 1 else m" "if b = ReworkLapsed then n + 1 else n"]
    obtain d' a l where ih: "expire_all is now clock (if b = DefaultApprove then m + 1 else m)
        (if b = ReworkLapsed then n + 1 else n) d
        = (d', (if b = DefaultApprove then m + 1 else m) + a, (if b = ReworkLapsed then n + 1 else n) + l, None)"
      "db_ok d'" "a + l = length (filter (\<lambda>i. \<exists>r. map_of (db_rows d) i = Some r \<and> silence_due now [] r) is)"
      "set (map fst (db_rows d')) = set (map fst (db_rows d))"
      "\<forall>j. j \<notin> set is \<longrightarrow> map_of (db_rows d') j = map_of (db_rows d) j"
      "\<forall>j r. map_of (db_rows d) j = Some r \<longrightarrow> \<not> silence_due now [] r \<longrightarrow> map_of (db_rows d') j = Some r"
      "\<forall>j r. j \<in> set is \<longrightarrow> map_of (db_rows d') j = Some r \<longrightarrow> \<not> silence_due now [] r" by blast
    have same: "filter (\<lambda>i. \<exists>r. map_of (db_rows d) i = Some r \<and> silence_due now [] r) is =
        filter (\<lambda>i. \<exists>r. map_of (db_rows db) i = Some r \<and> silence_due now [] r) is"
      using rest(2) settled(5) by (intro filter_cong) auto
    have all: "expire_all (i # is) now clock m n db = (d', m + (if b = DefaultApprove then a + 1 else a),
        n + (if b = ReworkLapsed then l + 1 else l), None)"
      using settled(2,3) ih(1) by auto
    have count: "(if b = DefaultApprove then a + 1 else a) + (if b = ReworkLapsed then l + 1 else l) =
        length (filter (\<lambda>i. \<exists>r. map_of (db_rows db) i = Some r \<and> silence_due now [] r) (i # is))"
      using settled(1,3) ih(3) r unfolding same by (auto simp: silence_due_def)
    have others: "map_of (db_rows d') j = map_of (db_rows db) j" if "j \<notin> set (i # is)" for j
      using ih(5) settled(5) that by simp
    have kept: "map_of (db_rows d') j = Some q" if "map_of (db_rows db) j = Some q" "\<not> silence_due now [] q" for j q
      using ih(6) settled(1,5) r that by (cases "j = i") (auto simp: silence_due_def)
    have cleared: "\<not> silence_due now [] q" if "j \<in> set (i # is)" "map_of (db_rows d') j = Some q" for j q
      using ih(5,7) settled(5,6) that by (cases "j \<in> set is") auto
    have pos: "(if b = DefaultApprove then a + 1 else a) + (if b = ReworkLapsed then l + 1 else l) = 0 \<longrightarrow> d' = db"
      using settled(3) by auto
    show ?thesis
      by (intro exI conjI) (rule all, rule ih(2), rule count, (use ih(4) doms others kept cleared pos in blast)+)
  qed
qed simp

lemma due_ids_members:
  assumes "db_ok db"
  shows "distinct (due_ids now ags db)"
    "i \<in> set (due_ids now ags db) \<Longrightarrow> \<exists>r. map_of (db_rows db) i = Some r \<and> due_row now ags r"
    "set (due_ids now ags db) \<subseteq> set (map fst (db_rows db))"
    "length (filter (\<lambda>p. due_row now ags (snd p)) (db_rows db)) \<le> 500 \<Longrightarrow>
      mset (due_ids now ags db) = mset (map fst (filter (\<lambda>p. due_row now ags (snd p)) (db_rows db)))"
proof -
  let ?due = "filter (\<lambda>p. due_row now ags (snd p)) (db_rows db)"
  let ?sorted = "map fst (sort_key expiry_key (sort_key fst ?due))"
  have dist: "distinct (map fst (db_rows db))" using assms by (simp add: db_ok_def)
  have m: "mset ?sorted = mset (map fst ?due)" by (simp only: mset_map mset_sort)
  have "distinct (map fst ?due)" using dist by (rule distinct_map_filter)
  then have "distinct ?sorted" using m by (metis mset_eq_imp_distinct_iff)
  then show "distinct (due_ids now ags db)" unfolding due_ids_def by (rule distinct_take)
  have "set (due_ids now ags db) \<subseteq> set ?sorted" unfolding due_ids_def by (rule set_take_subset)
  also have "set ?sorted = set (map fst ?due)" using m by (rule mset_eq_setD)
  finally have sub: "set (due_ids now ags db) \<subseteq> set (map fst ?due)" .
  then show "set (due_ids now ags db) \<subseteq> set (map fst (db_rows db))" by auto
  show "\<exists>r. map_of (db_rows db) i = Some r \<and> due_row now ags r" if "i \<in> set (due_ids now ags db)"
    using that sub dist by (force simp: map_of_eq_Some_iff)
  show "mset (due_ids now ags db) = mset (map fst ?due)" if "length ?due \<le> 500"
    using that m by (simp add: due_ids_def)
qed

lemma due_ids_count:
  assumes "db_ok db" "length (filter (\<lambda>p. due_row now (Some ags) (snd p)) (db_rows db)) \<le> 500"
  shows "length (filter (\<lambda>i. \<exists>r. map_of (db_rows db) i = Some r \<and> silence_due now [] r) (due_ids now (Some ags) db))
    = length (filter (\<lambda>p. silence_due now ags (snd p)) (db_rows db))"
proof -
  let ?P = "\<lambda>i. \<exists>r. map_of (db_rows db) i = Some r \<and> silence_due now [] r"
  let ?due = "filter (\<lambda>p. due_row now (Some ags) (snd p)) (db_rows db)"
  have dist: "distinct (map fst (db_rows db))" using assms(1) by (simp add: db_ok_def)
  have "mset (filter ?P (due_ids now (Some ags) db)) = mset (filter ?P (map fst ?due))"
    using due_ids_members(4) [OF assms] by (simp only: mset_filter)
  then have "length (filter ?P (due_ids now (Some ags) db)) = length (filter ?P (map fst ?due))" by (rule mset_eq_length)
  also have "\<dots> = length (filter (\<lambda>p. ?P (fst p)) ?due)" by (simp add: filter_map o_def)
  also have "filter (\<lambda>p. ?P (fst p)) ?due = filter (\<lambda>p. silence_due now ags (snd p)) (db_rows db)"
    unfolding filter_filter
  proof (rule filter_cong [OF refl])
    fix p assume p: "p \<in> set (db_rows db)"
    then have row: "map_of (db_rows db) (fst p) = Some (snd p)" using dist by (simp add: map_of_is_SomeI)
    have "due_row now (Some ags) (snd p)" if "silence_due now ags (snd p)"
      by (rule silence_is_selected [OF assms(1) row that])
    then show "(due_row now (Some ags) (snd p) \<and> ?P (fst p)) = silence_due now ags (snd p)"
      using row by (auto simp: silence_due_def due_row_def in_agreements_def)
  qed
  finally show ?thesis .
qed

text \<open>
  C13: a pass of the background job over given agreements (an empty list names all of them) that
  selects at most the 500 processes it takes finishes without an error, counts each process in
  which silence was due exactly once, and leaves none of the agreements' processes with silence
  due; it touches no other process, and a second pass at the same moment changes nothing. The
  scheduled pass, however, gives no list: it changes nothing at all.
\<close>

theorem background_pass_complete:
  assumes ok: "db_ok db" and few: "length (filter (\<lambda>p. due_row now (Some ags) (snd p)) (db_rows db)) \<le> 500"
  shows "\<exists>d a l. expire_due now clock (Some ags) db = (d, a, l, None)
    \<and> a + l = length (filter (\<lambda>p. silence_due now ags (snd p)) (db_rows db))
    \<and> (\<forall>i r. map_of (db_rows d) i = Some r \<longrightarrow> \<not> silence_due now ags r)
    \<and> (\<forall>i r. map_of (db_rows db) i = Some r \<longrightarrow> \<not> silence_due now ags r \<longrightarrow> map_of (db_rows d) i = Some r)
    \<and> expire_due now again (Some ags) d = (d, 0, 0, None)
    \<and> scheduled_pass now clock db = db"
proof -
  from expire_all_effect [OF ok due_ids_members(1,3) [OF ok], of now "Some ags" now clock 0 0]
  obtain d a l where d: "expire_due now clock (Some ags) db = (d, a, l, None)" "db_ok d"
    "a + l = length (filter (\<lambda>p. silence_due now ags (snd p)) (db_rows db))"
    "\<forall>i. i \<notin> set (due_ids now (Some ags) db) \<longrightarrow> map_of (db_rows d) i = map_of (db_rows db) i"
    "\<forall>i r. map_of (db_rows db) i = Some r \<longrightarrow> \<not> silence_due now [] r \<longrightarrow> map_of (db_rows d) i = Some r"
    "\<forall>i r. i \<in> set (due_ids now (Some ags) db) \<longrightarrow> map_of (db_rows d) i = Some r \<longrightarrow> \<not> silence_due now [] r"
    unfolding due_ids_count [OF ok few] expire_due_def add_0 by blast
  have cleared: "\<not> silence_due now ags r" if "map_of (db_rows d) i = Some r" for i r
  proof
    assume due: "silence_due now ags r"
    then have "silence_due now [] r" by (simp add: silence_due_def)
    with d(6) that have "i \<notin> set (due_ids now (Some ags) db)" by blast
    with d(4) that have "map_of (db_rows db) i = Some r" by simp
    from silence_is_selected [OF ok this due] have "due_row now (Some ags) r" .
    then have "(i, r) \<in> set (filter (\<lambda>p. due_row now (Some ags) (snd p)) (db_rows db))"
      using \<open>map_of (db_rows db) i = Some r\<close> by (auto dest: map_of_SomeD)
    then have "i \<in> set (map fst (filter (\<lambda>p. due_row now (Some ags) (snd p)) (db_rows db)))" by force
    then have "i \<in> set (due_ids now (Some ags) db)"
      using mset_eq_setD [OF due_ids_members(4) [OF ok few]] by simp
    with \<open>i \<notin> set (due_ids now (Some ags) db)\<close> show False by contradiction
  qed
  have kept: "map_of (db_rows d) i = Some r" if row: "map_of (db_rows db) i = Some r" and "\<not> silence_due now ags r" for i r
  proof (cases "i \<in> set (due_ids now (Some ags) db)")
    case True
    then have "due_row now (Some ags) r" using due_ids_members(2) [OF ok] row by fastforce
    then have "\<not> silence_due now [] r"
      using that(2) by (auto simp: silence_due_def due_row_def in_agreements_def)
    with d(5) row show ?thesis by blast
  next
    case False
    with d(4) row show ?thesis by simp
  qed
  have "\<not> silence_due now [] r" if "i \<in> set (due_ids now (Some ags) d)" "map_of (db_rows d) i = Some r" for i r
    using due_ids_members(2) [OF d(2) that(1)] that(2) cleared [OF that(2)]
    by (auto simp: silence_due_def due_row_def in_agreements_def)
  then have none: "filter (\<lambda>i. \<exists>r. map_of (db_rows d) i = Some r \<and> silence_due now [] r) (due_ids now (Some ags) d) = []"
    by (auto simp: filter_empty_conv)
  have second: "expire_due now again (Some ags) d = (d, 0, 0, None)"
    using expire_all_effect [OF d(2) due_ids_members(1,3) [OF d(2)], of now "Some ags" now again 0 0]
    unfolding expire_due_def none by auto
  have "due_ids now None db = []" by (simp add: due_ids_def due_row_def in_agreements_def)
  then have "scheduled_pass now clock db = db" by (simp add: scheduled_pass_def expire_due_def)
  with d(1,3) cleared kept second show ?thesis by blast
qed

definition sent_commands :: "reg_command list" where
  "sent_commands = [CmdCreate Agreement ''A1'' 2026 ''u1'' ''p1'', CmdAct ''p1'' Send ''u1'' [] 0 0 True]"

definition sent_db :: reg_db where
  "sent_db = run_machine execute sent_commands (empty_db [''u1''] [''A1''])"

lemma sent_db_ok: "db_ok sent_db"
  unfolding sent_db_def by (rule registry.run_inv [OF empty_db_ok])

lemma sent_commands_due:
  "length (filter (\<lambda>p. due_row 1296000000000000 (Some [''A1'']) (snd p)) (db_rows sent_db)) = 1"
  "length (filter (\<lambda>p. silence_due 1296000000000000 [''A1''] (snd p)) (db_rows sent_db)) = 1"
  by code_simp+

theorem background_pass_complete_witness:
  "(\<exists>d a l. expire_due 1296000000000000 (\<lambda>_. 0) (Some [''A1'']) sent_db = (d, a, l, None) \<and> a + l = 1)
    \<and> scheduled_pass 1296000000000000 (\<lambda>_. 0) sent_db = sent_db"
  using background_pass_complete [OF sent_db_ok, of 1296000000000000 "[''A1'']" "\<lambda>_. 0" "\<lambda>_. 0"] sent_commands_due
  by auto

end
