(* ===== verification/Rbac.thy ===== *)
theory Rbac
  imports Prelude
begin

text \<open>
  \<open>backend/internal/rbac/rbac.go\<close>: the permission model as a table of roles, with the permissions a
  role has, those it may take over with an orphaned task, and its scope. Roles and permissions are
  the texts that Go's string types hold; the titles are left out.
\<close>

section \<open>The table\<close>

type_synonym role = string
type_synonym permission = string

definition prepare_reports :: permission where "prepare_reports = ''reports.prepare''"
definition approve_reports :: permission where "approve_reports = ''reports.approve''"
definition edit_any_entry :: permission where "edit_any_entry = ''entries.edit_any''"
definition create_any_entry :: permission where "create_any_entry = ''entries.create_any''"
definition edit_internship_entries :: permission where "edit_internship_entries = ''entries.edit_internship''"
definition edit_teacher_entries :: permission where "edit_teacher_entries = ''entries.edit_teachers''"
definition propose_education_directory :: permission where "propose_education_directory = ''directory.propose''"
definition approve_education_directory :: permission where "approve_education_directory = ''directory.approve''"
definition manage_partner_structure :: permission where "manage_partner_structure = ''partner.manage_structure''"
definition manage_curator_assignments :: permission where
  "manage_curator_assignments = ''curators.manage_assignments''"
definition dispatch_tasks :: permission where "dispatch_tasks = ''tasks.dispatch''"
definition manage_it_companies :: permission where "manage_it_companies = ''it_companies.manage''"
definition seal_snapshot :: permission where "seal_snapshot = ''snapshot.seal''"
definition download_snapshot :: permission where "download_snapshot = ''snapshot.download''"
definition read_tenant_data :: permission where "read_tenant_data = ''tenant.read''"

lemmas permission_names =
  prepare_reports_def approve_reports_def edit_any_entry_def create_any_entry_def edit_internship_entries_def
  edit_teacher_entries_def propose_education_directory_def approve_education_directory_def
  manage_partner_structure_def manage_curator_assignments_def dispatch_tasks_def manage_it_companies_def
  seal_snapshot_def download_snapshot_def read_tenant_data_def

datatype scope = TenantScope | PartnerScope

record role_definition =
  rd_scope :: scope
  rd_permissions :: "permission list"
  rd_delegated :: "permission list"

definition roles :: "(role \<times> role_definition) list" where
  "roles =
   [(''super_admin'', \<lparr>rd_scope = TenantScope, rd_permissions =
       [prepare_reports, approve_reports, edit_any_entry, create_any_entry,
        edit_internship_entries, edit_teacher_entries, approve_education_directory,
        manage_partner_structure, manage_curator_assignments, dispatch_tasks, manage_it_companies, seal_snapshot,
        download_snapshot, read_tenant_data], rd_delegated = []\<rparr>),
    (''holding_admin'', \<lparr>rd_scope = TenantScope, rd_permissions =
       [prepare_reports, approve_reports, edit_any_entry, create_any_entry,
        edit_internship_entries, edit_teacher_entries, manage_partner_structure, manage_curator_assignments,
        dispatch_tasks, manage_it_companies, seal_snapshot, download_snapshot, read_tenant_data],
       rd_delegated = []\<rparr>),
    (''org_admin'', \<lparr>rd_scope = TenantScope, rd_permissions =
       [prepare_reports, approve_reports, edit_any_entry, create_any_entry,
        edit_internship_entries, edit_teacher_entries, propose_education_directory,
        manage_partner_structure, manage_curator_assignments, dispatch_tasks, seal_snapshot, download_snapshot,
        read_tenant_data], rd_delegated = []\<rparr>),
    (''curator'', \<lparr>rd_scope = PartnerScope, rd_permissions =
       [prepare_reports, edit_any_entry, create_any_entry,
        edit_internship_entries, edit_teacher_entries, manage_partner_structure, read_tenant_data],
       rd_delegated = [edit_internship_entries, edit_teacher_entries]\<rparr>),
    (''hr_specialist'', \<lparr>rd_scope = TenantScope, rd_permissions =
       [edit_any_entry, create_any_entry, edit_internship_entries, read_tenant_data], rd_delegated = []\<rparr>),
    (''financial_specialist'', \<lparr>rd_scope = TenantScope, rd_permissions =
       [edit_any_entry, edit_teacher_entries, read_tenant_data], rd_delegated = []\<rparr>),
    (''legal_specialist'', \<lparr>rd_scope = TenantScope, rd_permissions = [read_tenant_data], rd_delegated = []\<rparr>),
    (''auditor_viewer'', \<lparr>rd_scope = TenantScope, rd_permissions = [download_snapshot, read_tenant_data],
       rd_delegated = []\<rparr>)]"

definition permissions :: "permission list" where
  "permissions =
   [prepare_reports, approve_reports, edit_any_entry, create_any_entry,
    edit_internship_entries, edit_teacher_entries, propose_education_directory,
    approve_education_directory, manage_partner_structure, manage_curator_assignments, dispatch_tasks,
    manage_it_companies, seal_snapshot, download_snapshot, read_tenant_data]"

definition known_permission :: "permission \<Rightarrow> bool" where
  "known_permission p = list_ex (\<lambda>d. d = p) permissions"

definition all_roles :: "role list" where
  "all_roles =
   [''super_admin'', ''holding_admin'', ''org_admin'', ''curator'', ''hr_specialist'', ''financial_specialist'',
    ''legal_specialist'', ''auditor_viewer'']"

section \<open>Questions\<close>

definition allows :: "role \<Rightarrow> permission \<Rightarrow> bool" where
  "allows r p = (case map_of roles r of None \<Rightarrow> False | Some d \<Rightarrow> list_ex (\<lambda>g. g = p) (rd_permissions d))"

definition delegates :: "role \<Rightarrow> permission \<Rightarrow> bool" where
  "delegates r p = (case map_of roles r of None \<Rightarrow> False | Some d \<Rightarrow> list_ex (\<lambda>g. g = p) (rd_delegated d))"

definition scope_of :: "role \<Rightarrow> string \<Rightarrow> scope" where
  "scope_of r entity =
     (if entity = ''edu_institution'' then PartnerScope
      else (case map_of roles r of None \<Rightarrow> PartnerScope | Some d \<Rightarrow> rd_scope d))"

section \<open>Laws of the model\<close>

text \<open>A law of the table holds of every role when it holds of its eight lines.\<close>

lemma table_law:
  assumes "list_all (\<lambda>(r, d). P r d) roles" "map_of roles r = Some d"
  shows "P r d"
  using assms map_of_SomeD [OF assms(2)] by (auto simp: list_all_iff)

definition administrators :: "role list" where
  "administrators = [''super_admin'', ''holding_admin'', ''org_admin'']"

definition line_ok :: "role \<Rightarrow> role_definition \<Rightarrow> bool" where
  "line_ok r d = (r \<in> set all_roles \<and> list_all known_permission (rd_permissions d)
     \<and> list_all (\<lambda>p. p \<in> set (rd_permissions d)) (rd_delegated d)
     \<and> (approve_reports \<in> set (rd_permissions d) \<longrightarrow> r \<in> set administrators)
     \<and> (manage_curator_assignments \<in> set (rd_permissions d) \<longrightarrow> r \<in> set administrators)
     \<and> (rd_delegated d \<noteq> [] \<longrightarrow> r = ''curator'')
     \<and> \<not> (propose_education_directory \<in> set (rd_permissions d) \<and> approve_education_directory \<in> set (rd_permissions d))
     \<and> (rd_scope d = PartnerScope \<longleftrightarrow> r = ''curator''))"

lemma table_ok: "list_all (\<lambda>(r, d). line_ok r d) roles"
  by code_simp

text \<open>
  C19: the permission model separates duties: only administrators approve reports and assign curators,
  nobody both proposes and approves entries of the education directory, a delegated permission is
  one the role has anyway, only curators are delegated anything, every permission granted is
  declared, and a role that is not in the model is allowed nothing.
\<close>

theorem separation_of_duties:
  "(allows r approve_reports \<longrightarrow> r \<in> set administrators)
    \<and> (allows r manage_curator_assignments \<longrightarrow> r \<in> set administrators)
    \<and> \<not> (allows r propose_education_directory \<and> allows r approve_education_directory)
    \<and> (delegates r p \<longrightarrow> r = ''curator'' \<and> allows r p)
    \<and> (allows r p \<longrightarrow> known_permission p \<and> r \<in> set all_roles)"
proof (cases "map_of roles r")
  case None
  then show ?thesis by (simp add: allows_def delegates_def)
next
  case (Some d)
  have line: "line_ok r d" by (rule table_law [OF table_ok Some])
  have a: "allows r q \<longleftrightarrow> q \<in> set (rd_permissions d)" and b: "delegates r q \<longleftrightarrow> q \<in> set (rd_delegated d)" for q
    using Some by (auto simp: allows_def delegates_def list_ex_iff)
  have "q \<in> set (rd_delegated d) \<Longrightarrow> rd_delegated d \<noteq> []" for q by auto
  then show ?thesis using line unfolding line_ok_def list_all_iff a b by blast
qed

theorem separation_of_duties_witness: "delegates ''curator'' edit_teacher_entries \<and> allows ''curator'' edit_teacher_entries"
proof -
  have "delegates ''curator'' edit_teacher_entries" by code_simp
  then show ?thesis using separation_of_duties [of "''curator''" edit_teacher_entries] by blast
qed

end
