(* ===== verification/Curators.thy ===== *)
theory Curators
  imports GoDate Rbac "HOL-Library.Product_Lexorder"
begin

text \<open>
  \<open>backend/internal/curators/curators.go\<close>: the assignment of curators to partners for periods of
  days, over the tables of users, partners and assignments with the constraints and triggers of
  migration 0109. Days are day numbers; the texts the code compares are ISO dates, whose order is
  the order of the days (theory \<open>GoDate\<close>). Time stamps and generated identifiers are arguments.
\<close>

section \<open>Tables\<close>

record user_row =
  ur_role :: string
  ur_active :: bool
  ur_entity :: string
  ur_company :: "string option"
  ur_partner :: "string option"

record assignment =
  as_user :: string
  as_partner :: string
  as_company :: "string option"
  as_from :: int
  as_until :: "int option"
  as_by :: "string option"
  as_reason :: "string option"
  as_revoked :: "instant option"
  as_revoked_by :: "string option"
  as_revoke_reason :: "string option"

record staff_db =
  sd_users :: "(string \<times> user_row) list"
  sd_partners :: "(string \<times> string) list"
  sd_assignments :: "(string \<times> assignment) list"

datatype curator_error =
    AssignmentNotFound
  | Overlap
  | NotCurator
  | ForeignTenant
  | InvalidPeriod
  | AssignmentReasonRequired
  | AlreadyRevoked
  | NothingToChange
  | ForeignKey

section \<open>Periods\<close>

definition covers :: "assignment \<Rightarrow> int \<Rightarrow> bool" where
  "covers a day = (as_from a \<le> day \<and> (case as_until a of None \<Rightarrow> True | Some u \<Rightarrow> u \<ge> day))"

text \<open>\<open>Active\<close>: not revoked and in its period.\<close>

definition active :: "assignment \<Rightarrow> int \<Rightarrow> bool" where
  "active a day = (as_revoked a = None \<and> covers a day)"

definition periods_overlap :: "assignment \<Rightarrow> assignment \<Rightarrow> bool" where
  "periods_overlap a b =
     ((case as_until a of None \<Rightarrow> True | Some u \<Rightarrow> as_from b \<le> u) \<and>
      (case as_until b of None \<Rightarrow> True | Some u \<Rightarrow> as_from a \<le> u))"

definition proper_period :: "assignment \<Rightarrow> bool" where
  "proper_period a = (case as_until a of None \<Rightarrow> True | Some u \<Rightarrow> as_from a \<le> u)"

text \<open>\<open>current_partner_of\<close>: of the assignments in force, the one that starts last.\<close>

definition current_partner_of :: "string \<Rightarrow> int \<Rightarrow> staff_db \<Rightarrow> string option" where
  "current_partner_of u day db =
     (case sort_key (\<lambda>a. - as_from a) (filter (\<lambda>a. as_user a = u \<and> active a day) (map snd (sd_assignments db))) of
        [] \<Rightarrow> None | a # _ \<Rightarrow> Some (as_partner a))"

definition organization_curator :: "user_row \<Rightarrow> bool" where
  "organization_curator u = (ur_role u = ''curator'' \<and> ur_entity u = ''organization'')"

text \<open>The trigger \<open>refresh_curator_partner\<close>: the profile of one curator follows the assignments.\<close>

definition refresh_curator :: "string \<Rightarrow> int \<Rightarrow> staff_db \<Rightarrow> staff_db" where
  "refresh_curator u day db = (case map_of (sd_users db) u of
     Some r \<Rightarrow>
       if organization_curator r
       then db\<lparr>sd_users := AList.update u (r\<lparr>ur_partner := current_partner_of u day db\<rparr>) (sd_users db)\<rparr>
       else db
   | None \<Rightarrow> db)"

section \<open>Operations\<close>

text \<open>\<open>btrim\<close> of PostgreSQL removes spaces only.\<close>

definition btrim :: "string \<Rightarrow> string" where
  "btrim s = rev (dropWhile (\<lambda>c. c = CHR '' '') (rev (dropWhile (\<lambda>c. c = CHR '' '') s)))"

definition null_if_empty :: "string \<Rightarrow> string option" where
  "null_if_empty s = (if s = [] then None else Some s)"

text \<open>The trigger of the table on an insertion: who may be assigned to whom.\<close>

definition insert_guard :: "staff_db \<Rightarrow> string \<Rightarrow> string \<Rightarrow> curator_error + unit" where
  "insert_guard db user partner = (case map_of (sd_users db) user of
     None \<Rightarrow> Inr ()
   | Some u \<Rightarrow>
       if ur_entity u \<noteq> ''organization'' then Inr ()
       else if ur_role u \<noteq> ''curator'' then Inl NotCurator
       else if ur_company u = None \<or> map_of (sd_partners db) partner \<noteq> ur_company u then Inl ForeignTenant
       else Inr ())"

definition reason_length_ok :: "string option \<Rightarrow> bool" where
  "reason_length_ok r = (case r of None \<Rightarrow> True | Some s \<Rightarrow> 1 \<le> rune_count (btrim s) \<and> rune_count (btrim s) \<le> 2000)"

record assign_input =
  in_curator :: string
  in_partner :: string
  in_from :: int
  in_until :: "int option"
  in_by :: string
  in_reason :: string

definition new_assignment :: "assign_input \<Rightarrow> string option \<Rightarrow> assignment" where
  "new_assignment i company = \<lparr>as_user = in_curator i, as_partner = in_partner i, as_company = company,
     as_from = in_from i, as_until = in_until i, as_by = null_if_empty (in_by i),
     as_reason = null_if_empty (btrim (in_reason i)), as_revoked = None, as_revoked_by = None,
     as_revoke_reason = None\<rparr>"

definition overlapping :: "assignment \<Rightarrow> string \<times> assignment \<Rightarrow> bool" where
  "overlapping a p = (as_user (snd p) = as_user a \<and> as_revoked (snd p) = None \<and> periods_overlap a (snd p))"

text \<open>
  \<open>Assign\<close>: the insertion passes the trigger, the CHECK constraints, the exclusion of overlaps
  and the foreign keys, in this order; a violated CHECK is classified as an invalid period.
\<close>

definition assign :: "assign_input \<Rightarrow> string \<Rightarrow> instant \<Rightarrow> staff_db \<Rightarrow> curator_error + staff_db" where
  "assign i fresh now db =
     rbind (require (case in_until i of None \<Rightarrow> True | Some u \<Rightarrow> \<not> u < in_from i) InvalidPeriod) (\<lambda>_.
     rbind (insert_guard db (in_curator i) (in_partner i)) (\<lambda>_.
     let a = new_assignment i (map_of (sd_partners db) (in_partner i)) in
     rbind (require (proper_period a \<and> reason_length_ok (as_reason a)) InvalidPeriod) (\<lambda>_.
     rbind (require (\<not> list_ex (overlapping a) (sd_assignments db)) Overlap) (\<lambda>_.
     rbind (require (map_of (sd_users db) (in_curator i) \<noteq> None \<and> map_of (sd_partners db) (in_partner i) \<noteq> None
                     \<and> fresh \<notin> set (map fst (sd_assignments db))) ForeignKey) (\<lambda>_.
       Inr (refresh_curator (in_curator i) (moscow_day now)
         (db\<lparr>sd_assignments := sd_assignments db @ [(fresh, a)]\<rparr>)))))))"

definition get_assignment :: "string \<Rightarrow> staff_db \<Rightarrow> curator_error + assignment" where
  "get_assignment i db = (case map_of (sd_assignments db) i of None \<Rightarrow> Inl AssignmentNotFound | Some a \<Rightarrow> Inr a)"

definition put_assignment :: "string \<Rightarrow> assignment \<Rightarrow> instant \<Rightarrow> staff_db \<Rightarrow> staff_db" where
  "put_assignment i a now db =
     refresh_curator (as_user a) (moscow_day now) (db\<lparr>sd_assignments := AList.update i a (sd_assignments db)\<rparr>)"

definition end_assignment :: "string \<Rightarrow> int \<Rightarrow> instant \<Rightarrow> staff_db \<Rightarrow> curator_error + staff_db" where
  "end_assignment i day now db =
     rbind (get_assignment i db) (\<lambda>a.
     if as_revoked a \<noteq> None then Inl AlreadyRevoked
     else if day < as_from a then Inl InvalidPeriod
     else if (case as_until a of None \<Rightarrow> False | Some u \<Rightarrow> day \<ge> u) then Inl NothingToChange
     else Inr (put_assignment i (a\<lparr>as_until := Some day\<rparr>) now db))"

definition revoke :: "string \<Rightarrow> string \<Rightarrow> string \<Rightarrow> instant \<Rightarrow> staff_db \<Rightarrow> curator_error + staff_db" where
  "revoke i who raw now db =
     (let reason = trim_space raw in
      if reason = [] then Inl AssignmentReasonRequired
      else rbind (get_assignment i db) (\<lambda>a.
        if as_revoked a \<noteq> None then Inl AlreadyRevoked
        else if \<not> reason_length_ok (Some reason) then Inl InvalidPeriod
        else Inr (put_assignment i (a\<lparr>as_revoked := Some now, as_revoked_by := null_if_empty who,
                as_revoke_reason := Some reason\<rparr>) now db)))"

text \<open>\<open>ForPartner\<close>: the active curators in force for a partner, by the start of their period.\<close>

definition for_partner :: "string \<Rightarrow> instant \<Rightarrow> staff_db \<Rightarrow> string list" where
  "for_partner partner now db =
     map as_user (sort_key (\<lambda>a. (as_from a, as_user a))
       (filter (\<lambda>a. as_partner a = partner \<and> active a (moscow_day now)
          \<and> (case map_of (sd_users db) (as_user a) of None \<Rightarrow> False
             | Some u \<Rightarrow> ur_active u \<and> organization_curator u))
        (map snd (sd_assignments db))))"

text \<open>\<open>Sync\<close>: every profile follows its assignments; the number of corrected profiles.\<close>

definition out_of_sync :: "int \<Rightarrow> staff_db \<Rightarrow> string \<times> user_row \<Rightarrow> bool" where
  "out_of_sync day db p =
     (organization_curator (snd p) \<and> ur_partner (snd p) \<noteq> current_partner_of (fst p) day db)"

definition sync :: "instant \<Rightarrow> staff_db \<Rightarrow> staff_db \<times> nat" where
  "sync now db =
     (db\<lparr>sd_users := map (\<lambda>p. if out_of_sync (moscow_day now) db p
          then (fst p, (snd p)\<lparr>ur_partner := current_partner_of (fst p) (moscow_day now) db\<rparr>) else p) (sd_users db)\<rparr>,
      length (filter (out_of_sync (moscow_day now) db) (sd_users db)))"

record assignment_filter =
  af_curator :: string
  af_partner :: string
  af_company :: string
  af_active :: bool

definition list_assignments :: "assignment_filter \<Rightarrow> instant \<Rightarrow> staff_db \<Rightarrow> assignment list" where
  "list_assignments f now db =
     take 500 (sort_key (\<lambda>a. - as_from a)
       (filter (\<lambda>a. (af_curator f = [] \<or> as_user a = af_curator f) \<and> (af_partner f = [] \<or> as_partner a = af_partner f)
          \<and> (af_company f = [] \<or> as_company a = Some (af_company f))
          \<and> (\<not> af_active f \<or> active a (moscow_day now))) (map snd (rev (sd_assignments db)))))"

section \<open>One partner at a time\<close>

lemma refresh_curator_fixed [simp]:
  "sd_assignments (refresh_curator u d db) = sd_assignments db" "sd_partners (refresh_curator u d db) = sd_partners db"
  by (simp_all add: refresh_curator_def split: option.splits)

definition exclusive :: "(string \<times> assignment) list \<Rightarrow> bool" where
  "exclusive xs = (distinct (map fst xs) \<and> (\<forall>i a j b. (i, a) \<in> set xs \<longrightarrow> (j, b) \<in> set xs \<longrightarrow> i \<noteq> j \<longrightarrow>
     as_user a = as_user b \<longrightarrow> as_revoked a = None \<longrightarrow> as_revoked b = None \<longrightarrow> \<not> periods_overlap a b))"

definition staff_ok :: "staff_db \<Rightarrow> bool" where
  "staff_ok db = (exclusive (sd_assignments db)
     \<and> (\<forall>(i, a) \<in> set (sd_assignments db). proper_period a \<and> as_company a = map_of (sd_partners db) (as_partner a)))"

lemma covers_overlap: "covers a d \<Longrightarrow> covers b d \<Longrightarrow> periods_overlap a b"
  by (auto simp: covers_def periods_overlap_def split: option.splits)

lemma periods_overlap_sym: "periods_overlap a b = periods_overlap b a"
  by (auto simp: periods_overlap_def)

lemma exclusive_add:
  assumes "exclusive xs" "i \<notin> set (map fst xs)" "\<not> list_ex (overlapping a) xs"
  shows "exclusive (xs @ [(i, a)])"
  using assms unfolding exclusive_def overlapping_def list_ex_iff
  by (auto simp: periods_overlap_sym)

lemma set_update_distinct:
  "distinct (map fst xs) \<Longrightarrow> map_of xs i = Some a \<Longrightarrow>
    set (AList.update i b xs) = {p \<in> set xs. fst p \<noteq> i} \<union> {(i, b)}"
proof (induction xs)
  case (Cons p xs)
  then show ?case by (cases p) (auto simp: image_iff split: if_splits)
qed simp

text \<open>A change that only narrows what an assignment covers keeps the table exclusive.\<close>

lemma exclusive_narrow:
  assumes x: "exclusive xs" and i: "map_of xs i = Some a" and user: "as_user b = as_user a"
    and narrow: "\<And>c. as_revoked b = None \<Longrightarrow> periods_overlap b c \<Longrightarrow> as_revoked a = None \<and> periods_overlap a c"
  shows "exclusive (AList.update i b xs)"
proof -
  have d: "distinct (map fst xs)" using x by (simp add: exclusive_def)
  have mem: "(i, a) \<in> set xs" using i by (rule map_of_SomeD)
  have "\<not> periods_overlap b c" if "(j, c) \<in> set xs" "j \<noteq> i" "as_user c = as_user a" "as_revoked b = None"
    "as_revoked c = None" for j c
    using x mem that narrow [OF that(4), of c] unfolding exclusive_def by metis
  then show ?thesis
    using x user periods_overlap_sym unfolding exclusive_def set_update_distinct [OF d i] distinct_update
    by (auto simp: distinct_update)
qed

lemma put_assignment_ok:
  assumes "staff_ok db" "map_of (sd_assignments db) i = Some a" "as_user b = as_user a" "as_partner b = as_partner a"
    "as_company b = as_company a" "proper_period b"
    "\<And>c. as_revoked b = None \<Longrightarrow> periods_overlap b c \<Longrightarrow> as_revoked a = None \<and> periods_overlap a c"
  shows "staff_ok (put_assignment i b now db)"
proof -
  have x: "exclusive (sd_assignments db)" using assms(1) by (simp add: staff_ok_def)
  then have d: "distinct (map fst (sd_assignments db))" by (simp add: exclusive_def)
  have "(i, a) \<in> set (sd_assignments db)" using assms(2) by (rule map_of_SomeD)
  then have "as_company a = map_of (sd_partners db) (as_partner a)" using assms(1) by (auto simp: staff_ok_def)
  then show ?thesis
    using assms(1,4-6) exclusive_narrow [OF x assms(2,3,7)]
    unfolding staff_ok_def put_assignment_def by (auto simp: set_update_distinct [OF d assms(2)])
qed

datatype staff_command =
    CmdAssign assign_input string instant
  | CmdEnd string int instant
  | CmdRevoke string string string instant
  | CmdSync instant

fun staff_step :: "staff_command \<Rightarrow> staff_db \<Rightarrow> curator_error + staff_db" where
  "staff_step (CmdAssign i fresh now) db = assign i fresh now db"
| "staff_step (CmdEnd i day now) db = end_assignment i day now db"
| "staff_step (CmdRevoke i who reason now) db = revoke i who reason now db"
| "staff_step (CmdSync now) db = Inr (fst (sync now db))"

lemma assign_ok:
  assumes "staff_ok db" "assign i fresh now db = Inr db'"
  shows "staff_ok db'"
proof -
  let ?a = "new_assignment i (map_of (sd_partners db) (in_partner i))"
  have h: "proper_period ?a" "\<not> list_ex (overlapping ?a) (sd_assignments db)"
    "fresh \<notin> set (map fst (sd_assignments db))"
    "db' = refresh_curator (in_curator i) (moscow_day now) (db\<lparr>sd_assignments := sd_assignments db @ [(fresh, ?a)]\<rparr>)"
    using assms(2) by (auto simp: assign_def Let_def rbind_Inr)
  then show ?thesis
    using assms(1) exclusive_add [OF _ h(3,2)] by (auto simp: staff_ok_def new_assignment_def)
qed

lemma end_ok:
  assumes "staff_ok db" "end_assignment i day now db = Inr db'"
  shows "staff_ok db'"
proof -
  obtain a where a: "map_of (sd_assignments db) i = Some a" "as_revoked a = None" "as_from a \<le> day"
    "\<forall>u. as_until a = Some u \<longrightarrow> day < u" "db' = put_assignment i (a\<lparr>as_until := Some day\<rparr>) now db"
    using assms(2) by (auto simp: end_assignment_def get_assignment_def rbind_Inr split: option.splits if_splits)
  show ?thesis unfolding a(5)
    by (rule put_assignment_ok [OF assms(1) a(1)])
       (use a in \<open>auto simp: proper_period_def periods_overlap_def split: option.splits\<close>)
qed

lemma revoke_ok:
  assumes "staff_ok db" "revoke i who raw now db = Inr db'"
  shows "staff_ok db'"
proof -
  obtain a b where a: "map_of (sd_assignments db) i = Some a" "db' = put_assignment i b now db"
    "b = a\<lparr>as_revoked := Some now, as_revoked_by := null_if_empty who, as_revoke_reason := Some (trim_space raw)\<rparr>"
    using assms(2) by (auto simp: revoke_def get_assignment_def rbind_Inr Let_def split: option.splits if_splits)
  have "(i, a) \<in> set (sd_assignments db)" using a(1) by (rule map_of_SomeD)
  then have "proper_period a" using assms(1) by (auto simp: staff_ok_def)
  then show ?thesis unfolding a(2)
    by (intro put_assignment_ok [OF assms(1) a(1)]) (simp_all add: a(3) proper_period_def split: option.splits)
qed

interpretation staff: guarded_machine staff_step staff_ok
proof unfold_locales
  fix db db' :: staff_db and c :: staff_command
  assume "staff_ok db" "staff_step c db = Inr db'"
  then show "staff_ok db'"
  proof (cases c)
    case (CmdAssign i fresh now)
    then show ?thesis using assign_ok \<open>staff_ok db\<close> \<open>staff_step c db = Inr db'\<close> by simp
  next
    case (CmdEnd i day now)
    then show ?thesis using end_ok \<open>staff_ok db\<close> \<open>staff_step c db = Inr db'\<close> by simp
  next
    case (CmdRevoke i who reason now)
    then show ?thesis using revoke_ok \<open>staff_ok db\<close> \<open>staff_step c db = Inr db'\<close> by simp
  next
    case (CmdSync now)
    then have "sd_assignments db' = sd_assignments db" "sd_partners db' = sd_partners db"
      using \<open>staff_step c db = Inr db'\<close> by (auto simp: sync_def)
    then show ?thesis using \<open>staff_ok db\<close> by (simp add: staff_ok_def)
  qed
qed

text \<open>
  C17: whatever assignments, endings, revocations and synchronisations are run, in any order, on a
  database that starts without assignments, a curator is assigned to at most one partner on any
  day, by one assignment, and to a partner of the company the assignment records.
\<close>

theorem one_partner_per_day:
  assumes "sd_assignments db = []"
    and "(i, a) \<in> set (sd_assignments (run_machine staff_step commands db))"
    and "(j, b) \<in> set (sd_assignments (run_machine staff_step commands db))"
    and "as_user a = as_user b" "active a day" "active b day"
  shows "i = j \<and> a = b \<and> as_company a = map_of (sd_partners (run_machine staff_step commands db)) (as_partner a)"
proof -
  let ?db = "run_machine staff_step commands db"
  have "staff_ok db" using assms(1) by (simp add: staff_ok_def exclusive_def)
  then have ok: "staff_ok ?db" by (rule staff.run_inv)
  then have x: "exclusive (sd_assignments ?db)" by (simp add: staff_ok_def)
  have "i = j"
    using x assms(2-6) covers_overlap unfolding exclusive_def active_def by metis
  moreover have "a = b"
    using x assms(2,3) \<open>i = j\<close> by (auto simp: exclusive_def dest: eq_key_imp_eq_value)
  ultimately show ?thesis using ok assms(2) by (auto simp: staff_ok_def)
qed

definition staff_example :: staff_db where
  "staff_example = \<lparr>sd_users = [(''u1'', \<lparr>ur_role = ''curator'', ur_active = True, ur_entity = ''organization'',
       ur_company = Some ''c1'', ur_partner = None\<rparr>)],
     sd_partners = [(''p1'', ''c1''), (''p2'', ''c1'')], sd_assignments = []\<rparr>"

definition assign_example :: "string \<Rightarrow> int \<Rightarrow> int option \<Rightarrow> assign_input" where
  "assign_example p from until = \<lparr>in_curator = ''u1'', in_partner = p, in_from = from, in_until = until,
     in_by = [], in_reason = []\<rparr>"

definition staff_commands :: "staff_command list" where
  "staff_commands = [CmdAssign (assign_example ''p1'' 10 (Some 20)) ''a1'' 0,
     CmdAssign (assign_example ''p2'' 15 None) ''a2'' 0, CmdAssign (assign_example ''p2'' 21 None) ''a3'' 0]"

lemma staff_example_run:
  "map (\<lambda>(i, a). (i, as_user a, active a 15))
     (sd_assignments (run_machine staff_step staff_commands staff_example)) = [(''a1'', ''u1'', True), (''a3'', ''u1'', False)]"
  by code_simp

theorem one_partner_per_day_witness:
  "\<exists>a. (''a1'', a) \<in> set (sd_assignments (run_machine staff_step staff_commands staff_example))
    \<and> as_company a = map_of (sd_partners (run_machine staff_step staff_commands staff_example)) (as_partner a)"
proof -
  obtain a where a: "(''a1'', a) \<in> set (sd_assignments (run_machine staff_step staff_commands staff_example))" "active a 15"
    using staff_example_run by auto
  have "sd_assignments staff_example = []" by (simp add: staff_example_def)
  from one_partner_per_day [OF this a(1) a(1) refl a(2) a(2)] a(1) show ?thesis by blast
qed

section \<open>Endings and synchronisation\<close>

text \<open>
  Ending an assignment only shortens it: it is in force afterwards exactly on the days up to the
  given one on which it was in force before, and every other assignment stays as it was.
\<close>

theorem ending_shortens:
  assumes "end_assignment i day now db = Inr db'"
  shows "\<exists>a b. map_of (sd_assignments db) i = Some a \<and> map_of (sd_assignments db') i = Some b
    \<and> (\<forall>d. active b d \<longleftrightarrow> active a d \<and> d \<le> day)
    \<and> (\<forall>j. j \<noteq> i \<longrightarrow> map_of (sd_assignments db') j = map_of (sd_assignments db) j)"
proof -
  obtain a where a: "map_of (sd_assignments db) i = Some a" "as_revoked a = None" "as_from a \<le> day"
    "\<forall>u. as_until a = Some u \<longrightarrow> day < u" "db' = put_assignment i (a\<lparr>as_until := Some day\<rparr>) now db"
    using assms by (auto simp: end_assignment_def get_assignment_def rbind_Inr split: option.splits if_splits)
  have "active (a\<lparr>as_until := Some day\<rparr>) d \<longleftrightarrow> active a d \<and> d \<le> day" for d
    using a(2-4) by (auto simp: active_def covers_def split: option.splits)
  then show ?thesis using a(1,5) by (auto simp: put_assignment_def map_of_update_other)
qed

definition staffed :: staff_db where
  "staffed = run_machine staff_step staff_commands staff_example"

lemma ending_example: "succeeds (end_assignment ''a1'' 12 0 staffed)"
  by code_simp

theorem ending_shortens_witness:
  "\<exists>db'. end_assignment ''a1'' 12 0 staffed = Inr db' \<and>
    (\<exists>a b. map_of (sd_assignments staffed) ''a1'' = Some a \<and> map_of (sd_assignments db') ''a1'' = Some b
    \<and> (\<forall>d. active b d \<longleftrightarrow> active a d \<and> d \<le> 12)
    \<and> (\<forall>j. j \<noteq> ''a1'' \<longrightarrow> map_of (sd_assignments db') j = map_of (sd_assignments staffed) j))"
proof -
  obtain db' where E: "end_assignment ''a1'' 12 0 staffed = Inr db'"
    using ending_example unfolding succeeds_iff by (elim exE)
  show ?thesis by (rule exI, rule conjI, rule E, rule ending_shortens [OF E])
qed

lemma organization_curator_partner [simp]: "organization_curator (r\<lparr>ur_partner := x\<rparr>) = organization_curator r"
  by (simp add: organization_curator_def)

lemma current_partner_users: "current_partner_of u d (db\<lparr>sd_users := us\<rparr>) = current_partner_of u d db"
  by (simp add: current_partner_of_def)

text \<open>
  What the profile of a user should show on a day, read off the assignments alone: the partner of
  one that is not revoked and whose period contains the day, and of several the one that starts last.
\<close>

definition assigned_on :: "string \<Rightarrow> int \<Rightarrow> assignment \<Rightarrow> bool" where
  "assigned_on u day a = (as_user a = u \<and> as_revoked a = None \<and> as_from a \<le> day
     \<and> (\<forall>last. as_until a = Some last \<longrightarrow> day \<le> last))"

lemma assigned_on_iff: "assigned_on u day a \<longleftrightarrow> as_user a = u \<and> active a day"
  by (auto simp: assigned_on_def active_def covers_def split: option.splits)

definition shows_partner :: "string \<Rightarrow> int \<Rightarrow> assignment list \<Rightarrow> string option \<Rightarrow> bool" where
  "shows_partner u day as shown = (case shown of
     None \<Rightarrow> \<forall>a \<in> set as. \<not> assigned_on u day a
   | Some p \<Rightarrow> \<exists>a \<in> set as. assigned_on u day a \<and> as_partner a = p
       \<and> (\<forall>b \<in> set as. assigned_on u day b \<longrightarrow> as_from b \<le> as_from a))"

lemma current_partner_shown: "shows_partner u day (map snd (sd_assignments db)) (current_partner_of u day db)"
proof -
  let ?as = "filter (\<lambda>a. as_user a = u \<and> active a day) (map snd (sd_assignments db))"
  have force: "a \<in> set ?as \<longleftrightarrow> a \<in> set (map snd (sd_assignments db)) \<and> assigned_on u day a" for a
    by (auto simp: assigned_on_iff)
  show ?thesis
  proof (cases "sort_key (\<lambda>a. - as_from a) ?as")
    case Nil
    then have "set ?as = {}" by (metis set_empty set_sort)
    then show ?thesis using Nil force by (auto simp: shows_partner_def current_partner_of_def)
  next
    case (Cons a rest)
    have mem: "set (a # rest) = set ?as" using Cons by (metis set_sort)
    have "sorted (map (\<lambda>a. - as_from a) (a # rest))" using Cons by (metis sorted_sort_key)
    then have "\<forall>b \<in> set ?as. as_from b \<le> as_from a" unfolding mem [symmetric] by auto
    moreover have "a \<in> set ?as" using mem by auto
    ultimately show ?thesis
      using Cons force unfolding shows_partner_def current_partner_of_def by (simp only: list.case option.case) blast
  qed
qed

text \<open>
  C18: after a synchronisation the profile of every curator of an organisation shows the partner of
  the assignment in force on the Moscow day of the run (not revoked, begun and not over; the one
  that starts last), or none when no assignment is in force. Nothing but these profiles' partners
  changes, no other user is touched, and a second run corrects nothing.
\<close>

theorem sync_settles:
  "(\<forall>(u, r) \<in> set (sd_users (fst (sync now db))). organization_curator r \<longrightarrow>
      shows_partner u (moscow_day now) (map snd (sd_assignments db)) (ur_partner r))
    \<and> sync now (fst (sync now db)) = (fst (sync now db), 0)
    \<and> map (\<lambda>(u, r). (u, r\<lparr>ur_partner := None\<rparr>)) (sd_users (fst (sync now db)))
        = map (\<lambda>(u, r). (u, r\<lparr>ur_partner := None\<rparr>)) (sd_users db)
    \<and> sd_assignments (fst (sync now db)) = sd_assignments db
    \<and> (\<forall>p \<in> set (sd_users db). \<not> organization_curator (snd p) \<longrightarrow> p \<in> set (sd_users (fst (sync now db))))"
proof -
  let ?day = "moscow_day now"
  let ?us = "sd_users (fst (sync now db))"
  have all: "organization_curator r \<Longrightarrow> ur_partner r = current_partner_of u ?day db" if "(u, r) \<in> set ?us" for u r
    using that by (auto simp: sync_def out_of_sync_def split: if_splits)
  have "\<not> out_of_sync ?day (fst (sync now db)) p" if "p \<in> set ?us" for p
    using all [of "fst p" "snd p"] that current_partner_users by (auto simp: out_of_sync_def sync_def)
  then have "filter (out_of_sync ?day (fst (sync now db))) ?us = []" "map (\<lambda>p. if out_of_sync ?day (fst (sync now db)) p
      then (fst p, (snd p)\<lparr>ur_partner := current_partner_of (fst p) ?day (fst (sync now db))\<rparr>) else p) ?us = ?us"
    by (simp_all add: filter_empty_conv map_idI)
  then have "sync now (fst (sync now db)) = (fst (sync now db), 0)"
    unfolding sync_def [of now "fst (sync now db)"] by simp
  moreover have "p \<in> set ?us" if "p \<in> set (sd_users db)" "\<not> organization_curator (snd p)" for p
    using that by (force simp: sync_def out_of_sync_def)
  moreover have "map (\<lambda>(u, r). (u, r\<lparr>ur_partner := None\<rparr>)) ?us = map (\<lambda>(u, r). (u, r\<lparr>ur_partner := None\<rparr>)) (sd_users db)"
    by (simp add: sync_def split_def)
  moreover have "sd_assignments (fst (sync now db)) = sd_assignments db" by (simp add: sync_def)
  ultimately show ?thesis using all current_partner_shown by auto
qed

definition unsynced :: staff_db where
  "unsynced = staffed\<lparr>sd_users := [(''u1'', \<lparr>ur_role = ''curator'', ur_active = True, ur_entity = ''organization'',
       ur_company = Some ''c1'', ur_partner = None\<rparr>)]\<rparr>"

lemma unsynced_settled:
  "map (\<lambda>(i, r). organization_curator r) (sd_users (fst (sync 1296000000000000 unsynced))) = [True]"
  "current_partner_of ''u1'' (moscow_day 1296000000000000) unsynced = Some ''p1''"
  "map fst (sd_users (fst (sync 1296000000000000 unsynced))) = [''u1'']"
  by code_simp+

lemma unsynced_only:
  "a \<in> set (map snd (sd_assignments unsynced)) \<Longrightarrow> assigned_on ''u1'' (moscow_day 1296000000000000) a \<Longrightarrow>
    as_partner a = ''p1''"
proof -
  have "list_all (\<lambda>a. active a (moscow_day 1296000000000000) \<longrightarrow> as_partner a = ''p1'') (map snd (sd_assignments unsynced))"
    by code_simp
  then show "a \<in> set (map snd (sd_assignments unsynced)) \<Longrightarrow> assigned_on ''u1'' (moscow_day 1296000000000000) a \<Longrightarrow>
    as_partner a = ''p1''"
    by (auto simp: list_all_iff assigned_on_iff)
qed

theorem sync_settles_witness:
  "\<exists>r. (''u1'', r) \<in> set (sd_users (fst (sync 1296000000000000 unsynced))) \<and> ur_partner r = Some ''p1''"
proof -
  obtain r where r: "sd_users (fst (sync 1296000000000000 unsynced)) = [(''u1'', r)]" "organization_curator r"
    using unsynced_settled(1,3) by (cases "sd_users (fst (sync 1296000000000000 unsynced))") auto
  have "shows_partner ''u1'' (moscow_day 1296000000000000) (map snd (sd_assignments unsynced)) (ur_partner r)"
    using sync_settles [of 1296000000000000 unsynced] r by auto
  moreover have "ur_partner r \<noteq> None"
  proof
    assume "ur_partner r = None"
    moreover have "\<exists>a \<in> set (map snd (sd_assignments unsynced)). assigned_on ''u1'' (moscow_day 1296000000000000) a"
      using current_partner_shown [of "''u1''" "moscow_day 1296000000000000" unsynced] unsynced_settled(2)
      by (auto simp: shows_partner_def)
    ultimately show False using sync_settles [of 1296000000000000 unsynced] r by (auto simp: shows_partner_def)
  qed
  ultimately show ?thesis using r(1) unsynced_only by (auto simp: shows_partner_def split: option.splits)
qed

end
