(* ===== verification/TaskRouting.thy ===== *)
theory TaskRouting
  imports Curators
begin

text \<open>
  \<open>backend/internal/tasks/resolve.go\<close> and the reading of candidates in \<open>store.go\<close>: who gets a task
  of the workflow, along the chain specialist, assigned curator, ORG_ADMIN, SUPER_ADMIN, and who may
  carry it out.
\<close>

section \<open>Texts of the reasons\<close>

definition no_specialist_text :: string where
  "no_specialist_text =
    utf8 [1085, 1077, 1090, 32, 1072, 1082, 1090, 1080, 1074, 1085, 1086, 1075, 1086, 32, 1087, 1086,
    1083, 1100, 1079, 1086, 1074, 1072, 1090, 1077, 1083, 1103, 32, 1088, 1086, 1083, 1080, 32]"

definition no_partner_text :: string where
  "no_partner_text =
    utf8 [59, 32, 1079, 1072, 1076, 1072, 1095, 1072, 32, 1085, 1077, 32, 1087, 1088, 1080, 1074, 1103,
    1079, 1072, 1085, 1072, 32, 1082, 32, 1087, 1072, 1088, 1090, 1085, 1105, 1088, 1091, 44, 32, 1082,
    1091, 1088, 1072, 1090, 1086, 1088, 1072, 32, 1074, 1099, 1073, 1088, 1072, 1090, 1100, 32, 1085,
    1077, 1083, 1100, 1079, 1103]"

definition permission_text :: string where
  "permission_text =
    utf8 [59, 32, 1087, 1086, 1083, 1085, 1086, 1084, 1086, 1095, 1080, 1077, 32]"

definition not_delegated_text :: string where
  "not_delegated_text =
    utf8 [32, 1082, 1091, 1088, 1072, 1090, 1086, 1088, 1091, 32, 1085, 1077, 32, 1076, 1077, 1083,
    1077, 1075, 1080, 1088, 1091, 1077, 1090, 1089, 1103]"

definition no_curator_text :: string where
  "no_curator_text =
    utf8 [59, 32, 1079, 1072, 32, 1087, 1072, 1088, 1090, 1085, 1105, 1088, 1086, 1084, 32, 1085, 1077,
    1090, 32, 1076, 1077, 1081, 1089, 1090, 1074, 1091, 1102, 1097, 1077, 1075, 1086, 32, 1082, 1091,
    1088, 1072, 1090, 1086, 1088, 1072]"

definition curator_text :: string where
  "curator_text =
    utf8 [59, 32, 1079, 1072, 1076, 1072, 1095, 1072, 32, 1085, 1072, 1079, 1085, 1072, 1095, 1077,
    1085, 1072, 32, 1079, 1072, 1082, 1088, 1077, 1087, 1083, 1105, 1085, 1085, 1086, 1084, 1091, 32,
    1082, 1091, 1088, 1072, 1090, 1086, 1088, 1091]"

definition org_admin_text :: string where
  "org_admin_text =
    utf8 [59, 32, 1101, 1089, 1082, 1072, 1083, 1072, 1094, 1080, 1103, 32, 79, 82, 71, 95, 65, 68, 77,
    73, 78]"

definition super_admin_text :: string where
  "super_admin_text =
    utf8 [59, 32, 1101, 1089, 1082, 1072, 1083, 1072, 1094, 1080, 1103, 32, 83, 85, 80, 69, 82, 95, 65,
    68, 77, 73, 78]"

definition nobody_text :: string where
  "nobody_text =
    utf8 [59, 32, 1080, 1089, 1087, 1086, 1083, 1085, 1080, 1090, 1077, 1083, 1103, 32, 1085, 1077,
    1090, 32, 1085, 1080, 32, 1085, 1072, 32, 1086, 1076, 1085, 1086, 1084, 32, 1096, 1072, 1075, 1077,
    32, 1094, 1077, 1087, 1086, 1095, 1082, 1080]"

section \<open>The chain\<close>

datatype route = RouteSpecialist | RouteCurator | RouteOrgAdmin | RouteSuperAdmin | RouteUnassigned

record requirement =
  rq_role :: role
  rq_permission :: permission
  rq_has_partner :: bool

record candidates =
  cd_specialists :: "string list"
  cd_curators :: "string list"
  cd_org_admins :: "string list"
  cd_super_admins :: "string list"

record decision =
  de_assignee :: string
  de_route :: route
  de_escalated :: bool
  de_reason :: string

text \<open>The steps above the curator: an administrator takes a task his own role may carry out.\<close>

definition escalate :: "requirement \<Rightarrow> candidates \<Rightarrow> string \<Rightarrow> decision" where
  "escalate req c reason =
     (if cd_org_admins c \<noteq> [] \<and> allows ''org_admin'' (rq_permission req)
      then \<lparr>de_assignee = hd (cd_org_admins c), de_route = RouteOrgAdmin, de_escalated = True,
            de_reason = reason @ org_admin_text\<rparr>
      else if cd_super_admins c \<noteq> [] \<and> allows ''super_admin'' (rq_permission req)
      then \<lparr>de_assignee = hd (cd_super_admins c), de_route = RouteSuperAdmin, de_escalated = True,
            de_reason = reason @ super_admin_text\<rparr>
      else \<lparr>de_assignee = [], de_route = RouteUnassigned, de_escalated = True, de_reason = reason @ nobody_text\<rparr>)"

definition resolve :: "requirement \<Rightarrow> candidates \<Rightarrow> decision" where
  "resolve req c =
     (if cd_specialists c \<noteq> []
      then \<lparr>de_assignee = hd (cd_specialists c), de_route = RouteSpecialist, de_escalated = False, de_reason = []\<rparr>
      else let reason = no_specialist_text @ rq_role req in
        if \<not> rq_has_partner req then escalate req c (reason @ no_partner_text)
        else if \<not> delegates ''curator'' (rq_permission req)
        then escalate req c (reason @ permission_text @ rq_permission req @ not_delegated_text)
        else if cd_curators c = [] then escalate req c (reason @ no_curator_text)
        else \<lparr>de_assignee = hd (cd_curators c), de_route = RouteCurator, de_escalated = False,
               de_reason = reason @ curator_text\<rparr>)"

definition can_execute :: "role \<Rightarrow> bool \<Rightarrow> route \<Rightarrow> permission \<Rightarrow> bool" where
  "can_execute user is_assignee r p =
     (if \<not> is_assignee then False else if r = RouteCurator then delegates user p else allows user p)"

section \<open>Candidates\<close>

text \<open>
  \<open>byRole\<close>: the active users of a role in the company, and those without a company unless only
  the company's own are wanted; own users first, then by their open tasks, then by identifier.
\<close>

definition by_role :: "staff_db \<Rightarrow> (string \<Rightarrow> nat) \<Rightarrow> string \<Rightarrow> string \<Rightarrow> bool \<Rightarrow> string list" where
  "by_role db open_tasks role company tenant_only =
     map fst (sort_key (\<lambda>(i, u). (ur_company u = None, open_tasks i, i))
       (filter (\<lambda>(i, u). ur_active u \<and> ur_role u = role \<and> ur_entity u = ''organization''
            \<and> (ur_company u = Some company \<or> \<not> tenant_only \<and> ur_company u = None)) (sd_users db)))"

definition candidates_of :: "staff_db \<Rightarrow> (string \<Rightarrow> nat) \<Rightarrow> string \<Rightarrow> string \<Rightarrow> string \<Rightarrow> instant \<Rightarrow> candidates" where
  "candidates_of db open_tasks company partner role now =
     (let curators = (if partner \<noteq> [] then for_partner partner now db else [])
      in \<lparr>cd_specialists = (if role = ''curator'' then curators else by_role db open_tasks role company True),
          cd_curators = curators,
          cd_org_admins = by_role db open_tasks ''org_admin'' company True,
          cd_super_admins = by_role db open_tasks ''super_admin'' company False\<rparr>)"

section \<open>Laws of the chain\<close>

definition known_user :: "staff_db \<Rightarrow> string \<Rightarrow> bool" where
  "known_user db i = (i \<in> set (map fst (sd_users db)))"

text \<open>The pool of a step of the chain.\<close>

definition pool :: "route \<Rightarrow> candidates \<Rightarrow> string list" where
  "pool r c = (case r of RouteSpecialist \<Rightarrow> cd_specialists c | RouteCurator \<Rightarrow> cd_curators c
     | RouteOrgAdmin \<Rightarrow> cd_org_admins c | RouteSuperAdmin \<Rightarrow> cd_super_admins c | RouteUnassigned \<Rightarrow> [])"


definition delegated_curator :: "requirement \<Rightarrow> candidates \<Rightarrow> bool" where
  "delegated_curator req c = (rq_has_partner req \<and> delegates ''curator'' (rq_permission req) \<and> cd_curators c \<noteq> [])"

definition admin_step :: "requirement \<Rightarrow> candidates \<Rightarrow> route" where
  "admin_step req c = (if cd_org_admins c \<noteq> [] \<and> allows ''org_admin'' (rq_permission req) then RouteOrgAdmin
     else if cd_super_admins c \<noteq> [] \<and> allows ''super_admin'' (rq_permission req) then RouteSuperAdmin
     else RouteUnassigned)"

lemma escalate_fields:
  "de_route (escalate req c reason) = admin_step req c" "de_escalated (escalate req c reason)"
  "de_assignee (escalate req c reason) = (case pool (admin_step req c) c of [] \<Rightarrow> [] | u # _ \<Rightarrow> u)"
  "reason \<noteq> [] \<Longrightarrow> de_reason (escalate req c reason) \<noteq> []"
  by (auto simp: escalate_def admin_step_def pool_def split: list.splits)

lemma no_specialist_text_filled [simp]: "no_specialist_text \<noteq> []"
  by code_simp

text \<open>The route is decided by which pools are empty; the assignee is the first of its pool.\<close>

lemma resolve_route:
  "de_route (resolve req c) = (if cd_specialists c \<noteq> [] then RouteSpecialist
     else if delegated_curator req c then RouteCurator else admin_step req c)"
  by (simp add: resolve_def Let_def delegated_curator_def escalate_fields)

lemma resolve_assignee:
  "de_assignee (resolve req c) = (case pool (de_route (resolve req c)) c of [] \<Rightarrow> [] | u # _ \<Rightarrow> u)"
  unfolding resolve_route
  by (auto simp: resolve_def Let_def delegated_curator_def escalate_fields pool_def split: list.splits)

lemma resolve_pool: "de_route (resolve req c) \<noteq> RouteUnassigned \<Longrightarrow> pool (de_route (resolve req c)) c \<noteq> []"
  unfolding resolve_route by (auto simp: delegated_curator_def pool_def admin_step_def split: if_splits)

lemma resolve_escalated:
  "de_escalated (resolve req c) \<longleftrightarrow> de_route (resolve req c) \<in> {RouteOrgAdmin, RouteSuperAdmin, RouteUnassigned}"
  unfolding resolve_route by (auto simp: resolve_def Let_def delegated_curator_def escalate_fields admin_step_def)

lemma resolve_reason: "de_reason (resolve req c) = [] \<longleftrightarrow> de_route (resolve req c) = RouteSpecialist"
  unfolding resolve_route
  by (auto simp: resolve_def Let_def delegated_curator_def admin_step_def escalate_fields(4))

end
