(* ===== verification/AuditJournal.thy ===== *)
theory AuditJournal
  imports GoText "HOL-Library.Word"
begin

text \<open>
  \<open>backend/internal/platform/audit/event.go\<close>: the events of the audit journal, their normal form, the
  conditions they meet and the row that is written. The snapshots before and after are of the type
  the calling module uses; their JSON encoding is not modelled.
\<close>

datatype audit_error =
    ActorType
  | UserActorWithoutId
  | SystemActorWithId
  | ActionRequired
  | ActionFormat
  | EntityTypeRequired
  | EntityTypeFormat
  | RequestIdRequired
  | RequestIdTooLong

record actor =
  ac_type :: string
  ac_id :: string

record 'a audit_event =
  ae_actor :: actor
  ae_action :: string
  ae_entity_type :: string
  ae_entity_id :: string
  ae_before :: "'a option"
  ae_after :: "'a option"
  ae_request :: string
  ae_comment :: string

definition actor_user :: string where "actor_user = ''user''"
definition actor_system :: string where "actor_system = ''system''"

definition user_actor :: "string \<Rightarrow> actor" where
  "user_actor raw = (let i = trim_space raw in
     if i = [] then \<lparr>ac_type = actor_system, ac_id = []\<rparr> else \<lparr>ac_type = actor_user, ac_id = i\<rparr>)"

text \<open>\<open>identifierPattern\<close>: a lower-case letter and then lower-case letters, digits and underscores.\<close>

definition is_lower_letter :: "char \<Rightarrow> bool" where
  "is_lower_letter c = (97 \<le> byte c \<and> byte c \<le> 122)"

definition identifier_pattern :: "string \<Rightarrow> bool" where
  "identifier_pattern s = (case s of [] \<Rightarrow> False
     | c # cs \<Rightarrow> is_lower_letter c \<and> list_all (\<lambda>d. is_lower_letter d \<or> is_digit d \<or> d = CHR ''_'') cs)"

text \<open>\<open>NewRequestID\<close>: sixteen random bytes in hexadecimal.\<close>

definition hex_digit :: "nat \<Rightarrow> char" where
  "hex_digit n = chr (if n < 10 then 48 + n else 87 + n)"

definition hex_byte :: "8 word \<Rightarrow> string" where
  "hex_byte b = [hex_digit (unat b div 16), hex_digit (unat b mod 16)]"

definition new_request_id :: "(nat \<Rightarrow> 8 word) \<Rightarrow> string" where
  "new_request_id random = concat (map (\<lambda>i. hex_byte (random i)) [0..<16])"

definition normalize :: "string \<Rightarrow> (nat \<Rightarrow> 8 word) \<Rightarrow> 'a audit_event \<Rightarrow> 'a audit_event" where
  "normalize context random e =
     (let rid = trim_space (ae_request e);
          rid = (if rid = [] then context else rid);
          rid = (if rid = [] then new_request_id random else rid)
      in e\<lparr>ae_actor := \<lparr>ac_type = trim_space (ac_type (ae_actor e)), ac_id = trim_space (ac_id (ae_actor e))\<rparr>,
           ae_action := trim_space (ae_action e), ae_entity_type := trim_space (ae_entity_type e),
           ae_entity_id := trim_space (ae_entity_id e), ae_request := rid, ae_comment := trim_space (ae_comment e)\<rparr>)"

definition validate_event :: "'a audit_event \<Rightarrow> audit_error + unit" where
  "validate_event e =
     (if ac_type (ae_actor e) \<noteq> actor_user \<and> ac_type (ae_actor e) \<noteq> actor_system then Inl ActorType
      else if ac_type (ae_actor e) = actor_user \<and> ac_id (ae_actor e) = [] then Inl UserActorWithoutId
      else if ac_type (ae_actor e) = actor_system \<and> ac_id (ae_actor e) \<noteq> [] then Inl SystemActorWithId
      else if ae_action e = [] then Inl ActionRequired
      else if \<not> identifier_pattern (ae_action e) then Inl ActionFormat
      else if ae_entity_type e = [] then Inl EntityTypeRequired
      else if \<not> identifier_pattern (ae_entity_type e) then Inl EntityTypeFormat
      else if ae_request e = [] then Inl RequestIdRequired
      else if length (ae_request e) > 128 then Inl RequestIdTooLong
      else Inr ())"

text \<open>\<open>Write\<close>: the row of the journal that an event becomes.\<close>

definition write_audit ::
  "string \<Rightarrow> (nat \<Rightarrow> 8 word) \<Rightarrow> 'a audit_event \<Rightarrow> 'a audit_event list \<Rightarrow> audit_error + 'a audit_event list" where
  "write_audit context random e journal =
     (let n = normalize context random e in rbind (validate_event n) (\<lambda>_. Inr (journal @ [n])))"

section \<open>What is written\<close>

lemma length_new_request_id [simp]: "length (new_request_id r) = 32"
  by (simp add: new_request_id_def hex_byte_def upt_rec)

lemma new_request_id_filled [simp]: "new_request_id r \<noteq> []"
  using length_new_request_id [of r] by (metis length_0_conv zero_neq_numeral)

text \<open>
  An event of a known actor, action and entity is always written when the context has no request
  identifier or one of at most 128 bytes.
\<close>

lemma write_audit_succeeds:
  assumes "identifier_pattern (trim_space (ae_action e))" "identifier_pattern (trim_space (ae_entity_type e))"
    and "trim_space (ae_request e) = []" "length context \<le> 128"
    and "trim_space (ac_type (ae_actor e)) = actor_system \<and> trim_space (ac_id (ae_actor e)) = [] \<or>
      trim_space (ac_type (ae_actor e)) = actor_user \<and> trim_space (ac_id (ae_actor e)) \<noteq> []"
  shows "write_audit context random e journal = Inr (journal @ [normalize context random e])"
proof -
  have "actor_user \<noteq> actor_system" by (simp add: actor_user_def actor_system_def)
  moreover have "\<not> identifier_pattern []" by (simp add: identifier_pattern_def)
  ultimately have "validate_event (normalize context random e) = Inr ()"
    using assms by (auto simp: validate_event_def normalize_def Let_def)
  then show ?thesis by (simp add: write_audit_def)
qed

end
