(* ===== verification/Tasks.thy ===== *)
theory Tasks
  imports TaskRouting AuditJournal
begin

text \<open>
  \<open>backend/internal/tasks/store.go\<close> over the tables of migration 0809: the tasks of the workflow, their
  history and the operations on them. A row is a record whose empty texts stand for NULL, as
  \<open>taskColumns\<close> reads them; identifiers and time stamps are arguments; each operation is one transaction,
  which leaves the database alone when it fails.
\<close>

section \<open>Tables\<close>

record task =
  tk_company :: string
  tk_partner :: string
  tk_kind :: string
  tk_title :: string
  tk_subject_type :: string
  tk_subject :: string
  tk_role :: role
  tk_permission :: permission
  tk_status :: string
  tk_assignee :: string
  tk_route :: route
  tk_escalated :: bool
  tk_reason :: string
  tk_created_by :: string
  tk_created :: instant
  tk_completed_by :: string
  tk_completed :: "instant option"

record task_event =
  te_task :: string
  te_action :: string
  te_from :: string
  te_to :: string
  te_route :: route
  te_reason :: string
  te_actor :: string
  te_system :: bool

record task_db =
  td_staff :: staff_db
  td_companies :: "string list"
  td_tasks :: "(string \<times> task) list"
  td_events :: "task_event list"
  td_audit :: "task audit_event list"

datatype task_error =
    TaskNotFound
  | TaskNotOpen
  | TaskInvalid
  | PartnerTenant
  | TaskForeignKey
  | TaskCheck
  | TaskAudit audit_error
  | TaskStaff curator_error

definition open_status :: string where "open_status = ''open''"
definition done_status :: string where "done_status = ''done''"
definition cancelled_status :: string where "cancelled_status = ''cancelled''"

text \<open>The CHECK constraints of \<open>workflow_tasks\<close>.\<close>

definition kind_pattern :: "string \<Rightarrow> bool" where
  "kind_pattern s = (case s of [] \<Rightarrow> False | c # cs \<Rightarrow> is_lower_letter c \<and> 2 \<le> length cs \<and> length cs \<le> 63
     \<and> list_all (\<lambda>d. is_lower_letter d \<or> is_digit d \<or> d = CHR ''_'' \<or> d = CHR ''.'') cs)"

definition subject_pattern :: "string \<Rightarrow> bool" where
  "subject_pattern s = (case s of [] \<Rightarrow> False | c # cs \<Rightarrow> is_lower_letter c \<and> 1 \<le> length cs \<and> length cs \<le> 40
     \<and> list_all (\<lambda>d. is_lower_letter d \<or> is_digit d \<or> d = CHR ''_'') cs)"

definition text_between :: "nat \<Rightarrow> nat \<Rightarrow> string \<Rightarrow> bool" where
  "text_between lo hi s = (lo \<le> rune_count (btrim s) \<and> rune_count (btrim s) \<le> hi)"

definition upper_route :: "route \<Rightarrow> bool" where
  "upper_route r = (r = RouteOrgAdmin \<or> r = RouteSuperAdmin \<or> r = RouteUnassigned)"

definition subject_checks :: "task \<Rightarrow> bool" where
  "subject_checks t = (kind_pattern (tk_kind t) \<and> text_between 3 300 (tk_title t)
     \<and> subject_pattern (tk_subject_type t) \<and> text_between 1 100 (tk_subject t)
     \<and> tk_role t \<in> set all_roles \<and> text_between 3 80 (tk_permission t))"

definition route_checks :: "task \<Rightarrow> bool" where
  "route_checks t = ((tk_route t = RouteUnassigned) = (tk_assignee t = [])
     \<and> tk_escalated t = upper_route (tk_route t)
     \<and> (tk_route t = RouteSpecialist \<or> tk_reason t \<noteq> []))"

definition status_checks :: "task \<Rightarrow> bool" where
  "status_checks t = ((tk_status t = open_status \<or> tk_status t = done_status \<or> tk_status t = cancelled_status)
     \<and> (tk_status t = done_status) = (tk_completed t \<noteq> None \<and> tk_completed_by t \<noteq> []))"

definition task_checks :: "task \<Rightarrow> bool" where
  "task_checks t = (subject_checks t \<and> route_checks t \<and> status_checks t)"

text \<open>The unique index: the open tasks of a kind and a subject.\<close>

definition same_subject :: "string \<Rightarrow> string \<Rightarrow> string \<Rightarrow> task \<Rightarrow> bool" where
  "same_subject kind subject_type subject t =
     (tk_kind t = kind \<and> tk_subject_type t = subject_type \<and> tk_subject t = subject \<and> tk_status t = open_status)"

definition known_or_null :: "task_db \<Rightarrow> string \<Rightarrow> bool" where
  "known_or_null db i = (i = [] \<or> known_user (td_staff db) i)"

section \<open>Operations\<close>

definition requirement_of :: "task \<Rightarrow> requirement" where
  "requirement_of t = \<lparr>rq_role = tk_role t, rq_permission = tk_permission t, rq_has_partner = (tk_partner t \<noteq> [])\<rparr>"

definition open_tasks :: "task_db \<Rightarrow> string \<Rightarrow> nat" where
  "open_tasks db u = length (filter (\<lambda>t. tk_assignee t = u \<and> tk_status t = open_status) (map snd (td_tasks db)))"

definition task_candidates :: "task_db \<Rightarrow> task \<Rightarrow> instant \<Rightarrow> candidates" where
  "task_candidates db t now =
     candidates_of (td_staff db) (open_tasks db) (tk_company t) (tk_partner t) (tk_role t) now"

record new_task =
  nt_tenant :: string
  nt_partner :: string
  nt_kind :: string
  nt_title :: string
  nt_subject_type :: string
  nt_subject :: string
  nt_role :: role
  nt_permission :: permission
  nt_created_by :: string

definition validate_new_task :: "new_task \<Rightarrow> task_error + unit" where
  "validate_new_task n =
     (if nt_tenant n = [] \<or> trim_space (nt_title n) = [] \<or> trim_space (nt_subject n) = [] then Inl TaskInvalid
      else if map_of roles (nt_role n) = None then Inl TaskInvalid
      else if \<not> known_permission (nt_permission n) then Inl TaskInvalid
      else Inr ())"

definition insert_event ::
  "string \<Rightarrow> string \<Rightarrow> string \<Rightarrow> string \<Rightarrow> route \<Rightarrow> string \<Rightarrow> string \<Rightarrow> task_db \<Rightarrow> task_error + task_db" where
  "insert_event i action from to r reason who db =
     (if known_or_null db from \<and> known_or_null db to \<and> known_or_null db who \<and> i \<in> set (map fst (td_tasks db))
      then Inr (db\<lparr>td_events := td_events db @ [\<lparr>te_task = i, te_action = action, te_from = from, te_to = to,
             te_route = r, te_reason = reason, te_actor = who, te_system = (who = [])\<rparr>]\<rparr>)
      else Inl TaskForeignKey)"

definition new_row :: "new_task \<Rightarrow> decision \<Rightarrow> instant \<Rightarrow> task" where
  "new_row n d now = \<lparr>tk_company = nt_tenant n, tk_partner = nt_partner n, tk_kind = nt_kind n,
     tk_title = trim_space (nt_title n), tk_subject_type = nt_subject_type n, tk_subject = trim_space (nt_subject n),
     tk_role = nt_role n, tk_permission = nt_permission n, tk_status = open_status, tk_assignee = de_assignee d,
     tk_route = de_route d, tk_escalated = de_escalated d, tk_reason = de_reason d, tk_created_by = nt_created_by n,
     tk_created = now, tk_completed_by = [], tk_completed = None\<rparr>"

text \<open>
  \<open>Dispatch\<close>: the identifier of the task, whether it was created, and the database. PostgreSQL
  checks the constraints of the row before it looks for a conflict, and foreign keys after the
  insertion.
\<close>

definition dispatch :: "new_task \<Rightarrow> string \<Rightarrow> instant \<Rightarrow> task_db \<Rightarrow> task_error + (string \<times> bool \<times> task_db)" where
  "dispatch n fresh now db =
     rbind (validate_new_task n) (\<lambda>_.
     rbind (require (nt_partner n = [] \<or> map_of (sd_partners (td_staff db)) (nt_partner n) = Some (nt_tenant n))
       PartnerTenant) (\<lambda>_.
     let probe = new_row n \<lparr>de_assignee = [], de_route = RouteUnassigned, de_escalated = False, de_reason = []\<rparr> now;
         d = resolve (requirement_of probe) (task_candidates db probe now);
         row = new_row n d now
     in rbind (require (task_checks row) TaskInvalid) (\<lambda>_.
     case find (\<lambda>(i, t). same_subject (tk_kind row) (tk_subject_type row) (tk_subject row) t) (td_tasks db) of
       Some (i, t) \<Rightarrow> Inr (i, False, db)
     | None \<Rightarrow>
       rbind (require (tk_company row \<in> set (td_companies db) \<and> known_or_null db (tk_assignee row)
              \<and> known_or_null db (tk_created_by row) \<and> fresh \<notin> set (map fst (td_tasks db))) TaskForeignKey) (\<lambda>_.
       rbind (insert_event fresh ''created'' [] (de_assignee d) (de_route d) (de_reason d) (nt_created_by n)
              (db\<lparr>td_tasks := td_tasks db @ [(fresh, row)]\<rparr>)) (\<lambda>db'.
         Inr (fresh, True, db'))))))"

definition get_task :: "string \<Rightarrow> task_db \<Rightarrow> task_error + task" where
  "get_task i db = (case map_of (td_tasks db) i of None \<Rightarrow> Inl TaskNotFound | Some t \<Rightarrow> Inr t)"

definition task_history :: "string \<Rightarrow> task_db \<Rightarrow> task_event list" where
  "task_history i db = filter (\<lambda>e. te_task e = i) (td_events db)"

record task_filter =
  tf_company :: string
  tf_assignee :: string
  tf_status :: string
  tf_escalated :: bool

definition list_tasks :: "task_filter \<Rightarrow> task_db \<Rightarrow> (string \<times> task) list" where
  "list_tasks f db = take 500 (sort_key (\<lambda>(i, t). (- tk_created t, i))
     (filter (\<lambda>(i, t). (tf_company f = [] \<or> tk_company t = tf_company f) \<and> (tf_assignee f = [] \<or> tk_assignee t = tf_assignee f)
        \<and> (tf_status f = [] \<or> tk_status t = tf_status f) \<and> (\<not> tf_escalated f \<or> tk_escalated t)) (td_tasks db)))"

text \<open>
  An UPDATE of a task: refused when the new row breaks a CHECK or names an unknown user. An empty
  identifier of the one who completes is refused too (by the cast to \<open>uuid\<close> in the code).
\<close>

definition put_task :: "string \<Rightarrow> task \<Rightarrow> task_db \<Rightarrow> task_error + task_db" where
  "put_task i t db =
     (if \<not> task_checks t then Inl TaskCheck
      else if \<not> (known_or_null db (tk_assignee t) \<and> known_or_null db (tk_completed_by t)) then Inl TaskForeignKey
      else Inr (db\<lparr>td_tasks := AList.update i t (td_tasks db)\<rparr>))"

definition still_valid :: "task \<Rightarrow> route \<Rightarrow> candidates \<Rightarrow> bool" where
  "still_valid t r c = (tk_assignee t \<in> set (pool r c))"

text \<open>\<open>strings.Trim(note, "; ")\<close>.\<close>

definition trim_note :: "string \<Rightarrow> string" where
  "trim_note s = rev (dropWhile (\<lambda>c. c = CHR '';'' \<or> c = CHR '' '') (rev (dropWhile (\<lambda>c. c = CHR '';'' \<or> c = CHR '' '') s)))"

definition still_valid_text :: string where
  "still_valid_text = utf8 [32, 40, 1080, 1089, 1087, 1086, 1083, 1085, 1080, 1090, 1077, 1083, 1100, 32, 1086, 1089,
    1090, 1072, 1105, 1090, 1089, 1103, 32, 1076, 1086, 1087, 1091, 1089, 1090, 1080, 1084, 1099, 1084,
    41]"

definition reassign :: "string \<Rightarrow> string \<Rightarrow> string \<Rightarrow> instant \<Rightarrow> task_db \<Rightarrow> task_error + (bool \<times> task_db)" where
  "reassign i who reason now db =
     rbind (get_task i db) (\<lambda>t.
     if tk_status t \<noteq> open_status then Inl TaskNotOpen
     else let c = task_candidates db t now; d = resolve (requirement_of t) c in
       if de_route d = tk_route t \<and> de_assignee d \<noteq> [] \<and> still_valid t (de_route d) c
       then (if who \<noteq> []
             then rbind (insert_event i ''reassign_attempt'' (tk_assignee t) (tk_assignee t) (tk_route t)
                    (trim_space reason @ still_valid_text) who db) (\<lambda>db'. Inr (False, db'))
             else Inr (False, db))
       else if de_route d = tk_route t \<and> de_assignee d = tk_assignee t
       then (if who \<noteq> []
             then rbind (insert_event i ''reassign_attempt'' (tk_assignee t) (tk_assignee t) (tk_route t)
                    (trim_space reason) who db) (\<lambda>db'. Inr (False, db'))
             else Inr (False, db))
       else
         let note = (if trim_space reason \<noteq> [] then trim_space reason @ ''; '' @ de_reason d else de_reason d) in
         rbind (put_task i (t\<lparr>tk_assignee := de_assignee d, tk_route := de_route d, tk_escalated := de_escalated d,
                  tk_reason := de_reason d\<rparr>) db) (\<lambda>db'.
         rbind (insert_event i ''reassigned'' (tk_assignee t) (de_assignee d) (de_route d) (trim_note note) who db') (\<lambda>db''.
           Inr (True, db''))))"

definition complete :: "string \<Rightarrow> string \<Rightarrow> instant \<Rightarrow> task_db \<Rightarrow> task_error + task_db" where
  "complete i who now db =
     rbind (get_task i db) (\<lambda>t.
     if tk_status t \<noteq> open_status then Inl TaskNotOpen
     else rbind (put_task i (t\<lparr>tk_status := done_status, tk_completed_by := who, tk_completed := Some now\<rparr>) db)
       (insert_event i ''completed'' (tk_assignee t) (tk_assignee t) (tk_route t) [] who))"

definition closed_by_event_text :: string where
  "closed_by_event_text = utf8 [1079, 1072, 1082, 1088, 1099, 1090, 1086, 32, 1089, 1086, 1073, 1099, 1090, 1080, 1077, 1084,
    32, 119, 111, 114, 107, 102, 108, 111, 119]"

definition close_one :: "string \<Rightarrow> string \<Rightarrow> instant \<Rightarrow> string \<times> task \<Rightarrow> task_db \<Rightarrow> task_error + task_db" where
  "close_one status who now p db = (case p of (i, t) \<Rightarrow>
     rbind (put_task i (if status = done_status
              then t\<lparr>tk_status := done_status, tk_completed_by := who, tk_completed := Some now\<rparr>
              else t\<lparr>tk_status := cancelled_status\<rparr>) db)
       (insert_event i (if status = cancelled_status then ''cancelled'' else ''completed'') (tk_assignee t) (tk_assignee t)
          (tk_route t) closed_by_event_text who))"

definition close_by_subject ::
  "string \<Rightarrow> string \<Rightarrow> string \<Rightarrow> string \<Rightarrow> string \<Rightarrow> instant \<Rightarrow> task_db \<Rightarrow> task_error + (nat \<times> task_db)" where
  "close_by_subject kind subject_type subject status who now db =
     (if status \<noteq> done_status \<and> status \<noteq> cancelled_status then Inl TaskInvalid
      else let found = filter (\<lambda>(i, t). same_subject kind subject_type subject t) (td_tasks db) in
        rbind (fold_result (close_one status who now) found db) (\<lambda>db'. Inr (length found, db')))"

section \<open>The scheduled pass\<close>

text \<open>The tasks of a pass: open, and not with a specialist who is still active; the oldest 500.\<close>

definition off_road :: "task_db \<Rightarrow> task \<Rightarrow> bool" where
  "off_road db t = (tk_route t \<noteq> RouteSpecialist
     \<or> (case map_of (sd_users (td_staff db)) (tk_assignee t) of None \<Rightarrow> True | Some u \<Rightarrow> \<not> ur_active u))"

text \<open>
  The variadic list of tenants goes through \<open>pq.Array\<close>: left out it is a nil slice, sent as NULL, for
  which the condition on \<open>cardinality\<close> and \<open>= ANY\<close> is NULL and selects no row; a list that is given
  and empty selects every tenant.
\<close>

definition of_tenants :: "string list option \<Rightarrow> string \<Rightarrow> bool" where
  "of_tenants tenants company = (case tenants of None \<Rightarrow> False | Some xs \<Rightarrow> xs = [] \<or> company \<in> set xs)"

definition redispatch_ids :: "string list option \<Rightarrow> task_db \<Rightarrow> string list" where
  "redispatch_ids tenants db = map fst (take 500 (sort_key (\<lambda>(i, t). (tk_created t, i))
     (filter (\<lambda>(i, t). tk_status t = open_status \<and> off_road db t \<and> of_tenants tenants (tk_company t))
       (td_tasks db))))"

definition scheduled_text :: string where
  "scheduled_text = utf8 [1087, 1083, 1072, 1085, 1086, 1074, 1099, 1081, 32, 1087, 1077, 1088, 1077, 1089, 1095, 1105,
    1090]"

definition redispatch_event :: "string \<Rightarrow> task \<Rightarrow> task \<Rightarrow> task audit_event" where
  "redispatch_event i before after = \<lparr>ae_actor = user_actor [], ae_action = ''reassign'', ae_entity_type = ''workflow_task'',
     ae_entity_id = i, ae_before = Some before, ae_after = Some after, ae_request = [], ae_comment = tk_reason after\<rparr>"

text \<open>One transaction of the pass. A task closed meanwhile is passed over.\<close>

definition redispatch_one ::
  "string \<Rightarrow> (string \<Rightarrow> nat \<Rightarrow> 8 word) \<Rightarrow> instant \<Rightarrow> string \<Rightarrow> task_db \<times> nat \<Rightarrow> task_error + (task_db \<times> nat)" where
  "redispatch_one context random now i s = (case s of (db, changed) \<Rightarrow>
     (case reassign i [] scheduled_text now db of
        Inl e \<Rightarrow> if e = TaskNotOpen then Inr (db, changed) else Inl e
      | Inr (False, db') \<Rightarrow> Inr (db', changed)
      | Inr (True, db') \<Rightarrow>
          rbind (get_task i db) (\<lambda>before. rbind (get_task i db') (\<lambda>after.
          rbind (lift_error TaskAudit (write_audit context (random i) (redispatch_event i before after) (td_audit db')))
            (\<lambda>journal. Inr (db'\<lparr>td_audit := journal\<rparr>, Suc changed))))))"

text \<open>\<open>RedispatchOpen\<close>: the database reached, the number of tasks moved, and the error that stopped it.\<close>

fun redispatch_all ::
  "string \<Rightarrow> (string \<Rightarrow> nat \<Rightarrow> 8 word) \<Rightarrow> instant \<Rightarrow> string list \<Rightarrow> task_db \<times> nat \<Rightarrow> (task_db \<times> nat) \<times> task_error option" where
  "redispatch_all context random now [] s = (s, None)"
| "redispatch_all context random now (i # is) s = (case redispatch_one context random now i s of
     Inl e \<Rightarrow> (s, Some e)
   | Inr s' \<Rightarrow> redispatch_all context random now is s')"

definition redispatch_open ::
  "string \<Rightarrow> (string \<Rightarrow> nat \<Rightarrow> 8 word) \<Rightarrow> instant \<Rightarrow> string list option \<Rightarrow> task_db \<Rightarrow> (task_db \<times> nat) \<times> task_error option" where
  "redispatch_open context random now tenants db = redispatch_all context random now (redispatch_ids tenants db) (db, 0)"

text \<open>\<open>RunRedispatch\<close>: the scheduled pass gives no list of tenants and drops the result.\<close>

definition run_redispatch ::
  "string \<Rightarrow> (string \<Rightarrow> nat \<Rightarrow> 8 word) \<Rightarrow> instant \<Rightarrow> task_db \<Rightarrow> task_db" where
  "run_redispatch context random now db = fst (fst (redispatch_open context random now None db))"

end
