(* ===== verification/TaskLaws.thy ===== *)
theory TaskLaws
  imports Tasks
begin

text \<open>
  What the task dispatcher keeps: the constraints of its table, one open task for a subject, and a
  history that explains the state of every task, under the operations of the package and those of
  the curator assignments it reads.
\<close>

section \<open>Candidates are known users\<close>

definition users_ok :: "staff_db \<Rightarrow> bool" where
  "users_ok db = (distinct (map fst (sd_users db)) \<and> \<not> known_user db [])"

lemma by_role_set:
  "set (by_role db f role company b) = {i. \<exists>u. (i, u) \<in> set (sd_users db) \<and> ur_active u \<and> ur_role u = role
     \<and> ur_entity u = ''organization'' \<and> (ur_company u = Some company \<or> \<not> b \<and> ur_company u = None)}"
  by (auto simp: by_role_def image_iff)

lemma by_role_empty: "(by_role db f role company b = []) = (by_role db g role company b = [])"
  using by_role_set [of db f role company b] by_role_set [of db g role company b] by (metis set_empty)

lemma for_partner_user:
  "u \<in> set (for_partner p now db) \<Longrightarrow>
    \<exists>r. map_of (sd_users db) u = Some r \<and> ur_active r \<and> organization_curator r"
  by (auto simp: for_partner_def split: option.splits)

lemma for_partner_known: "u \<in> set (for_partner p now db) \<Longrightarrow> known_user db u"
  using for_partner_user [of u p now db] by (force simp: known_user_def dest!: map_of_SomeD)

lemma by_role_known: "u \<in> set (by_role db f role company b) \<Longrightarrow> known_user db u"
  unfolding by_role_set known_user_def by force

lemma pool_known: "u \<in> set (pool r (task_candidates db t now)) \<Longrightarrow> known_user (td_staff db) u"
  by (cases r) (auto simp: pool_def task_candidates_def candidates_of_def Let_def split: if_splits
      dest: for_partner_known by_role_known)

text \<open>Whom a pool holds does not depend on the open tasks.\<close>

lemma pool_set:
  "set (pool r (candidates_of db f company partner role now)) = set (pool r (candidates_of db g company partner role now))"
  by (cases r) (simp_all add: pool_def candidates_of_def Let_def by_role_set)

lemma pool_empty:
  "(pool r (candidates_of db f company partner role now) = []) = (pool r (candidates_of db g company partner role now) = [])"
  using pool_set by (metis set_empty)

lemma resolve_route_pools:
  assumes "\<And>r. (pool r c = []) = (pool r c' = [])"
  shows "de_route (resolve req c) = de_route (resolve req c')"
  using assms [of RouteSpecialist] assms [of RouteCurator] assms [of RouteOrgAdmin] assms [of RouteSuperAdmin]
  by (simp add: resolve_route delegated_curator_def admin_step_def pool_def)

section \<open>The history explains the state\<close>

type_synonym standing = "string \<times> route \<times> string"

definition replay_event :: "task_event \<Rightarrow> standing option \<Rightarrow> standing option" where
  "replay_event e s = (case s of
     None \<Rightarrow> if te_action e = ''created'' \<and> te_from e = [] then Some (te_to e, te_route e, open_status) else None
   | Some (a, r, st) \<Rightarrow>
     if st \<noteq> open_status \<or> te_from e \<noteq> a then None
     else if te_action e = ''reassigned'' then Some (te_to e, te_route e, st)
     else if te_to e \<noteq> a \<or> te_route e \<noteq> r then None
     else if te_action e = ''reassign_attempt'' then Some (a, r, st)
     else if te_action e = ''completed'' then Some (a, r, done_status)
     else if te_action e = ''cancelled'' then Some (a, r, cancelled_status)
     else None)"

definition replay_history :: "task_event list \<Rightarrow> standing option" where
  "replay_history es = fold replay_event es None"

definition one_open :: "(string \<times> task) list \<Rightarrow> bool" where
  "one_open ts = (distinct (map fst ts) \<and> (\<forall>(i, t) \<in> set ts. \<forall>(j, u) \<in> set ts.
     tk_status t = open_status \<longrightarrow> same_subject (tk_kind t) (tk_subject_type t) (tk_subject t) u \<longrightarrow> i = j))"

definition standing_of :: "task \<Rightarrow> standing" where
  "standing_of t = (tk_assignee t, tk_route t, tk_status t)"

definition row_ok :: "task_db \<Rightarrow> string \<Rightarrow> task \<Rightarrow> bool" where
  "row_ok db i t = (task_checks t \<and> known_or_null db (tk_assignee t) \<and> known_or_null db (tk_completed_by t)
     \<and> replay_history (task_history i db) = Some (standing_of t))"

definition tasks_ok :: "task_db \<Rightarrow> bool" where
  "tasks_ok db = (users_ok (td_staff db) \<and> one_open (td_tasks db)
     \<and> (\<forall>(i, t) \<in> set (td_tasks db). row_ok db i t)
     \<and> (\<forall>e \<in> set (td_events db). te_task e \<in> set (map fst (td_tasks db))))"

section \<open>Updates of a row\<close>

lemma replay_snoc: "replay_history (es @ [e]) = replay_event e (replay_history es)"
  by (simp add: replay_history_def)

lemma update_same: "map_of xs i = Some t \<Longrightarrow> AList.update i t xs = xs"
  by (induction xs) auto

lemma keys_update: "map_of xs i \<noteq> None \<Longrightarrow> map fst (AList.update i t xs) = map fst xs"
  by (induction xs) auto

lemma one_open_update:
  assumes one: "one_open ts" and i: "map_of ts i = Some t"
    and key: "tk_kind t' = tk_kind t" "tk_subject_type t' = tk_subject_type t" "tk_subject t' = tk_subject t"
    and status: "tk_status t' = open_status \<Longrightarrow> tk_status t = open_status"
  shows "one_open (AList.update i t' ts)"
proof -
  have d: "distinct (map fst ts)" using one by (simp add: one_open_def)
  have mem: "(i, t) \<in> set ts" using i by (rule map_of_SomeD)
  have "j = k" if "(j, u) \<in> set (AList.update i t' ts)" "(k, v) \<in> set (AList.update i t' ts)" "tk_status u = open_status"
    "same_subject (tk_kind u) (tk_subject_type u) (tk_subject u) v" for j u k v
  proof -
    have "\<exists>w. (j, w) \<in> set ts \<and> tk_kind w = tk_kind u \<and> tk_subject_type w = tk_subject_type u
        \<and> tk_subject w = tk_subject u \<and> tk_status w = open_status"
      using that(1,3) mem key status unfolding set_update_distinct [OF d i] by auto
    moreover have "\<exists>w. (k, w) \<in> set ts \<and> same_subject (tk_kind u) (tk_subject_type u) (tk_subject u) w"
      using that(2,4) mem key status unfolding set_update_distinct [OF d i] same_subject_def by auto
    ultimately show ?thesis using one unfolding one_open_def by fastforce
  qed
  then show ?thesis using d by (auto simp: one_open_def distinct_update)
qed

lemma insert_event_Inr:
  "insert_event i action from to r reason who db = Inr db' \<Longrightarrow>
    \<exists>e. db' = db\<lparr>td_events := td_events db @ [e]\<rparr> \<and> te_task e = i \<and> te_action e = action \<and> te_from e = from
      \<and> te_to e = to \<and> te_route e = r \<and> i \<in> set (map fst (td_tasks db))"
  by (auto simp: insert_event_def split: if_splits)

lemma task_history_snoc:
  "task_history j (db\<lparr>td_tasks := ts, td_events := td_events db @ [e]\<rparr>) =
    (if te_task e = j then task_history j db @ [e] else task_history j db)"
  by (simp add: task_history_def)

lemma known_or_null_tasks [simp]:
  "known_or_null (db\<lparr>td_tasks := ts, td_events := es\<rparr>) = known_or_null db"
  "known_or_null (db\<lparr>td_tasks := ts\<rparr>) = known_or_null db"
  "known_or_null (db\<lparr>td_events := es\<rparr>) = known_or_null db"
  "known_or_null (db\<lparr>td_audit := j\<rparr>) = known_or_null db"
  by (auto simp: known_or_null_def fun_eq_iff)

text \<open>The common step: a row is rewritten and one event, which explains the change, is appended.\<close>

lemma rewrite_ok:
  assumes ok: "tasks_ok db" and i: "map_of (td_tasks db) i = Some t"
    and key: "tk_kind t' = tk_kind t" "tk_subject_type t' = tk_subject_type t" "tk_subject t' = tk_subject t"
    and status: "tk_status t' = open_status \<Longrightarrow> tk_status t = open_status"
    and checks: "task_checks t'" "known_or_null db (tk_assignee t')" "known_or_null db (tk_completed_by t')"
    and e: "te_task e = i" "replay_event e (Some (standing_of t)) = Some (standing_of t')"
  shows "tasks_ok (db\<lparr>td_tasks := AList.update i t' (td_tasks db), td_events := td_events db @ [e]\<rparr>)" (is "tasks_ok ?db")
proof -
  have one: "one_open (td_tasks db)" and d: "distinct (map fst (td_tasks db))"
    and rows: "(j, u) \<in> set (td_tasks db) \<Longrightarrow> row_ok db j u" for j u
    using ok by (auto simp: tasks_ok_def one_open_def)
  have mem: "(i, t) \<in> set (td_tasks db)" using i by (rule map_of_SomeD)
  have "row_ok ?db i t'"
    using rows [OF mem] checks e by (simp add: row_ok_def task_history_snoc replay_snoc)
  moreover have "row_ok ?db j u" if "(j, u) \<in> set (td_tasks db)" "j \<noteq> i" for j u
    using rows [OF that(1)] that(2) e(1) by (simp add: row_ok_def task_history_snoc)
  ultimately have "\<forall>(j, u) \<in> set (td_tasks ?db). row_ok ?db j u"
    using set_update_distinct [OF d i] by auto
  moreover have "one_open (td_tasks ?db)" using one_open_update [OF one i key status] by simp
  moreover have "map fst (td_tasks ?db) = map fst (td_tasks db)" using keys_update [of "td_tasks db" i t'] i by simp
  moreover have "i \<in> set (map fst (td_tasks db))" using mem by force
  ultimately show ?thesis using ok e(1) unfolding tasks_ok_def by simp
qed

section \<open>Every operation keeps the table in order\<close>

text \<open>The decision on a task meets the constraints of its row.\<close>

lemma resolve_assignee_known:
  "known_or_null db (de_assignee (resolve req (task_candidates db t now)))"
  unfolding resolve_assignee
  using pool_known [of _ "de_route (resolve req (task_candidates db t now))" db t now]
  by (auto simp: known_or_null_def split: list.splits)

lemma resolve_assignee_empty:
  assumes "users_ok (td_staff db)"
  shows "de_assignee (resolve req (task_candidates db t now)) = [] \<longleftrightarrow>
    de_route (resolve req (task_candidates db t now)) = RouteUnassigned"
proof -
  let ?c = "task_candidates db t now" and ?r = "de_route (resolve req (task_candidates db t now))"
  have filled: "u \<noteq> []" if "u \<in> set (pool ?r ?c)" for u
    using pool_known [OF that] assms by (auto simp: users_ok_def)
  show ?thesis
  proof (cases "pool ?r ?c")
    case Nil
    then show ?thesis using resolve_pool [of req ?c] by (auto simp: resolve_assignee)
  next
    case (Cons u us)
    then have "?r \<noteq> RouteUnassigned" by (auto simp: pool_def)
    then show ?thesis using Cons filled by (simp add: resolve_assignee)
  qed
qed

definition reroute :: "decision \<Rightarrow> task \<Rightarrow> task" where
  "reroute d t = t\<lparr>tk_assignee := de_assignee d, tk_route := de_route d, tk_escalated := de_escalated d,
     tk_reason := de_reason d\<rparr>"

lemma reroute_fields [simp]:
  "tk_kind (reroute d t) = tk_kind t" "tk_title (reroute d t) = tk_title t" "tk_subject_type (reroute d t) = tk_subject_type t"
  "tk_subject (reroute d t) = tk_subject t" "tk_status (reroute d t) = tk_status t" "tk_role (reroute d t) = tk_role t"
  "tk_permission (reroute d t) = tk_permission t" "tk_partner (reroute d t) = tk_partner t"
  "tk_company (reroute d t) = tk_company t" "tk_assignee (reroute d t) = de_assignee d"
  "tk_route (reroute d t) = de_route d" "tk_completed_by (reroute d t) = tk_completed_by t"
  "tk_completed (reroute d t) = tk_completed t" "tk_created (reroute d t) = tk_created t"
  by (simp_all add: reroute_def)

lemma resolved_route_checks:
  assumes "users_ok (td_staff db)"
  shows "route_checks (reroute (resolve req (task_candidates db u now)) t)"
  using resolve_assignee_empty [OF assms] resolve_escalated resolve_reason
  by (auto simp: route_checks_def upper_route_def reroute_def)

lemma resolved_checks:
  assumes "users_ok (td_staff db)" "task_checks t"
  shows "task_checks (reroute (resolve req (task_candidates db u now)) t)"
proof -
  have "subject_checks (reroute d t) = subject_checks t" "status_checks (reroute d t) = status_checks t" for d
    by (simp_all add: subject_checks_def status_checks_def)
  then show ?thesis using assms resolved_route_checks by (simp add: task_checks_def)
qed

lemma attempt_ok:
  assumes "tasks_ok db" "map_of (td_tasks db) i = Some t" "tk_status t = open_status"
    and "te_task e = i" "te_action e = ''reassign_attempt''" "te_from e = tk_assignee t" "te_to e = tk_assignee t"
      "te_route e = tk_route t"
  shows "tasks_ok (db\<lparr>td_events := td_events db @ [e]\<rparr>)"
proof -
  have row: "row_ok db i t" using assms(1,2) by (auto simp: tasks_ok_def dest!: map_of_SomeD)
  have "tasks_ok (db\<lparr>td_tasks := AList.update i t (td_tasks db), td_events := td_events db @ [e]\<rparr>)"
    using assms row by (intro rewrite_ok) (auto simp: row_ok_def replay_event_def standing_of_def)
  then show ?thesis using assms(2) by (simp add: update_same)
qed

lemma closing_ok:
  assumes "tasks_ok db" "map_of (td_tasks db) i = Some t" "tk_status t = open_status"
    and "st = done_status \<and> t' = t\<lparr>tk_status := st, tk_completed_by := who, tk_completed := Some now\<rparr> \<and> action = ''completed''
      \<or> st = cancelled_status \<and> t' = t\<lparr>tk_status := st\<rparr> \<and> action = ''cancelled''"
    and "rbind (put_task i t' db) (insert_event i action (tk_assignee t) (tk_assignee t) (tk_route t) reason who) = Inr db'"
  shows "tasks_ok db'"
proof -
  have status: "open_status \<noteq> done_status" "open_status \<noteq> cancelled_status"
    by (simp_all add: open_status_def done_status_def cancelled_status_def)
  from assms(5) obtain e where put: "task_checks t'" "known_or_null db (tk_assignee t')" "known_or_null db (tk_completed_by t')"
    and db': "db' = db\<lparr>td_tasks := AList.update i t' (td_tasks db), td_events := td_events db @ [e]\<rparr>"
    and e: "te_task e = i" "te_action e = action" "te_from e = tk_assignee t" "te_to e = tk_assignee t" "te_route e = tk_route t"
    by (auto simp: rbind_Inr put_task_def split: if_splits dest!: insert_event_Inr)
  have "replay_event e (Some (standing_of t)) = Some (standing_of t')"
    using e assms(3,4) by (auto simp: replay_event_def standing_of_def)
  then show ?thesis unfolding db'
    using assms(4) status by (intro rewrite_ok [OF assms(1,2) _ _ _ _ put e(1)]) auto
qed

text \<open>A task is settled when the chain would send it where it is.\<close>

definition settled :: "instant \<Rightarrow> task_db \<Rightarrow> task \<Rightarrow> bool" where
  "settled now db t =
     (let c = task_candidates db t now; d = resolve (requirement_of t) c
      in de_route d = tk_route t \<and> (de_assignee d \<noteq> [] \<and> still_valid t (de_route d) c \<or> de_assignee d = tk_assignee t))"

lemma reassign_cases:
  assumes "reassign i who reason now db = Inr (moved, db')"
  obtains t where "map_of (td_tasks db) i = Some t" "tk_status t = open_status" "settled now db t" "\<not> moved" "db' = db"
  | t e where "map_of (td_tasks db) i = Some t" "tk_status t = open_status" "settled now db t" "\<not> moved" "who \<noteq> []"
      "db' = db\<lparr>td_events := td_events db @ [e]\<rparr>" "te_task e = i" "te_action e = ''reassign_attempt''"
      "te_from e = tk_assignee t" "te_to e = tk_assignee t" "te_route e = tk_route t"
  | t d e where "map_of (td_tasks db) i = Some t" "tk_status t = open_status" "\<not> settled now db t" "moved"
      "d = resolve (requirement_of t) (task_candidates db t now)" "task_checks (reroute d t)"
      "known_or_null db (de_assignee d)" "known_or_null db (tk_completed_by t)"
      "db' = db\<lparr>td_tasks := AList.update i (reroute d t) (td_tasks db), td_events := td_events db @ [e]\<rparr>"
      "te_task e = i" "te_action e = ''reassigned''" "te_from e = tk_assignee t" "te_to e = de_assignee d"
      "te_route e = de_route d"
proof -
  obtain t where t: "map_of (td_tasks db) i = Some t" "tk_status t = open_status"
    using assms by (auto simp: reassign_def get_task_def rbind_Inr split: option.splits if_splits)
  let ?c = "task_candidates db t now"
  let ?d = "resolve (requirement_of t) ?c"
  let ?a = "de_route ?d = tk_route t \<and> de_assignee ?d \<noteq> [] \<and> still_valid t (de_route ?d) ?c"
  let ?b = "de_route ?d = tk_route t \<and> de_assignee ?d = tk_assignee t"
  have settled: "settled now db t \<longleftrightarrow> ?a \<or> ?b" by (auto simp: settled_def Let_def)
  note unfolded = assms [unfolded reassign_def get_task_def t(1), simplified t(2) rbind_simps option.case Let_def simp_thms if_False]
  show ?thesis
  proof (cases "?a \<or> ?b")
    case True
    then have s: "settled now db t" using settled by blast
    show ?thesis
    proof (cases "who = []")
      case True
      then show ?thesis using \<open>?a \<or> ?b\<close> unfolded t s by (intro that(1)) (auto split: if_splits)
    next
      case False
      then obtain why where "insert_event i ''reassign_attempt'' (tk_assignee t) (tk_assignee t) (tk_route t) why who db = Inr db'" "\<not> moved"
        using \<open>?a \<or> ?b\<close> unfolded by (auto simp: rbind_Inr split: if_splits)
      then show ?thesis using that(2) [OF t s _ False] by (auto dest!: insert_event_Inr)
    qed
  next
    case False
    then obtain db2 why where put: "put_task i (reroute ?d t) db = Inr db2"
        and "insert_event i ''reassigned'' (tk_assignee t) (de_assignee ?d) (de_route ?d) why who db2 = Inr db'" "moved"
      using unfolded by (auto simp: rbind_Inr reroute_def split: if_splits)
    then obtain e where "db' = db2\<lparr>td_events := td_events db2 @ [e]\<rparr>" "te_task e = i" "te_action e = ''reassigned''"
        "te_from e = tk_assignee t" "te_to e = de_assignee ?d" "te_route e = de_route ?d"
      by (auto dest!: insert_event_Inr)
    moreover have "\<not> settled now db t" using False settled by blast
    ultimately show ?thesis using put t \<open>moved\<close> by (intro that(3)) (auto simp: put_task_def split: if_splits)
  qed
qed

lemma reassign_ok:
  assumes "tasks_ok db" "reassign i who reason now db = Inr (moved, db')"
  shows "tasks_ok db'"
  using assms(2)
proof (cases rule: reassign_cases)
  case 1
  then show ?thesis using assms(1) by simp
next
  case (2 t e)
  then show ?thesis using attempt_ok [OF assms(1)] by simp
next
  case (3 t d e)
  have "replay_event e (Some (standing_of t)) = Some (standing_of (reroute d t))"
    using 3 by (simp add: replay_event_def standing_of_def)
  then show ?thesis unfolding 3(9)
    using 3 by (intro rewrite_ok [OF assms(1) 3(1)]) simp_all
qed

lemma complete_ok:
  assumes "tasks_ok db" "complete i who now db = Inr db'"
  shows "tasks_ok db'"
proof -
  obtain t where t: "map_of (td_tasks db) i = Some t" "tk_status t = open_status"
    using assms(2) by (auto simp: complete_def get_task_def rbind_Inr split: option.splits if_splits)
  have "rbind (put_task i (t\<lparr>tk_status := done_status, tk_completed_by := who, tk_completed := Some now\<rparr>) db)
      (insert_event i ''completed'' (tk_assignee t) (tk_assignee t) (tk_route t) [] who) = Inr db'"
    using assms(2) t by (simp add: complete_def get_task_def)
  then show ?thesis by (rule closing_ok [OF assms(1) t, rotated]) blast
qed

text \<open>The unique index leaves at most one open task of a subject.\<close>

lemma one_openD:
  "one_open ts \<Longrightarrow> (i, t) \<in> set ts \<Longrightarrow> (j, u) \<in> set ts \<Longrightarrow> tk_status t = open_status \<Longrightarrow>
    same_subject (tk_kind t) (tk_subject_type t) (tk_subject t) u \<Longrightarrow> i = j"
  unfolding one_open_def by fast

lemma single_key:
  assumes "distinct (map fst xs)" "\<And>i a j b. (i, a) \<in> set xs \<Longrightarrow> (j, b) \<in> set xs \<Longrightarrow> i = j"
  shows "xs = [] \<or> (\<exists>p. xs = [p])"
proof (cases xs)
  case (Cons p ps)
  have "q \<notin> set ps" for q
    using assms(1) assms(2) [of "fst p" "snd p" "fst q" "snd q"] Cons by (cases p; cases q) force
  then have "ps = []" by (metis list.set_intros(1) neq_Nil_conv)
  then show ?thesis using Cons by simp
qed simp

lemma found_single:
  assumes "one_open ts"
  shows "filter (\<lambda>(i, t). same_subject k s o' t) ts = [] \<or>
    (\<exists>i t. filter (\<lambda>(i, t). same_subject k s o' t) ts = [(i, t)] \<and> map_of ts i = Some t \<and> same_subject k s o' t)"
proof -
  let ?f = "filter (\<lambda>(i, t). same_subject k s o' t) ts"
  have d: "distinct (map fst ts)" using assms by (simp add: one_open_def)
  have same: "i = j" if "(i, t) \<in> set ?f" "(j, u) \<in> set ?f" for i t j u
  proof -
    have "(i, t) \<in> set ts" "(j, u) \<in> set ts" "same_subject k s o' t" "same_subject k s o' u" using that by auto
    then show ?thesis using one_openD [OF assms, of i t j u] by (simp add: same_subject_def)
  qed
  have "distinct (map fst ?f)" using d by (simp add: distinct_map_filter)
  then have "?f = [] \<or> (\<exists>p. ?f = [p])" using same by (rule single_key)
  then show ?thesis
  proof (elim disjE exE)
    fix p assume p: "?f = [p]"
    then have "p \<in> set ?f" by simp
    then have "p \<in> set ts" "same_subject k s o' (snd p)" by auto
    moreover from this(1) have "map_of ts (fst p) = Some (snd p)" using d by simp
    ultimately show ?thesis using p by (metis prod.collapse)
  qed simp
qed

lemma close_ok:
  assumes "tasks_ok db" "close_by_subject kind subject_type subject status who now db = Inr (n, db')"
  shows "tasks_ok db'"
proof -
  have one: "one_open (td_tasks db)" using assms(1) by (simp add: tasks_ok_def)
  have status: "status = done_status \<or> status = cancelled_status"
    and fold: "fold_result (close_one status who now) (filter (\<lambda>(i, t). same_subject kind subject_type subject t) (td_tasks db)) db = Inr db'"
    using assms(2) by (auto simp: close_by_subject_def Let_def rbind_Inr split: if_splits)
  from found_single [OF one, of kind subject_type subject] consider "db' = db"
    | i t where "map_of (td_tasks db) i = Some t" "tk_status t = open_status" "close_one status who now (i, t) db = Inr db'"
    using fold by (auto simp: same_subject_def rbind_Inr)
  then show ?thesis
  proof cases
    case 1
    then show ?thesis using assms(1) by simp
  next
    case (2 i t)
    have "done_status \<noteq> cancelled_status" by (simp add: done_status_def cancelled_status_def)
    then show ?thesis using status 2(3) unfolding close_one_def prod.case
      by (intro closing_ok [OF assms(1) 2(1,2)]) auto
  qed
qed

lemma new_task_ok:
  assumes ok: "tasks_ok db" and row: "task_checks t" "known_or_null db (tk_assignee t)" "tk_completed_by t = []"
    and status: "tk_status t = open_status" and fresh: "i \<notin> set (map fst (td_tasks db))"
    and free: "\<forall>(j, u) \<in> set (td_tasks db). \<not> same_subject (tk_kind t) (tk_subject_type t) (tk_subject t) u"
    and e: "te_task e = i" "te_action e = ''created''" "te_from e = []" "te_to e = tk_assignee t" "te_route e = tk_route t"
  shows "tasks_ok (db\<lparr>td_tasks := td_tasks db @ [(i, t)], td_events := td_events db @ [e]\<rparr>)" (is "tasks_ok ?db")
proof -
  have one: "one_open (td_tasks db)" and rows: "(j, u) \<in> set (td_tasks db) \<Longrightarrow> row_ok db j u" for j u
    using ok by (auto simp: tasks_ok_def)
  have "task_history i db = []"
    using ok fresh unfolding tasks_ok_def task_history_def filter_empty_conv by metis
  then have "row_ok ?db i t"
    using row e status
    by (simp add: row_ok_def task_history_snoc replay_snoc replay_history_def replay_event_def standing_of_def
        known_or_null_def)
  moreover have "row_ok ?db j u" if "(j, u) \<in> set (td_tasks db)" for j u
  proof -
    have "j \<noteq> i" using that fresh by force
    then show ?thesis using rows [OF that] e(1) by (simp add: row_ok_def task_history_snoc)
  qed
  moreover have "one_open (td_tasks ?db)"
  proof -
    have "\<not> same_subject (tk_kind u) (tk_subject_type u) (tk_subject u) t" if "(j, u) \<in> set (td_tasks db)" "tk_status u = open_status" for j u
      using free that by (auto simp: same_subject_def)
    then show ?thesis using one fresh free status unfolding one_open_def by auto
  qed
  ultimately show ?thesis using ok e(1) unfolding tasks_ok_def by auto
qed

definition probe :: "new_task \<Rightarrow> instant \<Rightarrow> task" where
  "probe n now = new_row n \<lparr>de_assignee = [], de_route = RouteUnassigned, de_escalated = False, de_reason = []\<rparr> now"

definition decided :: "new_task \<Rightarrow> instant \<Rightarrow> task_db \<Rightarrow> decision" where
  "decided n now db = resolve (requirement_of (probe n now)) (task_candidates db (probe n now) now)"

lemma dispatch_cases:
  assumes "dispatch n fresh now db = Inr (i, created, db')"
  obtains t where "\<not> created" "db' = db" "(i, t) \<in> set (td_tasks db)"
      "same_subject (nt_kind n) (nt_subject_type n) (trim_space (nt_subject n)) t"
      "task_checks (new_row n (decided n now db) now)" "validate_new_task n = Inr ()"
  | e where "created" "i = fresh" "fresh \<notin> set (map fst (td_tasks db))"
      "\<forall>(j, u) \<in> set (td_tasks db). \<not> same_subject (nt_kind n) (nt_subject_type n) (trim_space (nt_subject n)) u"
      "task_checks (new_row n (decided n now db) now)" "validate_new_task n = Inr ()"
      "db' = db\<lparr>td_tasks := td_tasks db @ [(fresh, new_row n (decided n now db) now)], td_events := td_events db @ [e]\<rparr>"
      "te_task e = fresh" "te_action e = ''created''" "te_from e = []" "te_to e = de_assignee (decided n now db)"
      "te_route e = de_route (decided n now db)"
proof -
  let ?row = "new_row n (decided n now db) now"
  let ?same = "\<lambda>(j, u). same_subject (tk_kind ?row) (tk_subject_type ?row) (tk_subject ?row) u"
  let ?rest = "case find ?same (td_tasks db) of
       Some (i, t) \<Rightarrow> Inr (i, False, db)
     | None \<Rightarrow>
       rbind (require (tk_company ?row \<in> set (td_companies db) \<and> known_or_null db (tk_assignee ?row)
              \<and> known_or_null db (tk_created_by ?row) \<and> fresh \<notin> set (map fst (td_tasks db))) TaskForeignKey) (\<lambda>_.
       rbind (insert_event fresh ''created'' [] (de_assignee (decided n now db)) (de_route (decided n now db))
              (de_reason (decided n now db)) (nt_created_by n) (db\<lparr>td_tasks := td_tasks db @ [(fresh, ?row)]\<rparr>)) (\<lambda>db'.
         Inr (fresh, True, db')))"
  have key: "tk_kind ?row = nt_kind n" "tk_subject_type ?row = nt_subject_type n" "tk_subject ?row = trim_space (nt_subject n)"
    by (simp_all add: new_row_def)
  have eq: "dispatch n fresh now db = rbind (validate_new_task n) (\<lambda>_. rbind (require (nt_partner n = [] \<or>
      map_of (sd_partners (td_staff db)) (nt_partner n) = Some (nt_tenant n)) PartnerTenant) (\<lambda>_.
      rbind (require (task_checks ?row) TaskInvalid) (\<lambda>_. ?rest)))"
    by (simp only: dispatch_def Let_def decided_def probe_def)
  have checks: "validate_new_task n = Inr ()" "task_checks ?row" and rest: "?rest = Inr (i, created, db')"
    using assms unfolding eq rbind_unit require_simps by blast+
  show ?thesis
  proof (cases "find ?same (td_tasks db)")
    case None
    then have free: "\<forall>(j, u) \<in> set (td_tasks db). \<not> same_subject (nt_kind n) (nt_subject_type n) (trim_space (nt_subject n)) u"
      unfolding find_None_all key by auto
    have "fresh \<notin> set (map fst (td_tasks db))" "created" "i = fresh"
      "insert_event fresh ''created'' [] (de_assignee (decided n now db)) (de_route (decided n now db))
        (de_reason (decided n now db)) (nt_created_by n) (db\<lparr>td_tasks := td_tasks db @ [(fresh, ?row)]\<rparr>) = Inr db'"
      using rest None by (auto simp: rbind_Inr)
    then show ?thesis using that(2) [OF _ _ _ free checks(2,1)] by (auto dest!: insert_event_Inr)
  next
    case (Some p)
    obtain j u where p: "p = (j, u)" by (cases p)
    have "(j, u) \<in> set (td_tasks db)" "?same (j, u)" using find_Some_mem [OF Some] p by blast+
    then show ?thesis using rest checks key unfolding Some p by (intro that(1) [of u]) auto
  qed
qed

lemma new_row_fields [simp]:
  "tk_kind (new_row n d now) = nt_kind n" "tk_subject_type (new_row n d now) = nt_subject_type n"
  "tk_subject (new_row n d now) = trim_space (nt_subject n)" "tk_status (new_row n d now) = open_status"
  "tk_assignee (new_row n d now) = de_assignee d" "tk_route (new_row n d now) = de_route d"
  "tk_completed_by (new_row n d now) = []" "tk_role (new_row n d now) = nt_role n"
  "tk_permission (new_row n d now) = nt_permission n" "tk_partner (new_row n d now) = nt_partner n"
  "tk_company (new_row n d now) = nt_tenant n"
  by (simp_all add: new_row_def)

lemma decided_known: "known_or_null db (de_assignee (decided n now db))"
  unfolding decided_def by (rule resolve_assignee_known)

lemma dispatch_ok:
  assumes "tasks_ok db" "dispatch n fresh now db = Inr (i, created, db')"
  shows "tasks_ok db'"
  using assms(2)
proof (cases rule: dispatch_cases)
  case (2 e)
  then show ?thesis unfolding 2(7)
    using decided_known by (intro new_task_ok [OF assms(1)]) simp_all
qed (use assms(1) in simp)

section \<open>The machine\<close>

lemma keys_refresh [simp]: "map fst (sd_users (refresh_curator u d db)) = map fst (sd_users db)"
  using keys_update [of "sd_users db" u] by (auto simp: refresh_curator_def split: option.splits)

lemma staff_step_keys: "staff_step c s = Inr s' \<Longrightarrow> map fst (sd_users s') = map fst (sd_users s)"
  by (cases c) (auto simp: assign_def end_assignment_def revoke_def put_assignment_def sync_def Let_def rbind_Inr
      split: option.splits if_splits)

definition with_staff :: "staff_db \<Rightarrow> task_db \<Rightarrow> task_db" where
  "with_staff s db = db\<lparr>td_staff := s\<rparr>"

lemma with_staff_fields [simp]:
  "td_staff (with_staff s db) = s" "td_tasks (with_staff s db) = td_tasks db" "td_events (with_staff s db) = td_events db"
  by (simp_all add: with_staff_def)

lemma staff_ok_tasks:
  assumes "tasks_ok db" "map fst (sd_users s) = map fst (sd_users (td_staff db))"
  shows "tasks_ok (with_staff s db)"
proof -
  have known: "known_user s = known_user (td_staff db)"
    unfolding known_user_def using assms(2) by simp
  have "row_ok (with_staff s db) = row_ok db"
    by (rule ext)+ (simp add: row_ok_def known_or_null_def task_history_def known)
  then show ?thesis using assms unfolding tasks_ok_def users_ok_def by (simp add: known)
qed

text \<open>Everything that happens to tasks, with the curator assignments that happen beside it.\<close>

datatype task_command =
    CmdDispatch new_task string instant
  | CmdReassign string string string instant
  | CmdComplete string string instant
  | CmdClose string string string string string instant
  | CmdRedispatch string "string \<Rightarrow> nat \<Rightarrow> 8 word" instant "string list option"
  | CmdStaff staff_command

fun task_step :: "task_command \<Rightarrow> task_db \<Rightarrow> task_error + task_db" where
  "task_step (CmdDispatch n fresh now) db = rbind (dispatch n fresh now db) (\<lambda>r. Inr (snd (snd r)))"
| "task_step (CmdReassign i who reason now) db = rbind (reassign i who reason now db) (\<lambda>r. Inr (snd r))"
| "task_step (CmdComplete i who now) db = complete i who now db"
| "task_step (CmdClose kind subject_type subject status who now) db =
     rbind (close_by_subject kind subject_type subject status who now db) (\<lambda>r. Inr (snd r))"
| "task_step (CmdRedispatch context random now tenants) db = Inr (fst (fst (redispatch_open context random now tenants db)))"
| "task_step (CmdStaff c) db = rbind (lift_error TaskStaff (staff_step c (td_staff db))) (\<lambda>s. Inr (with_staff s db))"

lemma audit_ok: "tasks_ok db \<Longrightarrow> tasks_ok (db\<lparr>td_audit := journal\<rparr>)"
  unfolding tasks_ok_def row_ok_def known_or_null_def task_history_def by simp

lemma redispatch_one_ok:
  assumes "tasks_ok (fst s)" "redispatch_one context random now i s = Inr s'"
  shows "tasks_ok (fst s')"
proof (cases "reassign i [] scheduled_text now (fst s)")
  case (Inl e)
  then show ?thesis using assms by (cases s) (auto simp: redispatch_one_def split: if_splits)
next
  case (Inr r)
  obtain moved db' where r: "r = (moved, db')" by (cases r)
  have "tasks_ok db'" using reassign_ok [OF assms(1)] Inr r by simp
  then show ?thesis using assms(2) Inr r audit_ok
    by (cases s; cases moved) (auto simp: redispatch_one_def rbind_Inr lift_error_Inr)
qed

lemma redispatch_all_ok:
  "tasks_ok (fst s) \<Longrightarrow> tasks_ok (fst (fst (redispatch_all context random now xs s)))"
proof (induction xs arbitrary: s)
  case (Cons i xs)
  then show ?case using redispatch_one_ok [of s] by (auto split: sum.splits)
qed simp

interpretation dispatcher: guarded_machine task_step tasks_ok
proof unfold_locales
  fix db db' :: task_db and c :: task_command
  assume ok: "tasks_ok db" and step: "task_step c db = Inr db'"
  show "tasks_ok db'"
  proof (cases c)
    case (CmdDispatch n fresh now)
    then show ?thesis using step dispatch_ok [OF ok] by (auto simp: rbind_Inr)
  next
    case (CmdReassign i who reason now)
    then show ?thesis using step reassign_ok [OF ok] by (auto simp: rbind_Inr)
  next
    case (CmdComplete i who now)
    then show ?thesis using step complete_ok [OF ok] by simp
  next
    case (CmdClose kind subject_type subject status who now)
    then show ?thesis using step close_ok [OF ok] by (auto simp: rbind_Inr)
  next
    case (CmdRedispatch request random now tenants)
    then show ?thesis using step redispatch_all_ok ok by (auto simp: redispatch_open_def)
  next
    case (CmdStaff c)
    then show ?thesis using step staff_ok_tasks [OF ok] staff_step_keys by (auto simp: rbind_Inr lift_error_Inr)
  qed
qed

section \<open>Settled tasks\<close>

text \<open>Whether a task is settled depends on the users and the task, not on the other tasks.\<close>

lemma settled_iff:
  assumes "users_ok (td_staff db)" "route_checks t"
  shows "settled now db t \<longleftrightarrow> de_route (resolve (requirement_of t) (task_candidates db t now)) = tk_route t
    \<and> (tk_route t = RouteUnassigned \<or> tk_assignee t \<in> set (pool (tk_route t) (task_candidates db t now)))"
proof -
  let ?c = "task_candidates db t now"
  let ?d = "resolve (requirement_of t) ?c"
  have null: "de_assignee ?d = [] \<longleftrightarrow> de_route ?d = RouteUnassigned" by (rule resolve_assignee_empty [OF assms(1)])
  have "tk_assignee t = [] \<longleftrightarrow> tk_route t = RouteUnassigned" using assms(2) by (auto simp: route_checks_def)
  moreover have "de_assignee ?d \<in> set (pool (de_route ?d) ?c)" if "de_route ?d \<noteq> RouteUnassigned"
    using resolve_pool [OF that] unfolding resolve_assignee by (auto split: list.splits)
  ultimately show ?thesis using null by (auto simp: settled_def still_valid_def Let_def)
qed

lemma settled_transfer:
  assumes "users_ok (td_staff db)" "route_checks t" "td_staff db' = td_staff db"
  shows "settled now db' t = settled now db t"
proof -
  have same: "set (pool r (task_candidates db' t now)) = set (pool r (task_candidates db t now))" for r
    unfolding task_candidates_def assms(3) by (rule pool_set)
  then have "(pool r (task_candidates db' t now) = []) = (pool r (task_candidates db t now) = [])" for r
    by (metis set_empty)
  then show ?thesis
    using assms same resolve_route_pools [of "task_candidates db' t now" "task_candidates db t now" "requirement_of t"]
    by (simp add: settled_iff)
qed

lemma settled_reroute:
  assumes "users_ok (td_staff db)"
  shows "settled now db (reroute (resolve (requirement_of t) (task_candidates db t now)) t)"
proof -
  let ?d = "resolve (requirement_of t) (task_candidates db t now)"
  have "requirement_of (reroute ?d t) = requirement_of t" "task_candidates db (reroute ?d t) now = task_candidates db t now"
    by (simp_all add: requirement_of_def task_candidates_def)
  then show ?thesis by (simp add: settled_def Let_def)
qed

lemma insert_event_succeeds:
  assumes "known_or_null db from" "known_or_null db to" "known_or_null db who" "i \<in> set (map fst (td_tasks db))"
  obtains e where "insert_event i action from to r reason who db = Inr (db\<lparr>td_events := td_events db @ [e]\<rparr>)"
  using assms by (auto simp: insert_event_def)

lemma audit_constants:
  "trim_space ''reassign'' = ''reassign''" "trim_space ''workflow_task'' = ''workflow_task''"
  "identifier_pattern ''reassign''" "identifier_pattern ''workflow_task''" "trim_space [] = []"
  "trim_space actor_system = actor_system"
  by code_simp+

text \<open>The journal entry of the pass is always written.\<close>

lemma redispatch_audit:
  assumes "length request \<le> 128"
  shows "\<exists>journal'. write_audit request random (redispatch_event i before after) journal = Inr journal'"
proof -
  have "write_audit request random (redispatch_event i before after) journal =
      Inr (journal @ [normalize request random (redispatch_event i before after)])"
    by (rule write_audit_succeeds)
      (simp_all add: redispatch_event_def user_actor_def audit_constants assms)
  then show ?thesis by blast
qed

lemma redispatch_one_settled:
  assumes "map_of (td_tasks db) i = Some t" "tk_status t = open_status" "settled now db t"
  shows "redispatch_one request random now i (db, n) = Inr (db, n)"
proof -
  have "reassign i [] scheduled_text now db = Inr (False, db)"
    using assms by (auto simp: reassign_def get_task_def settled_def Let_def)
  then show ?thesis by (simp add: redispatch_one_def)
qed

lemma redispatch_one_effect:
  assumes ok: "tasks_ok db" and t: "map_of (td_tasks db) i = Some t" "tk_status t = open_status" and request: "length request \<le> 128"
  obtains db' n' t' where "redispatch_one request random now i (db, n) = Inr (db', n')" "tasks_ok db'"
    "td_staff db' = td_staff db" "td_tasks db' = AList.update i t' (td_tasks db)" "settled now db' t'"
    "tk_status t' = open_status"
proof (cases "settled now db t")
  case True
  then show ?thesis using that [of db n t] redispatch_one_settled [OF t] ok t by (simp add: update_same)
next
  case False
  let ?d = "resolve (requirement_of t) (task_candidates db t now)"
  let ?db = "db\<lparr>td_tasks := AList.update i (reroute ?d t) (td_tasks db)\<rparr>"
  have users: "users_ok (td_staff db)" and row: "row_ok db i t"
    using ok t by (auto simp: tasks_ok_def dest!: map_of_SomeD)
  have key: "i \<in> set (map fst (td_tasks db))" using t(1) by (force dest!: map_of_SomeD)
  have "put_task i (reroute ?d t) db = Inr ?db"
    using row resolved_checks [OF users] resolve_assignee_known by (simp add: put_task_def row_ok_def)
  moreover obtain e where "insert_event i ''reassigned'' (tk_assignee t) (de_assignee ?d) (de_route ?d)
      (trim_note (if trim_space scheduled_text \<noteq> [] then trim_space scheduled_text @ ''; '' @ de_reason ?d else de_reason ?d)) [] ?db
      = Inr (?db\<lparr>td_events := td_events ?db @ [e]\<rparr>)"
    using row resolve_assignee_known key keys_update [of "td_tasks db" i "reroute ?d t"] t
    by (elim insert_event_succeeds [rotated 4]) (auto simp: row_ok_def known_or_null_def)
  ultimately have r: "reassign i [] scheduled_text now db = Inr (True, ?db\<lparr>td_events := td_events ?db @ [e]\<rparr>)" (is "_ = Inr (True, ?db2)")
    using t False by (simp add: reassign_def get_task_def settled_def Let_def reroute_def)
  obtain journal where j: "write_audit request (random i) (redispatch_event i t (reroute ?d t)) (td_audit ?db2) = Inr journal"
    using redispatch_audit [OF request] by blast
  have one: "redispatch_one request random now i (db, n) = Inr (?db2\<lparr>td_audit := journal\<rparr>, Suc n)"
    using r j t by (simp add: redispatch_one_def get_task_def lift_error_def)
  have "settled now (?db2\<lparr>td_audit := journal\<rparr>) (reroute ?d t)"
    by (subst settled_transfer [OF users resolved_route_checks [OF users]]) (simp_all add: settled_reroute [OF users])
  moreover have "tasks_ok (?db2\<lparr>td_audit := journal\<rparr>)"
    using redispatch_one_ok [OF _ one] ok by simp
  ultimately show ?thesis using that [OF one, of "reroute ?d t"] t by simp
qed

section \<open>The scheduled pass\<close>

lemma redispatch_all_settled:
  assumes "\<And>i. i \<in> set xs \<Longrightarrow> \<exists>t. map_of (td_tasks db) i = Some t \<and> tk_status t = open_status \<and> settled now db t"
  shows "redispatch_all request random now xs (db, n) = ((db, n), None)"
  using assms
proof (induction xs)
  case (Cons i xs)
  obtain t where "map_of (td_tasks db) i = Some t" "tk_status t = open_status" "settled now db t" using Cons.prems [of i] by auto
  then show ?case using Cons by (simp add: redispatch_one_settled)
qed simp

text \<open>A row after the pass: as it was, or settled; the ones the pass visited are settled.\<close>

definition passed :: "instant \<Rightarrow> string list \<Rightarrow> task_db \<Rightarrow> task_db \<Rightarrow> bool" where
  "passed now xs db db' = (td_staff db' = td_staff db \<and> map fst (td_tasks db') = map fst (td_tasks db)
     \<and> (\<forall>j t. map_of (td_tasks db) j = Some t \<longrightarrow> (\<exists>t'. map_of (td_tasks db') j = Some t' \<and> tk_status t' = tk_status t
          \<and> (j \<in> set xs \<longrightarrow> settled now db' t') \<and> (j \<notin> set xs \<longrightarrow> t' = t))))"

lemma row_ok_of:
  assumes "tasks_ok db" "map_of (td_tasks db) j = Some t"
  shows "row_ok db j t" "route_checks t" "users_ok (td_staff db)"
  using assms by (auto simp: tasks_ok_def row_ok_def task_checks_def dest!: map_of_SomeD)

lemma redispatch_all_effect:
  assumes "tasks_ok db" "length request \<le> 128"
    and "\<And>i. i \<in> set xs \<Longrightarrow> \<exists>t. map_of (td_tasks db) i = Some t \<and> tk_status t = open_status"
  shows "\<exists>db' n'. redispatch_all request random now xs (db, n) = ((db', n'), None) \<and> tasks_ok db' \<and> passed now xs db db'"
  using assms
proof (induction xs arbitrary: db n)
  case Nil
  then show ?case by (simp add: passed_def)
next
  case (Cons i xs)
  obtain t where t: "map_of (td_tasks db) i = Some t" "tk_status t = open_status" using Cons.prems(3) by auto
  from redispatch_one_effect [OF Cons.prems(1) t Cons.prems(2)]
  obtain db1 n1 t1 where one: "redispatch_one request random now i (db, n) = Inr (db1, n1)" "tasks_ok db1"
    "td_staff db1 = td_staff db" "td_tasks db1 = AList.update i t1 (td_tasks db)" "settled now db1 t1" "tk_status t1 = open_status"
    by blast
  have keys1: "map fst (td_tasks db1) = map fst (td_tasks db)" using one(4) keys_update [of "td_tasks db" i t1] t by simp
  have at1: "map_of (td_tasks db1) j = (if j = i then Some t1 else map_of (td_tasks db) j)" for j
    using one(4) by (simp add: update_conv)
  have "\<exists>u. map_of (td_tasks db1) j = Some u \<and> tk_status u = open_status" if "j \<in> set xs" for j
    using Cons.prems(3) [of j] that at1 one(6) by auto
  from Cons.IH [OF one(2) Cons.prems(2) this]
  obtain db' n' where all: "redispatch_all request random now xs (db1, n1) = ((db', n'), None)" "tasks_ok db'" "passed now xs db1 db'"
    by blast
  have "\<exists>u'. map_of (td_tasks db') j = Some u' \<and> tk_status u' = tk_status u
      \<and> (j \<in> set (i # xs) \<longrightarrow> settled now db' u') \<and> (j \<notin> set (i # xs) \<longrightarrow> u' = u)" if u: "map_of (td_tasks db) j = Some u" for j u
  proof (cases "j = i")
    case True
    obtain u' where u': "map_of (td_tasks db') i = Some u'" "tk_status u' = tk_status t1"
        "i \<in> set xs \<longrightarrow> settled now db' u'" "i \<notin> set xs \<longrightarrow> u' = t1"
      using all(3) at1 [of i] unfolding passed_def by auto
    have "route_checks t1" "users_ok (td_staff db1)" using row_ok_of [OF one(2)] at1 [of i] by simp_all
    then have "settled now db' t1" using settled_transfer one(5) all(3) unfolding passed_def by blast
    then show ?thesis using True u u' t one(6) by auto
  next
    case False
    then show ?thesis using all(3) at1 [of j] u unfolding passed_def by auto
  qed
  then have "passed now (i # xs) db db'" using all(3) one(3) keys1 unfolding passed_def by simp
  then show ?case using one(1) all by simp
qed

text \<open>The tasks a pass would visit, were it not for its limit of 500.\<close>

definition due_tasks :: "string list option \<Rightarrow> task_db \<Rightarrow> (string \<times> task) list" where
  "due_tasks tenants db =
     filter (\<lambda>(i, t). tk_status t = open_status \<and> off_road db t \<and> of_tenants tenants (tk_company t)) (td_tasks db)"

lemma redispatch_ids_due: "set (redispatch_ids tenants db) \<subseteq> set (map fst (due_tasks tenants db))"
  by (auto simp: redispatch_ids_def due_tasks_def dest!: in_set_takeD)

lemma redispatch_ids_all:
  "length (due_tasks tenants db) \<le> 500 \<Longrightarrow> set (redispatch_ids tenants db) = set (map fst (due_tasks tenants db))"
  by (simp add: redispatch_ids_def due_tasks_def)

lemma due_row:
  assumes "tasks_ok db" "i \<in> set (redispatch_ids tenants db)"
  obtains t where "map_of (td_tasks db) i = Some t" "tk_status t = open_status" "off_road db t" "(i, t) \<in> set (due_tasks tenants db)"
proof -
  obtain t where "(i, t) \<in> set (due_tasks tenants db)" using assms(2) redispatch_ids_due by fastforce
  moreover from this have "map_of (td_tasks db) i = Some t"
    using assms(1) by (auto simp: due_tasks_def tasks_ok_def one_open_def)
  ultimately show ?thesis using that by (auto simp: due_tasks_def)
qed

end
