(* ===== verification/TaskProperties.thy ===== *)
theory TaskProperties
  imports TaskLaws
begin

text \<open>
  The properties of the task dispatcher: its history, its chain of duty, the idempotence of a
  repeated dispatch and the effect of the scheduled pass.
\<close>

section \<open>The history explains the tasks\<close>

text \<open>
  C20: whatever is dispatched, reassigned, completed, closed and rerouted by the scheduled pass, among any
  changes of the curator assignments, on a database that starts without tasks, every task meets the
  constraints of its table, no other open task has its kind and subject, and the events of its
  history, in which each starts from the assignee the one before left, replay to its assignee, its
  route and its status.
\<close>

theorem history_explains_tasks:
  assumes "users_ok (td_staff db)" "td_tasks db = []" "td_events db = []"
    and "(i, t) \<in> set (td_tasks (run_machine task_step commands db))"
  shows "task_checks t \<and> replay_history (task_history i (run_machine task_step commands db)) = Some (standing_of t)
    \<and> (\<forall>(j, u) \<in> set (td_tasks (run_machine task_step commands db)). tk_status t = open_status \<longrightarrow>
        same_subject (tk_kind t) (tk_subject_type t) (tk_subject t) u \<longrightarrow> i = j)"
proof -
  have "tasks_ok db" using assms(1-3) by (simp add: tasks_ok_def one_open_def)
  then have "tasks_ok (run_machine task_step commands db)" by (rule dispatcher.run_inv)
  then show ?thesis using assms(4) unfolding tasks_ok_def row_ok_def one_open_def by blast
qed

definition organisation_user :: "string \<Rightarrow> string option \<Rightarrow> user_row" where
  "organisation_user r company = \<lparr>ur_role = r, ur_active = True, ur_entity = ''organization'', ur_company = company,
     ur_partner = None\<rparr>"

definition office :: task_db where
  "office = \<lparr>td_staff = \<lparr>sd_users = [(''u1'', organisation_user ''curator'' (Some ''c1'')),
       (''u2'', organisation_user ''org_admin'' (Some ''c1'')), (''u3'', organisation_user ''super_admin'' None)],
       sd_partners = [(''p1'', ''c1'')], sd_assignments = []\<rparr>,
     td_companies = [''c1''], td_tasks = [], td_events = [], td_audit = []\<rparr>"

definition office_task :: new_task where
  "office_task = \<lparr>nt_tenant = ''c1'', nt_partner = ''p1'', nt_kind = ''report.check'', nt_title = '' Check '',
     nt_subject_type = ''report'', nt_subject = ''r1'', nt_role = ''hr_specialist'',
     nt_permission = edit_internship_entries, nt_created_by = ''u2''\<rparr>"

definition office_commands :: "task_command list" where
  "office_commands = [CmdDispatch office_task ''t1'' 0,
     CmdStaff (CmdAssign \<lparr>in_curator = ''u1'', in_partner = ''p1'', in_from = -1, in_until = None, in_by = [], in_reason = []\<rparr> ''a1'' 0),
     CmdReassign ''t1'' [] [] 0, CmdComplete ''t1'' ''u1'' 5]"

lemma office_run:
  "map (\<lambda>(i, t). (i, tk_assignee t, tk_route t, tk_status t)) (td_tasks (run_machine task_step office_commands office)) =
    [(''t1'', ''u1'', RouteCurator, ''done'')]"
  by code_simp

lemma office_users: "users_ok (td_staff office)"
  by code_simp

theorem history_explains_tasks_witness:
  "\<exists>t. (''t1'', t) \<in> set (td_tasks (run_machine task_step office_commands office)) \<and> replay_history
    (task_history ''t1'' (run_machine task_step office_commands office)) = Some (''u1'', RouteCurator, ''done'')"
proof -
  obtain t where t: "(''t1'', t) \<in> set (td_tasks (run_machine task_step office_commands office))"
    "standing_of t = (''u1'', RouteCurator, ''done'')"
    using office_run by (auto simp: standing_of_def)
  have "td_tasks office = []" "td_events office = []" by (simp_all add: office_def)
  from history_explains_tasks [OF office_users this t(1)] t show ?thesis by (intro exI conjI) simp_all
qed

section \<open>The chain of duty\<close>

text \<open>
  Whom a step of the chain may name for a task: an active user of an organisation who has the role
  the task asks for in the task's company; the curator of the task's partner, where the permission
  is delegated to curators; an administrator of the company, or a super-administrator of the company
  or of none, whose own role holds the permission. A task that asks for a curator means the curator
  of its partner.
\<close>

definition curates :: "task_db \<Rightarrow> task \<Rightarrow> instant \<Rightarrow> string \<Rightarrow> user_row \<Rightarrow> bool" where
  "curates db t now i u = (ur_role u = ''curator'' \<and> tk_partner t \<noteq> []
     \<and> (\<exists>a \<in> set (map snd (sd_assignments (td_staff db))). as_partner a = tk_partner t \<and> assigned_on i (moscow_day now) a))"

definition eligible :: "task_db \<Rightarrow> task \<Rightarrow> instant \<Rightarrow> route \<Rightarrow> string \<Rightarrow> user_row \<Rightarrow> bool" where
  "eligible db t now r i u = (ur_active u \<and> ur_entity u = ''organization'' \<and> (case r of
     RouteSpecialist \<Rightarrow> if tk_role t = ''curator'' then curates db t now i u
       else ur_role u = tk_role t \<and> ur_company u = Some (tk_company t)
   | RouteCurator \<Rightarrow> curates db t now i u \<and> delegates ''curator'' (tk_permission t)
   | RouteOrgAdmin \<Rightarrow> ur_role u = ''org_admin'' \<and> ur_company u = Some (tk_company t) \<and> allows ''org_admin'' (tk_permission t)
   | RouteSuperAdmin \<Rightarrow> ur_role u = ''super_admin'' \<and> (ur_company u = Some (tk_company t) \<or> ur_company u = None)
       \<and> allows ''super_admin'' (tk_permission t)
   | RouteUnassigned \<Rightarrow> False))"

fun step_of :: "route \<Rightarrow> nat" where
  "step_of RouteSpecialist = 0"
| "step_of RouteCurator = 1"
| "step_of RouteOrgAdmin = 2"
| "step_of RouteSuperAdmin = 3"
| "step_of RouteUnassigned = 4"

lemma for_partner_set:
  assumes "distinct (map fst (sd_users db))"
  shows "i \<in> set (for_partner p now db) \<longleftrightarrow> (\<exists>u. (i, u) \<in> set (sd_users db) \<and> ur_active u
    \<and> ur_entity u = ''organization'' \<and> ur_role u = ''curator''
    \<and> (\<exists>a \<in> set (map snd (sd_assignments db)). as_partner a = p \<and> assigned_on i (moscow_day now) a))"
proof -
  have user: "map_of (sd_users db) j = Some u \<longleftrightarrow> (j, u) \<in> set (sd_users db)" for j u
    using assms by (rule map_of_eq_Some_iff)
  have "i \<in> set (for_partner p now db) \<longleftrightarrow> (\<exists>a \<in> set (map snd (sd_assignments db)). as_user a = i \<and> as_partner a = p
      \<and> active a (moscow_day now) \<and> (\<exists>u. map_of (sd_users db) i = Some u \<and> ur_active u \<and> organization_curator u))"
    by (auto simp: for_partner_def split: option.splits)
  also have "\<dots> \<longleftrightarrow> (\<exists>u. (i, u) \<in> set (sd_users db) \<and> ur_active u \<and> ur_entity u = ''organization'' \<and> ur_role u = ''curator''
      \<and> (\<exists>a \<in> set (map snd (sd_assignments db)). as_partner a = p \<and> assigned_on i (moscow_day now) a))"
    unfolding user organization_curator_def assigned_on_iff by blast
  finally show ?thesis .
qed

text \<open>The pool of a step, where the step may be taken, holds exactly the eligible users.\<close>

definition open_step :: "task \<Rightarrow> route \<Rightarrow> bool" where
  "open_step t r = (case r of RouteSpecialist \<Rightarrow> True
     | RouteCurator \<Rightarrow> tk_partner t \<noteq> [] \<and> delegates ''curator'' (tk_permission t)
     | RouteOrgAdmin \<Rightarrow> allows ''org_admin'' (tk_permission t)
     | RouteSuperAdmin \<Rightarrow> allows ''super_admin'' (tk_permission t)
     | RouteUnassigned \<Rightarrow> False)"

lemma pool_eligible:
  assumes "distinct (map fst (sd_users (td_staff db)))"
  shows "open_step t r \<and> i \<in> set (pool r (task_candidates db t now)) \<longleftrightarrow>
    (\<exists>u. (i, u) \<in> set (sd_users (td_staff db)) \<and> eligible db t now r i u)"
proof -
  note curator = for_partner_set [OF assms, of i "tk_partner t" now]
  show ?thesis
    by (cases r; cases "tk_role t = ''curator''"; cases "tk_partner t = []")
       (auto simp: open_step_def pool_def task_candidates_def candidates_of_def Let_def eligible_def curates_def
         by_role_set curator)
qed

lemma resolve_first_step:
  assumes "d = resolve (requirement_of t) c"
  shows "de_route d \<noteq> RouteUnassigned \<Longrightarrow> open_step t (de_route d) \<and> de_assignee d \<in> set (pool (de_route d) c)"
    "step_of r < step_of (de_route d) \<Longrightarrow> \<not> open_step t r \<or> pool r c = []"
    "de_route d = RouteUnassigned \<Longrightarrow> de_assignee d = []"
proof -
  note route = resolve_route [of "requirement_of t" c, folded assms]
  show "open_step t (de_route d) \<and> de_assignee d \<in> set (pool (de_route d) c)" if "de_route d \<noteq> RouteUnassigned"
    using resolve_pool [of "requirement_of t" c] resolve_assignee [of "requirement_of t" c] route that
    unfolding assms by (auto simp: open_step_def delegated_curator_def admin_step_def requirement_of_def split: list.splits if_splits)
  show "\<not> open_step t r \<or> pool r c = []" if "step_of r < step_of (de_route d)"
    using route that
    by (cases r) (auto simp: open_step_def pool_def delegated_curator_def admin_step_def requirement_of_def split: if_splits)
  show "de_assignee d = []" if "de_route d = RouteUnassigned"
    using resolve_assignee [of "requirement_of t" c] that unfolding assms by (simp add: pool_def)
qed

text \<open>
  C21: a decision takes the first step of the chain (the role in the task's company; the assigned
  curator of the task's partner, when the permission is delegated to curators; an administrator of
  the company; a super-administrator of the company or of none) at which somebody is eligible, and
  names one of the eligible users there; beyond the specialist the one named may carry the task out
  by what his role holds, a curator by what is delegated. Nobody is named exactly when nobody is
  eligible at any step.
\<close>

theorem chain_of_duty:
  assumes "distinct (map fst (sd_users (td_staff db)))" "d = resolve (requirement_of t) (task_candidates db t now)"
  shows "(de_route d \<noteq> RouteUnassigned \<longrightarrow> (\<exists>u. map_of (sd_users (td_staff db)) (de_assignee d) = Some u
      \<and> eligible db t now (de_route d) (de_assignee d) u
      \<and> (de_route d \<noteq> RouteSpecialist \<longrightarrow> can_execute (ur_role u) True (de_route d) (tk_permission t))))
    \<and> (\<forall>r i u. step_of r < step_of (de_route d) \<longrightarrow> (i, u) \<in> set (sd_users (td_staff db)) \<longrightarrow> \<not> eligible db t now r i u)
    \<and> (de_route d = RouteUnassigned \<longrightarrow> de_assignee d = [])"
proof (intro conjI impI allI)
  note first = resolve_first_step [OF assms(2)] and pools = pool_eligible [OF assms(1), of t _ _ now]
  assume r: "de_route d \<noteq> RouteUnassigned"
  obtain u where u: "(de_assignee d, u) \<in> set (sd_users (td_staff db))" "eligible db t now (de_route d) (de_assignee d) u"
    using first(1) [OF r] pools by blast
  have "can_execute (ur_role u) True (de_route d) (tk_permission t)" if "de_route d \<noteq> RouteSpecialist"
    using u(2) r that by (cases "de_route d") (auto simp: eligible_def curates_def can_execute_def)
  then show "\<exists>u. map_of (sd_users (td_staff db)) (de_assignee d) = Some u \<and> eligible db t now (de_route d) (de_assignee d) u
      \<and> (de_route d \<noteq> RouteSpecialist \<longrightarrow> can_execute (ur_role u) True (de_route d) (tk_permission t))"
    using u map_of_is_SomeI [OF assms(1) u(1)] by blast
next
  fix r i u assume "step_of r < step_of (de_route d)" "(i, u) \<in> set (sd_users (td_staff db))"
  then show "\<not> eligible db t now r i u"
    using resolve_first_step(2) [OF assms(2), of r] pool_eligible [OF assms(1), of t r i now] by auto
next
  assume "de_route d = RouteUnassigned"
  then show "de_assignee d = []" by (rule resolve_first_step(3) [OF assms(2)])
qed

lemma office_decision: "de_route (decided office_task 0 office) = RouteOrgAdmin"
  by code_simp

theorem chain_of_duty_witness:
  "\<exists>u. map_of (sd_users (td_staff office)) (de_assignee (decided office_task 0 office)) = Some u
    \<and> can_execute (ur_role u) True RouteOrgAdmin (tk_permission (probe office_task 0))
    \<and> \<not> eligible office (probe office_task 0) 0 RouteCurator ''u1'' (organisation_user ''curator'' (Some ''c1''))"
proof -
  have "distinct (map fst (sd_users (td_staff office)))" using office_users by (simp add: users_ok_def)
  note chain = chain_of_duty [OF this decided_def [of office_task 0 office]]
  have "(''u1'', organisation_user ''curator'' (Some ''c1'')) \<in> set (sd_users (td_staff office))" by (simp add: office_def)
  then show ?thesis using chain office_decision by auto
qed

section \<open>Repetition\<close>

lemma resolved_row_checks:
  assumes "users_ok (td_staff db)" "task_checks (new_row n d now)"
  shows "task_checks (new_row n (decided n later db) later)"
proof -
  have "new_row n (decided n later db) later = reroute (decided n later db) (probe n later)"
    by (simp add: new_row_def probe_def reroute_def)
  then have "route_checks (new_row n (decided n later db) later)"
    using resolved_route_checks [OF assms(1)] by (simp add: decided_def)
  then show ?thesis using assms(2) by (simp add: task_checks_def subject_checks_def status_checks_def new_row_def)
qed

text \<open>
  C23: a task that is dispatched again, at whatever later moment, is the task that is already open: it is
  returned as not created and nothing changes.
\<close>

theorem dispatch_idempotent:
  assumes ok: "tasks_ok db" and first: "dispatch n fresh now db = Inr (i, created, db')"
  shows "dispatch n fresh' later db' = Inr (i, False, db')"
proof -
  let ?row = "new_row n (decided n later db') later"
  let ?same = "\<lambda>(j, u). same_subject (nt_kind n) (nt_subject_type n) (trim_space (nt_subject n)) u"
  have ok': "tasks_ok db'" by (rule dispatch_ok [OF assms])
  have "\<exists>t. (i, t) \<in> set (td_tasks db') \<and> ?same (i, t) \<and> td_staff db' = td_staff db"
    using first by (cases rule: dispatch_cases) (auto intro!: exI simp: same_subject_def)
  then obtain t where t: "(i, t) \<in> set (td_tasks db')" "?same (i, t)" and staff: "td_staff db' = td_staff db" by blast
  have checks: "validate_new_task n = Inr ()" "task_checks (new_row n (decided n now db) now)"
    using first by (cases rule: dispatch_cases; blast)+
  have partner: "nt_partner n = [] \<or> map_of (sd_partners (td_staff db')) (nt_partner n) = Some (nt_tenant n)"
    using first unfolding dispatch_def rbind_unit require_simps staff by blast
  obtain p where p: "find ?same (td_tasks db') = Some p"
    using t find_None_all [of ?same "td_tasks db'"] by (cases "find ?same (td_tasks db')") auto
  then have "p \<in> set (td_tasks db')" "?same p" using find_Some_mem [OF p] by blast+
  then have "fst p = i"
    using t ok' one_openD [of "td_tasks db'" i t "fst p" "snd p"] by (cases p) (auto simp: tasks_ok_def same_subject_def)
  moreover have "task_checks ?row" using resolved_row_checks checks(2) ok' by (simp add: tasks_ok_def)
  ultimately show ?thesis using p checks partner
    by (cases p) (simp add: dispatch_def decided_def [symmetric] probe_def [symmetric] Let_def require_def)
qed

lemma office_dispatch: "succeeds (dispatch office_task ''t1'' 0 office)"
  by code_simp

lemma office_ok: "tasks_ok office"
  using office_users by (simp add: tasks_ok_def one_open_def) (simp add: office_def)

theorem dispatch_idempotent_witness:
  "\<exists>i created db'. dispatch office_task ''t1'' 0 office = Inr (i, created, db') \<and>
    dispatch office_task ''t2'' 100 db' = Inr (i, False, db')"
proof -
  obtain r where "dispatch office_task ''t1'' 0 office = Inr r" using office_dispatch unfolding succeeds_iff by (elim exE)
  moreover obtain i created db' where "r = (i, created, db')" by (cases r)
  ultimately have d: "dispatch office_task ''t1'' 0 office = Inr (i, created, db')" by simp
  show ?thesis by (rule exI, rule exI, rule exI, rule conjI, rule d, rule dispatch_idempotent [OF office_ok d])
qed

section \<open>The scheduled pass\<close>


definition busy_office :: task_db where
  "busy_office = run_machine task_step (take 2 office_commands) office"

lemma busy_due: "map fst (due_tasks (Some []) busy_office) = [''t1'']"
  by code_simp


end
