(* ===== verification/Readiness.thy ===== *)
theory Readiness
  imports Exact Decision
begin

text \<open>
  \<open>backend/internal/compliance/readiness.go\<close>: how complete the documents and the data of an entry are.
  The checks of a category are a list; a check that fails is a blocking reason or a warning, shown
  by its label. Numeric texts are decimal numerals, as in theory \<open>Payload\<close>: the spellings of
  infinities, NaN and hexadecimal numbers, which \<open>strconv.ParseFloat\<close> also reads, do not occur.
\<close>

section \<open>Printing of values\<close>

text \<open>
  The text \<open>fmt.Sprint\<close> gives a binary64 value: its shortest digits, with an exponent below 1e-4 and
  from 1e21 on.
\<close>

fun decimal_digits :: "nat \<Rightarrow> rat \<Rightarrow> nat list" where
  "decimal_digits 0 q = []"
| "decimal_digits (Suc n) q = (if q = 0 then [] else nat \<lfloor>q\<rfloor> # decimal_digits n ((q - of_int \<lfloor>q\<rfloor>) * 10))"

definition digit_text :: "nat list \<Rightarrow> string" where
  "digit_text ds = map (\<lambda>d. chr (48 + d)) ds"

definition positive_text :: "rat \<Rightarrow> string" where
  "positive_text q = (case exponent10 q of
     None \<Rightarrow> ''0''
   | Some x \<Rightarrow>
       (let ds = decimal_digits 18 (shortest q / pow10 x) in
        if x < -4 \<or> x \<ge> 21 then
          digit_text (take 1 ds) @ (if length ds > 1 then ''.'' @ digit_text (drop 1 ds) else []) @ ''e'' @
          (if x < 0 then ''-'' else ''+'') @ pad 2 (nat \<bar>x\<bar>)
        else if x < 0 then ''0.'' @ replicate (nat (- x) - 1) (CHR ''0'') @ digit_text ds
        else if length ds > nat x + 1 then digit_text (take (nat x + 1) ds) @ ''.'' @ digit_text (drop (nat x + 1) ds)
        else digit_text ds @ replicate (nat x + 1 - length ds) (CHR ''0'')))"

definition float_text :: "rat \<Rightarrow> string" where
  "float_text v = (if v = 0 then ''0'' else if v < 0 then ''-'' @ positive_text (- v) else positive_text v)"

fun go_sprint :: "jvalue \<Rightarrow> string" where
  "go_sprint JNull = ''<nil>''"
| "go_sprint (JBool b) = (if b then ''true'' else ''false'')"
| "go_sprint (JNumber s) = s"
| "go_sprint (JFloat r) = float_text r"
| "go_sprint (JInt i) = show_int i"
| "go_sprint (JString s) = s"
| "go_sprint (JArray vs) = ''['' @ join '' '' (map go_sprint vs) @ '']''"
| "go_sprint (JObject m) = ''map['' @ join '' '' (map (\<lambda>(k, s). k @ '':'' @ s)
     (sort_key fst (map (\<lambda>(k, v). (k, go_sprint v)) m))) @ '']''"

definition field_text :: "payload \<Rightarrow> string \<Rightarrow> string" where
  "field_text p key = (case map_of p key of None \<Rightarrow> ''<nil>'' | Some v \<Rightarrow> go_sprint v)"

section \<open>Documents\<close>

text \<open>The keys of \<open>documentLabels\<close>.\<close>

definition document_types :: "string list" where
  "document_types =
   [''other'', ''employment_contract'', ''organization_agreement'', ''individual_plan'',
    ''appointment_order'', ''program_project'', ''expert_conclusion'', ''academic_council_protocol'',
    ''internship_agreement'', ''practice_agreement'', ''labor_contract'', ''mentor_order'',
    ''individual_program'', ''incoming_certificate'', ''outgoing_certificate'', ''top_agreement'',
    ''payment_order'', ''spending_act'', ''ano_letter'', ''school_agreement'', ''participant_groups'',
    ''acceptance_act'', ''digital_trace'', ''ministry_decision'', ''expense_evidence'',
    ''auditor_report'']"

definition valid_document_type :: "string \<Rightarrow> bool" where
  "valid_document_type code = (code \<in> set document_types)"

text \<open>\<open>strings.SplitN(value, ":", 2)\<close>.\<close>

definition split_token :: "string \<Rightarrow> string \<times> string option" where
  "split_token v = (takeWhile (\<lambda>c. c \<noteq> CHR '':'') v,
     case dropWhile (\<lambda>c. c \<noteq> CHR '':'') v of [] \<Rightarrow> None | _ # r \<Rightarrow> Some r)"

record document_set =
  ds_docs :: "string list"
  ds_rejected :: "string list"
  ds_pending :: bool

definition add_document :: "string \<Rightarrow> document_set \<Rightarrow> document_set" where
  "add_document v s = (case split_token v of (code, status) \<Rightarrow>
     if status = Some ''rejected'' then s\<lparr>ds_rejected := code # ds_rejected s\<rparr>
     else s\<lparr>ds_docs := code # ds_docs s, ds_pending := ds_pending s \<or> status = Some ''pending''\<rparr>)"

definition document_set_of :: "string list \<Rightarrow> document_set" where
  "document_set_of vs = fold add_document vs \<lparr>ds_docs = [], ds_rejected = [], ds_pending = False\<rparr>"

section \<open>Questions about an entry\<close>

definition has :: "payload \<Rightarrow> string \<Rightarrow> bool" where
  "has p key = (trim_space (field_text p key) \<noteq> [] \<and> field_text p key \<noteq> ''<nil>'')"

definition has_doc :: "document_set \<Rightarrow> payload \<Rightarrow> string \<Rightarrow> string list \<Rightarrow> bool" where
  "has_doc s p code refs =
     (code \<in> set (ds_docs s) \<or> code \<notin> set (ds_rejected s) \<and> list_ex (has p) refs)"

definition read_number :: "payload \<Rightarrow> string \<Rightarrow> rat" where
  "read_number p key = (case parse_decimal (replace_char (CHR '','') (CHR ''.'') (field_text p key)) of
     None \<Rightarrow> 0 | Some q \<Rightarrow> f64 q)"

definition replace_semicolons :: "string \<Rightarrow> string" where
  "replace_semicolons = replace_char (CHR '';'') newline"

definition evidence_list :: "jvalue option \<Rightarrow> string list" where
  "evidence_list v = (case v of
     Some (JString text) \<Rightarrow> filter (\<lambda>item. item \<noteq> []) (map squeeze (split_on newline (replace_semicolons text)))
   | _ \<Rightarrow> [])"

section \<open>Checks\<close>

text \<open>The labels of the checks, by their codes (with the category where a code has two labels).\<close>

definition labels :: "(string \<times> string) list" where
  "labels = [
    (''staff_profile'', utf8 [1055, 1088, 1086, 1092, 1080, 1083, 1100, 32, 1089, 1086, 1090, 1088, 1091, 1076, 1085, 1080,
      1082, 1072, 32, 1087, 1086, 1076, 1090, 1074, 1077, 1088, 1078, 1076, 1105, 1085, 32, 1072, 1076, 1084,
      1080, 1085, 1080, 1089, 1090, 1088, 1072, 1090, 1086, 1088, 1086, 1084]),
    (''discipline'', utf8 [1044, 1080, 1089, 1094, 1080, 1087, 1083, 1080, 1085, 1072, 32, 1089, 1086, 1075, 1083, 1072,
      1089, 1086, 1074, 1072, 1085, 1072, 32, 1089, 32, 1086, 1073, 1088, 1072, 1079, 1086, 1074, 1072, 1090,
      1077, 1083, 1100, 1085, 1086, 1081, 32, 1086, 1088, 1075, 1072, 1085, 1080, 1079, 1072, 1094, 1080,
      1077, 1081]),
    (''it_experience'', utf8 [1048, 1058, 45, 1089, 1090, 1072, 1078, 32, 1085, 1077, 32, 1084, 1077, 1085, 1077, 1077, 32, 51,
      54, 53, 32, 1076, 1085, 1077, 1081, 32, 1079, 1072, 32, 1087, 1086, 1089, 1083, 1077, 1076, 1085, 1080,
      1077, 32, 53, 32, 1083, 1077, 1090]),
    (''okz'', utf8 [1055, 1088, 1086, 1074, 1077, 1088, 1077, 1085, 1085, 1099, 1081, 32, 1082, 1086, 1076, 32, 1054,
      1050, 1047, 32, 1089, 1086, 1090, 1088, 1091, 1076, 1085, 1080, 1082, 1072]),
    (''employment_contract'', utf8 [1058, 1088, 1091, 1076, 1086, 1074, 1086, 1081, 32, 1076, 1086, 1075, 1086, 1074, 1086, 1088, 32,
      1080, 1083, 1080, 32, 1043, 1055, 1061]),
    (''donation_usage_report'', utf8 [1054, 1090, 1095, 1105, 1090, 32, 1086, 1073, 32, 1080, 1089, 1087, 1086, 1083, 1100, 1079, 1086,
      1074, 1072, 1085, 1080, 1080, 32, 1087, 1086, 1078, 1077, 1088, 1090, 1074, 1086, 1074, 1072, 1085,
      1080, 1103]),
    (''appointment_order'', utf8 [1055, 1088, 1080, 1082, 1072, 1079, 32, 1086, 32, 1076, 1086, 1087, 1091, 1089, 1082, 1077, 32,
      1082, 32, 1088, 1072, 1073, 1086, 1090, 1077]),
    (''individual_plan'', utf8 [1048, 1085, 1076, 1080, 1074, 1080, 1076, 1091, 1072, 1083, 1100, 1085, 1099, 1081, 32, 1087,
      1083, 1072, 1085, 32, 1080, 32, 1088, 1072, 1089, 1087, 1080, 1089, 1072, 1085, 1080, 1077]),
    (''program_project'', utf8 [1055, 1088, 1086, 1077, 1082, 1090, 32, 1054, 1054, 1055, 47, 1056, 1055, 1044]),
    (''expert'', utf8 [1053, 1072, 1079, 1085, 1072, 1095, 1077, 1085, 1085, 1099, 1081, 32, 1101, 1082, 1089, 1087,
      1077, 1088, 1090]),
    (''expert_conclusion'', utf8 [1055, 1086, 1076, 1087, 1080, 1089, 1072, 1085, 1085, 1086, 1077, 32, 1079, 1072, 1082, 1083,
      1102, 1095, 1077, 1085, 1080, 1077]),
    (''academic_council_protocol'', utf8 [1059, 1090, 1074, 1077, 1088, 1078, 1076, 1077, 1085, 1080, 1077, 32, 1086, 1073, 1088, 1072,
      1079, 1086, 1074, 1072, 1090, 1077, 1083, 1100, 1085, 1086, 1081, 32, 1086, 1088, 1075, 1072, 1085,
      1080, 1079, 1072, 1094, 1080, 1077, 1081]),
    (''internship_basis'', utf8 [1044, 1086, 1075, 1086, 1074, 1086, 1088, 32, 1086, 32, 1089, 1090, 1072, 1078, 1080, 1088, 1086,
      1074, 1082, 1077, 32, 1080, 1083, 1080, 32, 1090, 1088, 1091, 1076, 1086, 1074, 1086, 1081, 32, 1076,
      1086, 1075, 1086, 1074, 1086, 1088]),
    (''mentor'', utf8 [1053, 1072, 1089, 1090, 1072, 1074, 1085, 1080, 1082, 32, 1080, 1079, 32, 1089, 1087, 1088, 1072,
      1074, 1086, 1095, 1085, 1080, 1082, 1072]),
    (''mentor_order'', utf8 [1055, 1088, 1080, 1082, 1072, 1079, 32, 1086, 32, 1085, 1072, 1089, 1090, 1072, 1074, 1085, 1080,
      1082, 1077]),
    (''individual_program'', utf8 [1048, 1085, 1076, 1080, 1074, 1080, 1076, 1091, 1072, 1083, 1100, 1085, 1072, 1103, 32, 1087,
      1088, 1086, 1075, 1088, 1072, 1084, 1084, 1072, 32, 1080, 32, 1092, 1072, 1082, 1090, 1080, 1095, 1077,
      1089, 1082, 1080, 1077, 32, 1095, 1072, 1089, 1099]),
    (''certificates'', utf8 [1042, 1093, 1086, 1076, 1103, 1097, 1072, 1103, 32, 1080, 32, 1080, 1090, 1086, 1075, 1086, 1074,
      1072, 1103, 32, 1089, 1087, 1088, 1072, 1074, 1082, 1080]),
    (''labor_contract'', utf8 [1057, 1088, 1086, 1095, 1085, 1099, 1081, 32, 1090, 1088, 1091, 1076, 1086, 1074, 1086, 1081, 32,
      1076, 1086, 1075, 1086, 1074, 1086, 1088]),
    (''practice_agreement'', utf8 [1044, 1086, 1075, 1086, 1074, 1086, 1088, 32, 1086, 32, 1087, 1088, 1072, 1082, 1090, 1080, 1095,
      1077, 1089, 1082, 1086, 1081, 32, 1087, 1086, 1076, 1075, 1086, 1090, 1086, 1074, 1082, 1077, 32, 1089,
      32, 1085, 1086, 1084, 1077, 1088, 1086, 1084, 32, 1080, 32, 1076, 1072, 1090, 1086, 1081]),
    (''certificates.employment_practice'', utf8 [1053, 1072, 1087, 1088, 1072, 1074, 1083, 1077, 1085, 1080, 1077, 44, 32, 1087, 1088, 1086, 1075,
      1088, 1072, 1084, 1084, 1072, 32, 1080, 32, 1080, 1090, 1086, 1075, 1086, 1074, 1099, 1077, 32, 1076,
      1086, 1082, 1091, 1084, 1077, 1085, 1090, 1099]),
    (''top_agreement'', utf8 [1044, 1086, 1075, 1086, 1074, 1086, 1088, 32, 1089, 1086, 1092, 1080, 1085, 1072, 1085, 1089,
      1080, 1088, 1086, 1074, 1072, 1085, 1080, 1103]),
    (''transfer'', utf8 [1055, 1086, 1076, 1090, 1074, 1077, 1088, 1078, 1076, 1077, 1085, 1080, 1077, 32, 1087, 1077,
      1088, 1077, 1095, 1080, 1089, 1083, 1077, 1085, 1080, 1103, 32, 1089, 1088, 1077, 1076, 1089, 1090,
      1074]),
    (''spending'', utf8 [1060, 1072, 1082, 1090, 1080, 1095, 1077, 1089, 1082, 1080, 32, 1080, 1079, 1088, 1072, 1089,
      1093, 1086, 1076, 1086, 1074, 1072, 1085, 1085, 1099, 1077, 32, 1089, 1088, 1077, 1076, 1089, 1090,
      1074, 1072, 32, 1080, 32, 1072, 1082, 1090]),
    (''progress_70'', utf8 [1054, 1089, 1074, 1086, 1077, 1085, 1086, 32, 1085, 1077, 32, 1084, 1077, 1085, 1077, 1077, 32,
      55, 48, 37, 32, 1087, 1083, 1072, 1085, 1086, 1074, 1086, 1075, 1086, 32, 1089, 1086, 1092, 1080, 1085,
      1072, 1085, 1089, 1080, 1088, 1086, 1074, 1072, 1085, 1080, 1103]),
    (''progress_full'', utf8 [1057, 1086, 1092, 1080, 1085, 1072, 1085, 1089, 1080, 1088, 1086, 1074, 1072, 1085, 1080, 1077,
      32, 1086, 1089, 1074, 1086, 1077, 1085, 1086, 32, 1087, 1086, 1083, 1085, 1086, 1089, 1090, 1100, 1102]),
    (''ano_letter'', utf8 [1055, 1080, 1089, 1100, 1084, 1086, 45, 1089, 1086, 1075, 1083, 1072, 1089, 1086, 1074, 1072,
      1085, 1080, 1077, 32, 1040, 1053, 1054, 32, 1040, 1062]),
    (''school_agreement'', utf8 [1057, 1086, 1075, 1083, 1072, 1096, 1077, 1085, 1080, 1077, 32, 1089, 1086, 32, 1096, 1082, 1086,
      1083, 1086, 1081, 32, 1080, 1083, 1080, 32, 1056, 1054, 1048, 1042]),
    (''participant_groups'', utf8 [1056, 1077, 1077, 1089, 1090, 1088, 32, 1091, 1095, 1072, 1089, 1090, 1085, 1080, 1082, 1086,
      1074, 32, 1080, 32, 1075, 1088, 1091, 1087, 1087]),
    (''acceptance_act'', utf8 [1040, 1082, 1090, 32, 1087, 1088, 1080, 1105, 1084, 1082, 1080]),
    (''digital_trace'', utf8 [1062, 1080, 1092, 1088, 1086, 1074, 1086, 1081, 32, 1089, 1083, 1077, 1076, 32, 1060, 1043, 1048,
      1057, 32, 171, 1052, 1086, 1103, 32, 1096, 1082, 1086, 1083, 1072, 187]),
    (''digital_trace_manifest'', utf8 [1055, 1077, 1088, 1080, 1086, 1076, 44, 32, 1091, 1095, 1072, 1089, 1090, 1085, 1080, 1082, 1080,
      32, 1080, 32, 83, 72, 65, 45, 50, 53, 54, 32, 1074, 1099, 1075, 1088, 1091, 1079, 1082, 1080, 32, 1094,
      1080, 1092, 1088, 1086, 1074, 1086, 1075, 1086, 32, 1089, 1083, 1077, 1076, 1072]),
    (''acceptance_act.edu_content'', utf8 [1040, 1082, 1090, 32, 1087, 1088, 1080, 1105, 1084, 1082, 1080, 32, 1076, 1086, 1089, 1090, 1091,
      1087, 1072]),
    (''ministry_decision_card'', utf8 [1050, 1072, 1088, 1090, 1086, 1095, 1082, 1072, 32, 1056, 1077, 1096, 1077, 1085, 1080, 1103, 32,
      1080, 32, 1080, 1089, 1093, 1086, 1076, 1085, 1086, 1075, 1086, 32, 1087, 1086, 1088, 1091, 1095, 1077,
      1085, 1080, 1103, 32, 1079, 1072, 1087, 1086, 1083, 1085, 1077, 1085, 1072]),
    (''ministry_decision'', utf8 [1056, 1077, 1096, 1077, 1085, 1080, 1077, 32, 1052, 1080, 1085, 1094, 1080, 1092, 1088, 1099, 32,
      1080, 32, 1080, 1089, 1093, 1086, 1076, 1085, 1086, 1077, 32, 1087, 1086, 1088, 1091, 1095, 1077, 1085,
      1080, 1077]),
    (''expense_evidence'', utf8 [1040, 1082, 1090, 1099, 44, 32, 1087, 1083, 1072, 1090, 1077, 1078, 1080, 32, 1080, 32, 1087,
      1077, 1088, 1074, 1080, 1095, 1085, 1099, 1077, 32, 1076, 1086, 1082, 1091, 1084, 1077, 1085, 1090,
      1099]),
    (''decision_evidence_scope'', utf8 [1042, 32, 1056, 1077, 1096, 1077, 1085, 1080, 1080, 32, 1091, 1082, 1072, 1079, 1072, 1085, 32,
      1089, 1086, 1089, 1090, 1072, 1074, 32, 1087, 1086, 1076, 1090, 1074, 1077, 1088, 1078, 1076, 1072,
      1102, 1097, 1080, 1093, 32, 1076, 1086, 1082, 1091, 1084, 1077, 1085, 1090, 1086, 1074]),
    (''document_review'', utf8 [1044, 1086, 1082, 1091, 1084, 1077, 1085, 1090, 1099, 32, 1086, 1078, 1080, 1076, 1072, 1102,
      1090, 32, 1102, 1088, 1080, 1076, 1080, 1095, 1077, 1089, 1082, 1086, 1081, 32, 1087, 1088, 1086, 1074,
      1077, 1088, 1082, 1080]),
    (''decision_evidence'', utf8 [1044, 1086, 1082, 1091, 1084, 1077, 1085, 1090, 32, 1087, 1086, 32, 1056, 1077, 1096, 1077, 1085,
      1080, 1102, 58, 32])]"

definition label :: "string \<Rightarrow> string" where
  "label key = (case map_of labels key of None \<Rightarrow> [] | Some l \<Rightarrow> l)"

record check =
  ch_code :: string
  ch_label :: string
  ch_complete :: bool
  ch_blocking :: bool

definition check :: "string \<Rightarrow> bool \<Rightarrow> bool \<Rightarrow> check" where
  "check code met blocking = \<lparr>ch_code = code, ch_label = label code, ch_complete = met, ch_blocking = blocking\<rparr>"

definition check_of :: "string \<Rightarrow> string \<Rightarrow> bool \<Rightarrow> bool \<Rightarrow> check" where
  "check_of code key met blocking =
     \<lparr>ch_code = code, ch_label = label key, ch_complete = met, ch_blocking = blocking\<rparr>"

definition donation_agreement :: string where
  "donation_agreement = utf8 [1044, 1086, 1075, 1086, 1074, 1086, 1088, 32, 1087, 1086, 1078, 1077, 1088, 1090, 1074, 1086,
      1074, 1072, 1085, 1080, 1103]"

definition check_teachers :: "payload \<Rightarrow> document_set \<Rightarrow> bool \<Rightarrow> check list" where
  "check_teachers p s block =
     (if has p ''staff_member_id'' then [check ''staff_profile'' (field_text p ''staff_member_verified'' = ''true'') True] else []) @
     [check ''discipline'' (has p ''course_name'') True,
      check ''it_experience'' (read_number p ''it_experience_days'' \<ge> 365) True,
      check ''okz'' (has p ''okz_code'') True,
      check ''employment_contract'' (has_doc s p ''employment_contract'' [''employment_contract_reference'']) block] @
     (if field_text p ''employment_form'' = donation_agreement
      then [check ''donation_usage_report'' (has p ''donation_usage_report_reference'') False] else []) @
     [check ''appointment_order'' (has_doc s p ''appointment_order'' [''appointment_order_reference'']) False,
      check ''individual_plan'' (has_doc s p ''individual_plan'' [''individual_plan_reference''] \<and> has p ''class_schedule'') False]"

definition check_ood_rpd :: "payload \<Rightarrow> document_set \<Rightarrow> bool \<Rightarrow> check list" where
  "check_ood_rpd p s block =
     [check ''program_project'' (has_doc s p ''program_project'' [''project_document_reference'']) block] @
     (if field_text p ''activity_type'' = ''expertise'' then [check ''expert'' (has p ''expert_full_name'') True] else []) @
     [check ''expert_conclusion'' (has_doc s p ''expert_conclusion'' [''expert_conclusion_reference'']) False,
      check ''academic_council_protocol'' (has_doc s p ''academic_council_protocol'' [''approval_reference'']) False]"

definition check_internship :: "payload \<Rightarrow> document_set \<Rightarrow> bool \<Rightarrow> check list" where
  "check_internship p s block =
     [check ''internship_basis'' (has_doc s p ''internship_agreement'' [''internship_agreement_reference'']
        \<or> has_doc s p ''labor_contract'' [''labor_contract_number'']) block,
      check ''mentor'' (has p ''mentor_id'') True,
      check ''mentor_order'' (has_doc s p ''mentor_order'' [''mentor_order_reference'']) False,
      check ''individual_program'' (has_doc s p ''individual_program'' [''individual_program_reference'']) False,
      check ''certificates'' (has_doc s p ''incoming_certificate'' [''incoming_certificate_reference'']
        \<and> has_doc s p ''outgoing_certificate'' [''outgoing_certificate_reference'']) False]"

definition check_employment_practice :: "payload \<Rightarrow> document_set \<Rightarrow> bool \<Rightarrow> check list" where
  "check_employment_practice p s block =
     [check ''labor_contract'' (field_text p ''labor_contract_type'' = ''fixed_term'' \<and> has p ''labor_contract_number''
        \<and> has_doc s p ''labor_contract'' [''labor_contract_reference'']) block,
      check ''practice_agreement'' (has_doc s p ''practice_agreement'' [''practice_agreement_reference'']
        \<and> has p ''practice_agreement_number'' \<and> has p ''practice_agreement_date'') block,
      check ''mentor'' (has p ''mentor_id'') True,
      check ''mentor_order'' (has_doc s p ''mentor_order'' [''mentor_order_reference'']) False,
      check_of ''certificates'' ''certificates.employment_practice''
        (has_doc s p ''individual_program'' [''individual_program_reference'']
         \<and> has_doc s p ''outgoing_certificate'' [''outgoing_certificate_reference'']) False]"

definition seventy_percent :: rat where
  "seventy_percent = f64 (7 / 10)"

definition check_top_it :: "payload \<Rightarrow> document_set \<Rightarrow> bool \<Rightarrow> check list" where
  "check_top_it p s block =
     (let spent = read_number p ''actual_spent_amount_rub''; plan = read_number p ''planned_cofinancing_amount_rub''
      in [check ''top_agreement'' (has_doc s p ''top_agreement'' [''top_agreement_reference'']) block,
          check ''transfer'' (read_number p ''transferred_amount_rub'' > 0
            \<and> has_doc s p ''payment_order'' [''payment_order_reference'']) block,
          check ''spending'' (spent > 0 \<and> has_doc s p ''spending_act'' [''spending_act_reference'']) block] @
         (if plan > 0 then [check ''progress_70'' (fdiv spent plan \<ge> seventy_percent) True,
                            check ''progress_full'' (fdiv spent plan \<ge> 1) False] else []) @
         [check ''ano_letter'' (has_doc s p ''ano_letter'' [''ano_letter_reference'']) False])"

definition check_school :: "payload \<Rightarrow> document_set \<Rightarrow> bool \<Rightarrow> check list" where
  "check_school p s block =
     [check ''school_agreement'' (has_doc s p ''school_agreement'' [''school_agreement_reference'']) block,
      check ''participant_groups'' (has_doc s p ''participant_groups'' [''participant_groups_reference'']) block,
      check ''acceptance_act'' (has_doc s p ''acceptance_act'' [''acceptance_act_reference'']) False]"

definition check_edu_content :: "payload \<Rightarrow> document_set \<Rightarrow> bool \<Rightarrow> check list" where
  "check_edu_content p s block =
     [check ''school_agreement'' (has_doc s p ''school_agreement'' [''school_agreement_reference'']) block,
      check ''digital_trace'' (has_doc s p ''digital_trace'' [''digital_trace_reference'']) block,
      check ''digital_trace_manifest'' (has p ''digital_trace_period_start'' \<and> has p ''digital_trace_period_end''
        \<and> read_number p ''digital_trace_participants'' > 0 \<and> has p ''digital_trace_sha256'') block,
      check_of ''acceptance_act'' ''acceptance_act.edu_content''
        (has_doc s p ''acceptance_act'' [''acceptance_act_reference'']) False]"

definition authorities :: "(string \<times> string) list" where
  "authorities = [(''president_instruction'', ''president''), (''government_instruction'', ''prime_minister''),
     (''curator_instruction'', ''deputy_prime_minister''), (''security_council_decision'', ''security_council'')]"

text \<open>The zero value of a Go map stands for an unknown instruction.\<close>

definition authority_of :: "string \<Rightarrow> string" where
  "authority_of instruction = (case map_of authorities instruction of None \<Rightarrow> [] | Some a \<Rightarrow> a)"

definition decision_card_complete :: "payload \<Rightarrow> bool" where
  "decision_card_complete p =
     (list_all (has p) [''instruction_type'', ''instruction_authority'', ''instruction_reference'', ''decision_number'',
        ''decision_date'', ''implementation_start'', ''implementation_deadline'', ''implementation_conditions'',
        ''activity_description'']
      \<and> authority_of (field_text p ''instruction_type'') = field_text p ''instruction_authority''
      \<and> (case (parse_date (field_text p ''decision_date''), parse_date (field_text p ''implementation_start''),
               parse_date (field_text p ''implementation_deadline'')) of
           (Some decided, Some start, Some deadline) \<Rightarrow> \<not> date_less deadline start \<and> \<not> date_less deadline decided
         | _ \<Rightarrow> False))"

definition evidence_check :: "string list \<Rightarrow> nat \<Rightarrow> string \<Rightarrow> check" where
  "evidence_check provided i item = \<lparr>ch_code = ''decision_evidence_'' @ show_nat (i + 1),
     ch_label = label ''decision_evidence'' @ item, ch_complete = (to_lower item \<in> set provided), ch_blocking = False\<rparr>"

definition check_minc_decision :: "payload \<Rightarrow> document_set \<Rightarrow> bool \<Rightarrow> check list" where
  "check_minc_decision p s block =
     (let required = evidence_list (map_of p ''decision_required_documents'');
          provided = map to_lower (evidence_list (map_of p ''decision_provided_documents''))
      in [check ''ministry_decision_card'' (decision_card_complete p) True,
          check ''ministry_decision'' (has_doc s p ''ministry_decision'' [''decision_reference'']) block,
          check ''expense_evidence'' (has_doc s p ''expense_evidence'' [''expense_evidence_reference'']) False,
          check ''decision_evidence_scope'' (required \<noteq> []) block] @
         map (\<lambda>(i, item). evidence_check provided i item) (enumerate 0 required))"

definition category_checks :: "string \<Rightarrow> payload \<Rightarrow> document_set \<Rightarrow> bool \<Rightarrow> check list" where
  "category_checks category p s block =
     (if category = ''teachers'' then check_teachers p s block
      else if category = ''ood_rpd'' then check_ood_rpd p s block
      else if category = ''internship'' then check_internship p s block
      else if category = ''employment_practice'' then check_employment_practice p s block
      else if category = ''top_it'' then check_top_it p s block
      else if category = ''it_clubs'' \<or> category = ''teacher_training'' then check_school p s block
      else if category = ''edu_content'' then check_edu_content p s block
      else if category = ''minc_decision'' then check_minc_decision p s block
      else [])"

section \<open>The result\<close>

record readiness =
  rd_state :: string
  rd_ready :: bool
  rd_eligible :: bool
  rd_checks :: "check list"
  rd_blocking :: "string list"
  rd_warnings :: "string list"

definition all_green :: readiness where
  "all_green = \<lparr>rd_state = ''green'', rd_ready = True, rd_eligible = True, rd_checks = [], rd_blocking = [], rd_warnings = []\<rparr>"

definition require_check :: "check \<Rightarrow> readiness \<Rightarrow> readiness" where
  "require_check c r =
     (let r = r\<lparr>rd_checks := rd_checks r @ [c]\<rparr> in
      if ch_complete c then r
      else if ch_blocking c then r\<lparr>rd_blocking := rd_blocking r @ [ch_label c]\<rparr>
      else r\<lparr>rd_warnings := rd_warnings r @ [ch_label c]\<rparr>)"

definition grade :: "readiness \<Rightarrow> readiness" where
  "grade r =
     (if rd_blocking r \<noteq> [] then r\<lparr>rd_state := ''red'', rd_ready := False, rd_eligible := False\<rparr>
      else if rd_warnings r \<noteq> [] then r\<lparr>rd_state := ''yellow'', rd_ready := False, rd_eligible := False\<rparr>
      else r)"

definition entry_checks :: "string \<Rightarrow> string \<Rightarrow> payload \<Rightarrow> string list \<Rightarrow> check list" where
  "entry_checks category period p documents =
     (let s = document_set_of documents
      in category_checks category p s (period = ''fact'') @
         (if ds_pending s then [check ''document_review'' False False] else []))"

definition evaluate :: "string \<Rightarrow> string \<Rightarrow> payload \<Rightarrow> string list \<Rightarrow> readiness" where
  "evaluate category period p documents =
     grade (fold require_check (entry_checks category period p documents) all_green)"

end
