(* ===== verification/ReadinessLaws.thy ===== *)
theory ReadinessLaws
  imports Readiness
begin

text \<open>
  Laws of the readiness of entries: what the verdict says of the checks, that an approved document
  never makes an entry worse, and that a rejected one is not replaced by a reference in the payload.
\<close>

section \<open>The verdict\<close>

definition failed :: "bool \<Rightarrow> check list \<Rightarrow> check list" where
  "failed blocking cs = filter (\<lambda>c. \<not> ch_complete c \<and> ch_blocking c = blocking) cs"

lemma fold_require:
  "rd_checks (fold require_check cs r) = rd_checks r @ cs"
  "rd_blocking (fold require_check cs r) = rd_blocking r @ map ch_label (failed True cs)"
  "rd_warnings (fold require_check cs r) = rd_warnings r @ map ch_label (failed False cs)"
  "rd_state (fold require_check cs r) = rd_state r" "rd_ready (fold require_check cs r) = rd_ready r"
  "rd_eligible (fold require_check cs r) = rd_eligible r"
  by (induction cs arbitrary: r) (simp_all add: require_check_def failed_def Let_def)

lemma evaluate_fields:
  fixes category period p documents
  defines "cs \<equiv> entry_checks category period p documents"
  shows "rd_checks (evaluate category period p documents) = cs"
    "rd_blocking (evaluate category period p documents) = map ch_label (failed True cs)"
    "rd_warnings (evaluate category period p documents) = map ch_label (failed False cs)"
    "rd_state (evaluate category period p documents) =
      (if failed True cs \<noteq> [] then ''red'' else if failed False cs \<noteq> [] then ''yellow'' else ''green'')"
    "rd_ready (evaluate category period p documents) \<longleftrightarrow> list_all ch_complete cs"
    "rd_eligible (evaluate category period p documents) \<longleftrightarrow> list_all ch_complete cs"
  unfolding cs_def evaluate_def
  by (auto simp: grade_def fold_require all_green_def failed_def filter_empty_conv list_all_iff)

text \<open>
  The verdict is red exactly when some blocking check of the category fails, yellow when only
  checks of the other kind do, and green, which alone makes an entry ready and eligible, when all hold.
\<close>

lemma readiness_verdict:
  "rd_state (evaluate category period p documents) = ''red'' \<longleftrightarrow>
    (\<exists>c \<in> set (entry_checks category period p documents). ch_blocking c \<and> \<not> ch_complete c)"
  "rd_state (evaluate category period p documents) = ''green'' \<longleftrightarrow>
    (\<forall>c \<in> set (entry_checks category period p documents). ch_complete c)"
  "rd_ready (evaluate category period p documents) \<longleftrightarrow> rd_state (evaluate category period p documents) = ''green''"
  "rd_eligible (evaluate category period p documents) \<longleftrightarrow> rd_state (evaluate category period p documents) = ''green''"
  unfolding evaluate_fields by (auto simp: failed_def filter_empty_conv list_all_iff)

section \<open>Approved documents\<close>

definition more_documents :: "document_set \<Rightarrow> document_set \<Rightarrow> bool" where
  "more_documents s t = (set (ds_docs s) \<subseteq> set (ds_docs t) \<and> set (ds_rejected t) \<subseteq> set (ds_rejected s)
     \<and> (ds_pending t \<longrightarrow> ds_pending s))"

lemma has_doc_more: "more_documents s t \<Longrightarrow> has_doc s p code refs \<Longrightarrow> has_doc t p code refs"
  by (auto simp: has_doc_def more_documents_def)

text \<open>The same checks, of which at least as many hold.\<close>

definition improves :: "check \<Rightarrow> check \<Rightarrow> bool" where
  "improves c d = (ch_code d = ch_code c \<and> ch_label d = ch_label c \<and> ch_blocking d = ch_blocking c \<and> (ch_complete c \<longrightarrow> ch_complete d))"

lemma improves_refl [simp]: "improves c c"
  by (simp add: improves_def)

lemma improves_check [simp]:
  "improves (check code a b) (check code a' b) \<longleftrightarrow> (a \<longrightarrow> a')"
  "improves (check_of code key a b) (check_of code key a' b) \<longleftrightarrow> (a \<longrightarrow> a')"
  by (simp_all add: improves_def check_def check_of_def)

lemma improves_same: "list_all2 improves cs cs"
  by (simp add: list_all2_same)

lemma category_checks_improve:
  assumes "more_documents s t"
  shows "list_all2 improves (category_checks category p s block) (category_checks category p t block)"
  unfolding category_checks_def check_teachers_def check_ood_rpd_def check_internship_def check_employment_practice_def
    check_top_it_def check_school_def check_edu_content_def check_minc_decision_def Let_def
  using has_doc_more [OF assms]
  by (simp add: list_all2_appendI improves_same list_all2_map1 list_all2_map2 list_all2_same)

lemma split_token_plain: "CHR '':'' \<notin> set code \<Longrightarrow> split_token (code @ CHR '':'' # status) = (code, Some status)"
  by (auto simp: split_token_def takeWhile_append dropWhile_append)

lemma document_set_members:
  "code \<in> set (ds_docs (document_set_of vs)) \<longleftrightarrow> (\<exists>v \<in> set vs. fst (split_token v) = code \<and> snd (split_token v) \<noteq> Some ''rejected'')"
  "code \<in> set (ds_rejected (document_set_of vs)) \<longleftrightarrow> (\<exists>v \<in> set vs. split_token v = (code, Some ''rejected''))"
proof -
  have "code \<in> set (ds_docs (fold add_document vs s)) \<longleftrightarrow> code \<in> set (ds_docs s)
      \<or> (\<exists>v \<in> set vs. fst (split_token v) = code \<and> snd (split_token v) \<noteq> Some ''rejected'')"
    "code \<in> set (ds_rejected (fold add_document vs s)) \<longleftrightarrow> code \<in> set (ds_rejected s)
      \<or> (\<exists>v \<in> set vs. split_token v = (code, Some ''rejected''))" for s
    by (induction vs arbitrary: s) (auto simp: add_document_def split: prod.splits)
  then show "code \<in> set (ds_docs (document_set_of vs)) \<longleftrightarrow> (\<exists>v \<in> set vs. fst (split_token v) = code \<and> snd (split_token v) \<noteq> Some ''rejected'')"
    "code \<in> set (ds_rejected (document_set_of vs)) \<longleftrightarrow> (\<exists>v \<in> set vs. split_token v = (code, Some ''rejected''))"
    by (simp_all add: document_set_of_def)
qed

lemma document_set_pending:
  "ds_pending (document_set_of vs) \<longleftrightarrow> (\<exists>v \<in> set vs. snd (split_token v) = Some ''pending'')"
proof -
  have "ds_pending (fold add_document vs s) \<longleftrightarrow> ds_pending s \<or> (\<exists>v \<in> set vs. snd (split_token v) = Some ''pending'')" for s
    by (induction vs arbitrary: s) (auto simp: add_document_def split: prod.splits)
  then show ?thesis by (simp add: document_set_of_def)
qed

text \<open>What stood in the place of an approved document: nothing, or the same document in another status.\<close>

definition earlier_status :: "string \<Rightarrow> string list \<Rightarrow> bool" where
  "earlier_status code before = (before = [] \<or> before = [code @ '':pending''] \<or> before = [code @ '':rejected''])"

lemma approval_more:
  assumes "CHR '':'' \<notin> set code" "earlier_status code before"
  shows "more_documents (document_set_of (xs @ before @ ys)) (document_set_of (xs @ (code @ '':approved'') # ys))"
  using assms split_token_plain [OF assms(1)]
  by (auto simp: more_documents_def subset_iff document_set_members document_set_pending earlier_status_def)

lemma improves_failed:
  assumes "list_all2 improves cs ds"
  shows "set (map ch_label (failed b ds)) \<subseteq> set (map ch_label (failed b cs))" "list_all ch_complete cs \<Longrightarrow> list_all ch_complete ds"
proof -
  show "set (map ch_label (failed b ds)) \<subseteq> set (map ch_label (failed b cs))"
    using assms by (induction rule: list_all2_induct) (auto simp: failed_def improves_def)
  show "list_all ch_complete cs \<Longrightarrow> list_all ch_complete ds"
    using assms by (induction rule: list_all2_induct) (auto simp: improves_def)
qed

text \<open>
  C28: an approval never makes an entry worse, whatever its category, its data and the other documents:
  when an approved document is attached, or a pending or rejected one becomes approved, no reason,
  blocking or warning, is added, and an entry that is ready stays ready.
\<close>

theorem approval_monotone:
  assumes "CHR '':'' \<notin> set code" "earlier_status code before"
    and "was = evaluate category period p (xs @ before @ ys)"
    and "becomes = evaluate category period p (xs @ (code @ '':approved'') # ys)"
  shows "set (rd_blocking becomes) \<subseteq> set (rd_blocking was) \<and> set (rd_warnings becomes) \<subseteq> set (rd_warnings was)
    \<and> (rd_ready was \<longrightarrow> rd_ready becomes)"
proof -
  let ?old = "xs @ before @ ys" and ?new = "xs @ (code @ '':approved'') # ys"
  note more = approval_more [OF assms(1,2), of xs ys]
  have improved: "list_all2 improves (category_checks category p (document_set_of ?old) b)
      (category_checks category p (document_set_of ?new) b)" for b by (rule category_checks_improve [OF more])
  have pending: "ds_pending (document_set_of ?new) \<longrightarrow> ds_pending (document_set_of ?old)"
    using more by (simp add: more_documents_def)
  let ?checks = "\<lambda>docs. category_checks category p (document_set_of docs) (period = ''fact'')"
  have same: "set (map ch_label (failed b (?checks ?new))) \<subseteq> set (map ch_label (failed b (?checks ?old)))"
    "list_all ch_complete (?checks ?old) \<Longrightarrow> list_all ch_complete (?checks ?new)" for b
    using improves_failed [OF improved] by blast+
  have review: "failed b (xs @ ys) = failed b xs @ failed b ys" for b xs ys by (simp add: failed_def)
  show ?thesis unfolding assms(3,4) evaluate_fields entry_checks_def Let_def review
    using same pending by (auto simp: failed_def check_def)
qed

theorem approval_monotone_witness:
  "set (rd_blocking (evaluate ''it_clubs'' ''fact'' [] [''school_agreement:approved'']))
      \<subseteq> set (rd_blocking (evaluate ''it_clubs'' ''fact'' [] []))
    \<and> set (rd_warnings (evaluate ''it_clubs'' ''fact'' [] [''school_agreement:approved'']))
      \<subseteq> set (rd_warnings (evaluate ''it_clubs'' ''fact'' [] [''school_agreement:pending'']))"
  using approval_monotone [of "''school_agreement''" "[]" _ "''it_clubs''" "''fact''" "[]" "[]" "[]", OF _ _ refl refl]
    approval_monotone [of "''school_agreement''" "[''school_agreement:pending'']" _ "''it_clubs''" "''fact''" "[]" "[]" "[]",
      OF _ _ refl refl] by (simp add: earlier_status_def)

section \<open>Rejected documents\<close>

text \<open>
  The documents each category needs. Each stands alone but for the basis of an internship, an
  agreement or an employment contract: either will do.
\<close>

definition sole_documents :: "(string \<times> string list) list" where
  "sole_documents =
   [(''teachers'', [''employment_contract'', ''appointment_order'', ''individual_plan'']),
    (''ood_rpd'', [''program_project'', ''expert_conclusion'', ''academic_council_protocol'']),
    (''internship'', [''mentor_order'', ''individual_program'', ''incoming_certificate'', ''outgoing_certificate'']),
    (''employment_practice'', [''labor_contract'', ''practice_agreement'', ''mentor_order'', ''individual_program'',
       ''outgoing_certificate'']),
    (''top_it'', [''top_agreement'', ''payment_order'', ''spending_act'', ''ano_letter'']),
    (''it_clubs'', [''school_agreement'', ''participant_groups'', ''acceptance_act'']),
    (''teacher_training'', [''school_agreement'', ''participant_groups'', ''acceptance_act'']),
    (''edu_content'', [''school_agreement'', ''digital_trace'', ''acceptance_act'']),
    (''minc_decision'', [''ministry_decision'', ''expense_evidence''])]"

definition needed_documents :: "string \<Rightarrow> string list list" where
  "needed_documents category =
     map (\<lambda>code. [code]) (case map_of sole_documents category of None \<Rightarrow> [] | Some codes \<Rightarrow> codes)
     @ (if category = ''internship'' then [[''internship_agreement'', ''labor_contract'']] else [])"

definition lacking :: "document_set \<Rightarrow> payload \<Rightarrow> string \<Rightarrow> bool" where
  "lacking s p code = (\<forall>refs. \<not> has_doc s p code refs)"

definition incomplete :: "check list \<Rightarrow> bool" where
  "incomplete cs = list_ex (\<lambda>c. \<not> ch_complete c) cs"

lemma incomplete_simps [simp]:
  "incomplete (xs @ ys) \<longleftrightarrow> incomplete xs \<or> incomplete ys" "incomplete (c # cs) \<longleftrightarrow> \<not> ch_complete c \<or> incomplete cs"
  "ch_complete (check code a b) \<longleftrightarrow> a" "ch_complete (check_of code key a b) \<longleftrightarrow> a"
  by (simp_all add: incomplete_def check_def check_of_def)

lemma category_documents:
  assumes "lacking s p code"
  shows "code \<in> {''employment_contract'', ''appointment_order'', ''individual_plan''} \<Longrightarrow> incomplete (check_teachers p s b)"
    "code \<in> {''program_project'', ''expert_conclusion'', ''academic_council_protocol''} \<Longrightarrow> incomplete (check_ood_rpd p s b)"
    "code \<in> {''mentor_order'', ''individual_program'', ''incoming_certificate'', ''outgoing_certificate''} \<Longrightarrow> incomplete (check_internship p s b)"
    "code \<in> {''labor_contract'', ''practice_agreement'', ''mentor_order'', ''individual_program'', ''outgoing_certificate''}
      \<Longrightarrow> incomplete (check_employment_practice p s b)"
    "code \<in> {''top_agreement'', ''payment_order'', ''spending_act'', ''ano_letter''} \<Longrightarrow> incomplete (check_top_it p s b)"
    "code \<in> {''school_agreement'', ''participant_groups'', ''acceptance_act''} \<Longrightarrow> incomplete (check_school p s b)"
    "code \<in> {''school_agreement'', ''digital_trace'', ''acceptance_act''} \<Longrightarrow> incomplete (check_edu_content p s b)"
    "code \<in> {''ministry_decision'', ''expense_evidence''} \<Longrightarrow> incomplete (check_minc_decision p s b)"
  using assms unfolding lacking_def
  by (auto simp: check_teachers_def check_ood_rpd_def check_internship_def check_employment_practice_def check_top_it_def
      check_school_def check_edu_content_def check_minc_decision_def Let_def)

lemma sole_document_incomplete:
  assumes "lacking s p code" "map_of sole_documents category = Some codes" "code \<in> set codes"
  shows "incomplete (category_checks category p s b)"
  using category_documents [OF assms(1)] assms(2,3) unfolding sole_documents_def category_checks_def
  by (simp split: if_splits) auto

lemma needed_document_incomplete:
  assumes "codes \<in> set (needed_documents category)" "\<forall>code \<in> set codes. lacking s p code"
  shows "incomplete (category_checks category p s b)"
proof (cases "codes = [''internship_agreement'', ''labor_contract'']")
  case True
  then have "category = ''internship''"
    using assms(1) by (auto simp: needed_documents_def split: if_splits option.splits)
  then show ?thesis using assms(2) True
    by (simp add: category_checks_def check_internship_def lacking_def)
next
  case False
  then obtain code where code: "codes = [code]"
    "code \<in> set (case map_of sole_documents category of None \<Rightarrow> [] | Some all \<Rightarrow> all)"
    using assms(1) by (auto simp: needed_documents_def split: if_splits)
  then show ?thesis using sole_document_incomplete assms(2)
    by (cases "map_of sole_documents category") auto
qed

text \<open>
  C29: when a document the category needs was rejected, and no other upload of it is in force, the
  entry is not ready, whatever references the payload gives instead. Where either of two documents
  will do (the basis of an internship), both must have been rejected.
\<close>

theorem rejected_document_blocks:
  assumes "codes \<in> set (needed_documents category)"
    and "\<forall>code \<in> set codes. (\<exists>v \<in> set documents. split_token v = (code, Some ''rejected''))
      \<and> (\<forall>v \<in> set documents. fst (split_token v) = code \<longrightarrow> snd (split_token v) = Some ''rejected'')"
  shows "\<not> rd_ready (evaluate category period p documents)"
proof -
  have "\<forall>code \<in> set codes. lacking (document_set_of documents) p code"
    using assms(2) unfolding lacking_def has_doc_def document_set_members by blast
  from needed_document_incomplete [OF assms(1) this]
  have "incomplete (entry_checks category period p documents)" unfolding entry_checks_def Let_def by simp
  then show ?thesis unfolding evaluate_fields incomplete_def by (auto simp: list_ex_iff list_all_iff)
qed

definition school_references :: payload where
  "school_references = map (\<lambda>k. (k, JString ''No. 1'')) [''school_agreement_reference'', ''participant_groups_reference'',
     ''acceptance_act_reference'']"

theorem rejected_document_blocks_witness:
  "rd_ready (evaluate ''it_clubs'' ''fact'' school_references [])
    \<and> \<not> rd_ready (evaluate ''it_clubs'' ''fact'' school_references [''school_agreement:rejected''])"
proof
  show "rd_ready (evaluate ''it_clubs'' ''fact'' school_references [])" by code_simp
  have codes: "[''school_agreement''] \<in> set (needed_documents ''it_clubs'')"
    and token: "split_token ''school_agreement:rejected'' = (''school_agreement'', Some ''rejected'')"
    by code_simp+
  show "\<not> rd_ready (evaluate ''it_clubs'' ''fact'' school_references [''school_agreement:rejected''])"
    by (rule rejected_document_blocks [OF codes])
      (simp add: token)
qed

end
