(* ===== verification/Risk.thy ===== *)
theory Risk
  imports Readiness
begin

text \<open>
  \<open>backend/internal/risk/risk.go\<close>: the rules of risk over the independent axes of an entry. A rule
  gives its reasons when it fires and nothing otherwise; the level is the heaviest of those fired.
\<close>

section \<open>Rules\<close>

datatype level = Ready | Medium | High

definition weight :: "level \<Rightarrow> nat" where
  "weight l = (case l of Ready \<Rightarrow> 0 | Medium \<Rightarrow> 1 | High \<Rightarrow> 2)"

definition level_state :: "level \<Rightarrow> string" where
  "level_state l = (case l of Ready \<Rightarrow> ''green'' | Medium \<Rightarrow> ''yellow'' | High \<Rightarrow> ''red'')"

record risk_inputs =
  ri_state :: string
  ri_blocking :: "string list"
  ri_warnings :: "string list"
  ri_eligible :: bool
  ri_approved :: bool
  ri_disputed :: bool
  ri_reason :: string

record rule =
  ru_id :: string
  ru_level :: level
  ru_title :: string
  ru_messages :: "risk_inputs \<Rightarrow> string list option"

definition unknown_text :: string where
  "unknown_text =
    utf8 [1057, 1086, 1089, 1090, 1086, 1103, 1085, 1080, 1077, 32, 1075, 1086, 1090, 1086, 1074, 1085,
    1086, 1089, 1090, 1080, 32, 1085, 1077, 32, 1086, 1087, 1088, 1077, 1076, 1077, 1083, 1077, 1085,
    1086, 58, 32, 1073, 1077, 1079, 32, 1076, 1086, 1082, 1072, 1079, 1072, 1090, 1077, 1083, 1100,
    1089, 1090, 1074, 1072, 32, 1079, 1072, 1087, 1080, 1089, 1100, 32, 1089, 1095, 1080, 1090, 1072,
    1077, 1090, 1089, 1103, 32, 1088, 1080, 1089, 1082, 1086, 1074, 1072, 1085, 1085, 1086, 1081]"

definition dispute_prefix :: string where
  "dispute_prefix = utf8 [1070, 1088, 1080, 1076, 1080, 1095, 1077, 1089, 1082, 1086, 1077, 32, 1089, 1086, 1084, 1085,
    1077, 1085, 1080, 1077, 58, 32]"

definition dispute_text :: string where
  "dispute_text =
    utf8 [1047, 1072, 1087, 1080, 1089, 1100, 32, 1087, 1086, 1089, 1090, 1072, 1074, 1083, 1077, 1085,
    1072, 32, 1087, 1086, 1076, 32, 1102, 1088, 1080, 1076, 1080, 1095, 1077, 1089, 1082, 1086, 1077,
    32, 1089, 1086, 1084, 1085, 1077, 1085, 1080, 1077]"

definition not_eligible_text :: string where
  "not_eligible_text =
    utf8 [1052, 1077, 1088, 1086, 1087, 1088, 1080, 1103, 1090, 1080, 1077, 32, 1085, 1077, 32, 1087,
    1088, 1086, 1096, 1083, 1086, 32, 1085, 1086, 1088, 1084, 1072, 1090, 1080, 1074, 1085, 1086, 1077,
    32, 1089, 1086, 1075, 1083, 1072, 1089, 1086, 1074, 1072, 1085, 1080, 1077]"

definition not_approved_text :: string where
  "not_approved_text =
    utf8 [1054, 1090, 1095, 1105, 1090, 1085, 1099, 1081, 32, 1082, 1086, 1084, 1087, 1083, 1077, 1082,
    1090, 32, 1085, 1077, 32, 1091, 1090, 1074, 1077, 1088, 1078, 1076, 1105, 1085]"

definition rules :: "rule list" where
  "rules =
   [\<lparr>ru_id = ''readiness.blocking'', ru_level = High,
      ru_title = utf8 [1050, 1086, 1084, 1087, 1083, 1077, 1082, 1090, 32, 1085, 1077, 32, 1075, 1086, 1090, 1086,
    1074, 58, 32, 1077, 1089, 1090, 1100, 32, 1073, 1083, 1086, 1082, 1080, 1088, 1091, 1102, 1097,
    1080, 1077, 32, 1079, 1072, 1084, 1077, 1095, 1072, 1085, 1080, 1103],
      ru_messages = (\<lambda>i. if ri_state i = ''red'' then Some (ri_blocking i) else None)\<rparr>,
    \<lparr>ru_id = ''readiness.unknown'', ru_level = High,
      ru_title = utf8 [1057, 1086, 1089, 1090, 1086, 1103, 1085, 1080, 1077, 32, 1075, 1086, 1090, 1086, 1074, 1085,
    1086, 1089, 1090, 1080, 32, 1085, 1077, 1080, 1079, 1074, 1077, 1089, 1090, 1085, 1086],
      ru_messages = (\<lambda>i. if ri_state i = ''green'' \<or> ri_state i = ''yellow'' \<or> ri_state i = ''red'' then None
        else Some [unknown_text])\<rparr>,
    \<lparr>ru_id = ''legal_dispute.active'', ru_level = High,
      ru_title = utf8 [1047, 1072, 1087, 1080, 1089, 1100, 32, 1087, 1086, 1089, 1090, 1072, 1074, 1083, 1077, 1085,
    1072, 32, 1102, 1088, 1080, 1089, 1090, 1086, 1084, 32, 1087, 1086, 1076, 32, 1089, 1086, 1084,
    1085, 1077, 1085, 1080, 1077],
      ru_messages = (\<lambda>i. if \<not> ri_disputed i then None
        else if ri_reason i \<noteq> [] then Some [dispute_prefix @ ri_reason i] else Some [dispute_text])\<rparr>,
    \<lparr>ru_id = ''readiness.warnings'', ru_level = Medium,
      ru_title = utf8 [1050, 1086, 1084, 1087, 1083, 1077, 1082, 1090, 32, 1075, 1086, 1090, 1086, 1074, 32, 1089,
    32, 1087, 1088, 1077, 1076, 1091, 1087, 1088, 1077, 1078, 1076, 1077, 1085, 1080, 1103, 1084, 1080],
      ru_messages = (\<lambda>i. if ri_state i = ''yellow'' then Some (ri_warnings i) else None)\<rparr>,
    \<lparr>ru_id = ''eligibility.not_passed'', ru_level = Medium,
      ru_title = utf8 [1052, 1077, 1088, 1086, 1087, 1088, 1080, 1103, 1090, 1080, 1077, 32, 1085, 1077, 32, 1076,
    1086, 1087, 1091, 1097, 1077, 1085, 1086, 32, 1082, 32, 1079, 1072, 1095, 1105, 1090, 1091],
      ru_messages = (\<lambda>i. if \<not> ri_eligible i then Some [not_eligible_text] else None)\<rparr>,
    \<lparr>ru_id = ''approval.not_approved'', ru_level = Medium,
      ru_title = utf8 [1054, 1090, 1095, 1105, 1090, 1085, 1099, 1081, 32, 1082, 1086, 1084, 1087, 1083, 1077, 1082,
    1090, 32, 1085, 1077, 32, 1091, 1090, 1074, 1077, 1088, 1078, 1076, 1105, 1085],
      ru_messages = (\<lambda>i. if ri_eligible i \<and> \<not> ri_approved i then Some [not_approved_text] else None)\<rparr>]"

section \<open>Assessment\<close>

record finding =
  fi_rule :: string
  fi_level :: level
  fi_title :: string
  fi_messages :: "string list"

record risk_assessment =
  ra_level :: level
  ra_findings :: "finding list"

definition apply_rule :: "risk_inputs \<Rightarrow> rule \<Rightarrow> risk_assessment \<Rightarrow> risk_assessment" where
  "apply_rule i r a = (case ru_messages r i of
     None \<Rightarrow> a
   | Some messages \<Rightarrow>
       \<lparr>ra_level = (if weight (ru_level r) > weight (ra_level a) then ru_level r else ra_level a),
        ra_findings = ra_findings a @ [\<lparr>fi_rule = ru_id r, fi_level = ru_level r, fi_title = ru_title r,
          fi_messages = (if messages = [] then [ru_title r] else messages)\<rparr>]\<rparr>)"

definition evaluate_risk :: "risk_inputs \<Rightarrow> risk_assessment" where
  "evaluate_risk i = fold (apply_rule i) rules \<lparr>ra_level = Ready, ra_findings = []\<rparr>"

definition risk_reasons :: "risk_assessment \<Rightarrow> string list" where
  "risk_reasons a = concat (map fi_messages (ra_findings a))"

section \<open>Laws\<close>

definition fires :: "risk_inputs \<Rightarrow> rule \<Rightarrow> bool" where
  "fires i r = (ru_messages r i \<noteq> None)"

definition heaviest :: "rule list \<Rightarrow> level" where
  "heaviest rs = (if list_ex (\<lambda>r. ru_level r = High) rs then High
     else if list_ex (\<lambda>r. ru_level r = Medium) rs then Medium else Ready)"

lemma apply_rule_fields:
  "ra_level (apply_rule i r a) = (if fires i r \<and> weight (ru_level r) > weight (ra_level a) then ru_level r else ra_level a)"
  "map fi_rule (ra_findings (apply_rule i r a)) = map fi_rule (ra_findings a) @ (if fires i r then [ru_id r] else [])"
  by (auto simp: apply_rule_def fires_def split: option.splits)

text \<open>Whatever the rules, the level is the heaviest of those that fire and each of them is a finding.\<close>

lemma fold_rules_level:
  "ra_level (fold (apply_rule i) rs a) = (if ra_level a = High \<or> heaviest (filter (fires i) rs) = High then High
      else if ra_level a = Medium \<or> heaviest (filter (fires i) rs) = Medium then Medium else Ready)"
proof (induction rs arbitrary: a)
  case Nil
  then show ?case by (cases "ra_level a") (simp_all add: heaviest_def)
next
  case (Cons r rs)
  show ?case unfolding fold_simps Cons.IH apply_rule_fields
    by (cases "ru_level r"; cases "ra_level a"; cases "fires i r") (simp_all add: heaviest_def weight_def)
qed

lemma fold_rules_findings:
  "map fi_rule (ra_findings (fold (apply_rule i) rs a)) = map fi_rule (ra_findings a) @ map ru_id (filter (fires i) rs)"
  by (induction rs arbitrary: a) (simp_all add: apply_rule_fields)

lemma evaluate_risk_level:
  "ra_level (evaluate_risk i) =
    (if ri_disputed i \<or> ri_state i \<noteq> ''green'' \<and> ri_state i \<noteq> ''yellow'' then High
     else if ri_state i = ''yellow'' \<or> \<not> ri_eligible i \<or> \<not> ri_approved i then Medium else Ready)"
proof -
  have "heaviest (filter (fires i) rules) = (if ri_disputed i \<or> ri_state i \<noteq> ''green'' \<and> ri_state i \<noteq> ''yellow'' then High
     else if ri_state i = ''yellow'' \<or> \<not> ri_eligible i \<or> \<not> ri_approved i then Medium else Ready)"
    by (auto simp: rules_def fires_def heaviest_def)
  then show ?thesis unfolding evaluate_risk_def fold_rules_level by simp
qed

end
