(* ===== verification/Projection.thy ===== *)
theory Projection
  imports Risk Money "HOL-Library.Product_Lexorder"
begin

text \<open>
  \<open>backend/internal/modules/reporting/repository/activity_projection.go\<close> and
  \<open>backend/internal/platform/activityprojection/projection.go\<close>: the projection of stored entries on
  contributions with their independent axes, and the aggregation of contributions by the chosen
  dimensions. A stored entry is the row of the query, with the columns of its joins and its decoded
  payload. Units are binary64 values; sums of units stay in the range of that type.
\<close>

section \<open>Contributions\<close>

record axis =
  ax_state :: string
  ax_passed :: bool
  ax_reasons :: "string list"

record contribution =
  ct_activity :: string
  ct_tenant :: string
  ct_partner :: string
  ct_agreement :: string
  ct_category :: string
  ct_audience :: string
  ct_year :: int
  ct_period :: string
  ct_units :: rat
  ct_plan :: amount
  ct_fact :: amount
  ct_calculated :: amount
  ct_confirmed :: amount
  ct_counted :: amount
  ct_readiness :: axis
  ct_eligibility :: axis
  ct_approval :: axis
  ct_dispute :: axis
  ct_risk :: axis
  ct_evaluated :: instant

record activity_row =
  ar_id :: string
  ar_tenant :: string
  ar_partner :: string
  ar_agreement :: string
  ar_category :: string
  ar_audience :: string
  ar_year :: int
  ar_period :: string
  ar_amount :: amount
  ar_formula :: amount
  ar_payload :: payload
  ar_eligible :: bool
  ar_status :: string
  ar_documents :: "string list"
  ar_dispute :: string

definition legal_dispute_axis :: "string \<Rightarrow> axis" where
  "legal_dispute_axis reason =
     (if reason = [] then \<lparr>ax_state = ''clear'', ax_passed = True, ax_reasons = []\<rparr>
      else \<lparr>ax_state = ''disputed'', ax_passed = False, ax_reasons = [dispute_prefix @ reason]\<rparr>)"

definition eligibility_state :: "bool \<Rightarrow> string" where
  "eligibility_state eligible = (if eligible then ''eligible'' else ''ineligible'')"

definition reasons_if_false :: "bool \<Rightarrow> string \<Rightarrow> string list" where
  "reasons_if_false b reason = (if b then [] else [reason])"

definition not_counted_text :: string where
  "not_counted_text =
    utf8 [1052, 1077, 1088, 1086, 1087, 1088, 1080, 1103, 1090, 1080, 1077, 32, 1085, 1077, 32, 1076,
    1086, 1087, 1091, 1097, 1077, 1085, 1086, 32, 1082, 32, 1079, 1072, 1095, 1105, 1090, 1091]"

definition payload_number :: "jvalue option \<Rightarrow> rat" where
  "payload_number v = (case v of
     Some (JNumber s) \<Rightarrow> (case parse_decimal s of None \<Rightarrow> 0 | Some q \<Rightarrow> f64 q)
   | Some (JFloat r) \<Rightarrow> r
   | Some (JString s) \<Rightarrow> (case parse_decimal (replace_char (CHR '','') (CHR ''.'') s) of None \<Rightarrow> 0 | Some q \<Rightarrow> f64 q)
   | _ \<Rightarrow> 0)"

definition activity_units :: "string \<Rightarrow> payload \<Rightarrow> rat" where
  "activity_units category p =
     (if category = ''teacher_training'' then payload_number (map_of p ''trained_teachers_count'')
      else if category = ''it_clubs'' then payload_number (map_of p ''developed_programs_count'')
      else if category = ''edu_content'' then
        fadd (payload_number (map_of p ''student_platform_months'')) (payload_number (map_of p ''teacher_platform_months''))
      else 1)"

definition row_readiness :: "activity_row \<Rightarrow> readiness" where
  "row_readiness row = evaluate (ar_category row) (ar_period row) (ar_payload row) (ar_documents row)"

definition row_risk :: "activity_row \<Rightarrow> risk_assessment" where
  "row_risk row = evaluate_risk \<lparr>ri_state = rd_state (row_readiness row), ri_blocking = rd_blocking (row_readiness row),
     ri_warnings = rd_warnings (row_readiness row), ri_eligible = ar_eligible row,
     ri_approved = (ar_status row = ''approved''), ri_disputed = (ar_dispute row \<noteq> []), ri_reason = ar_dispute row\<rparr>"

definition project_row :: "activity_row \<Rightarrow> instant \<Rightarrow> contribution" where
  "project_row row now =
     (let ready = row_readiness row; approved = (ar_status row = ''approved''); eligible = ar_eligible row;
          risk = row_risk row; planned = (ar_period row = ''plan'')
      in \<lparr>ct_activity = ar_id row, ct_tenant = ar_tenant row, ct_partner = ar_partner row, ct_agreement = ar_agreement row,
          ct_category = ar_category row, ct_audience = ar_audience row, ct_year = ar_year row, ct_period = ar_period row,
          ct_units = activity_units (ar_category row) (ar_payload row),
          ct_plan = (if planned then ar_amount row else 0),
          ct_fact = (if planned then 0 else ar_amount row),
          ct_calculated = (if planned then 0 else ar_formula row),
          ct_confirmed = (if \<not> planned \<and> rd_ready ready then ar_amount row else 0),
          ct_counted = (if \<not> planned \<and> rd_ready ready \<and> ar_eligible row \<and> approved \<and> ar_dispute row = []
            then ar_amount row else 0),
          ct_readiness = \<lparr>ax_state = rd_state ready, ax_passed = rd_ready ready,
            ax_reasons = rd_blocking ready @ rd_warnings ready\<rparr>,
          ct_eligibility = \<lparr>ax_state = eligibility_state eligible, ax_passed = eligible,
            ax_reasons = reasons_if_false eligible not_counted_text\<rparr>,
          ct_approval = \<lparr>ax_state = ar_status row, ax_passed = approved, ax_reasons = reasons_if_false approved not_approved_text\<rparr>,
          ct_dispute = legal_dispute_axis (ar_dispute row),
          ct_risk = \<lparr>ax_state = level_state (ra_level risk), ax_passed = (ra_level risk = Ready), ax_reasons = risk_reasons risk\<rparr>,
          ct_evaluated = now\<rparr>)"

section \<open>The query\<close>

record projection_filter =
  pf_year :: int
  pf_period :: string
  pf_tenant :: string
  pf_partner :: string
  pf_agreement :: string
  pf_category :: string
  pf_audience :: string
  pf_semester :: int
  pf_term :: string

datatype projection_error =
    YearOutside
  | PeriodUnsupported
  | SemesterOutside
  | TermUnsupported
  | SumError money_error

text \<open>\<open>payload->>'semester'\<close> when it is one or two digits.\<close>

definition row_semester :: "activity_row \<Rightarrow> int option" where
  "row_semester row = (case map_of (ar_payload row) ''semester'' of
     Some (JString s) \<Rightarrow> if list_all is_digit s \<and> (length s = 1 \<or> length s = 2) then Some (int (nat_of_digits s)) else None
   | Some (JNumber s) \<Rightarrow> if list_all is_digit s \<and> (length s = 1 \<or> length s = 2) then Some (int (nat_of_digits s)) else None
   | _ \<Rightarrow> None)"

definition row_selected :: "projection_filter \<Rightarrow> activity_row \<Rightarrow> bool" where
  "row_selected f row =
     ((pf_year f = 0 \<or> ar_year row = pf_year f) \<and> (pf_period f = [] \<or> ar_period row = pf_period f)
      \<and> (pf_tenant f = [] \<or> ar_tenant row = pf_tenant f) \<and> (pf_partner f = [] \<or> ar_partner row = pf_partner f)
      \<and> (pf_agreement f = [] \<or> ar_agreement row = pf_agreement f) \<and> (pf_category f = [] \<or> ar_category row = pf_category f)
      \<and> (pf_audience f = [] \<or> ar_audience row = pf_audience f)
      \<and> (pf_semester f = 0 \<or> row_semester row = Some (pf_semester f))
      \<and> (pf_term f = [] \<or> (case row_semester row of None \<Rightarrow> False
          | Some s \<Rightarrow> s mod 2 = (if pf_term f = ''autumn'' then 1 else 0))))"

definition list_contributions :: "activity_row list \<Rightarrow> instant \<Rightarrow> projection_filter \<Rightarrow> projection_error + contribution list" where
  "list_contributions rows now f =
     (if pf_year f \<noteq> 0 \<and> (pf_year f < 2000 \<or> pf_year f > 2100) then Inl YearOutside
      else if pf_period f \<noteq> [] \<and> pf_period f \<noteq> ''plan'' \<and> pf_period f \<noteq> ''fact'' then Inl PeriodUnsupported
      else if pf_semester f < 0 \<or> pf_semester f > 13 then Inl SemesterOutside
      else if pf_term f \<noteq> [] \<and> pf_term f \<noteq> ''autumn'' \<and> pf_term f \<noteq> ''spring'' then Inl TermUnsupported
      else Inr (map (\<lambda>row. project_row row now)
        (sort_key (\<lambda>row. (ar_year row, ar_period row, ar_category row, ar_id row)) (filter (row_selected f) rows))))"

section \<open>Aggregation\<close>

record grouping =
  by_partner :: bool
  by_agreement :: bool
  by_category :: bool
  by_audience :: bool

record aggregate =
  ag_partner :: string
  ag_agreement :: string
  ag_category :: string
  ag_audience :: string
  ag_plan_entries :: nat
  ag_fact_entries :: nat
  ag_plan_units :: rat
  ag_fact_units :: rat
  ag_plan :: amount
  ag_fact :: amount
  ag_calculated :: amount
  ag_confirmed :: amount
  ag_counted :: amount
  ag_eligible_plan :: amount
  ag_eligible_fact :: amount
  ag_incomplete :: nat

definition empty_aggregate :: "string \<Rightarrow> string \<Rightarrow> string \<Rightarrow> string \<Rightarrow> aggregate" where
  "empty_aggregate partner agreement category audience =
     \<lparr>ag_partner = partner, ag_agreement = agreement, ag_category = category, ag_audience = audience,
      ag_plan_entries = 0, ag_fact_entries = 0, ag_plan_units = 0, ag_fact_units = 0, ag_plan = 0, ag_fact = 0,
      ag_calculated = 0, ag_confirmed = 0, ag_counted = 0, ag_eligible_plan = 0, ag_eligible_fact = 0, ag_incomplete = 0\<rparr>"

text \<open>\<open>stringJoin\<close>: every part with its length in front.\<close>

definition string_join :: "string list \<Rightarrow> string" where
  "string_join parts = concat (map (\<lambda>s. show_nat (length s) @ CHR '':'' # s) parts)"

definition key_parts :: "contribution \<Rightarrow> grouping \<Rightarrow> string list" where
  "key_parts c g = (if by_partner g then [ct_partner c] else []) @ (if by_agreement g then [ct_agreement c] else []) @
     (if by_category g then [ct_category c] else []) @ (if by_audience g then [ct_audience c] else [])"

definition aggregate_key :: "contribution \<Rightarrow> grouping \<Rightarrow> string \<times> aggregate" where
  "aggregate_key c g = (string_join (key_parts c g),
     empty_aggregate (if by_partner g then ct_partner c else []) (if by_agreement g then ct_agreement c else [])
       (if by_category g then ct_category c else []) (if by_audience g then ct_audience c else []))"

definition add_to :: "amount \<Rightarrow> amount \<Rightarrow> projection_error + amount" where
  "add_to a b = lift_error SumError (money_add a b)"

definition add_contribution :: "contribution \<Rightarrow> aggregate \<Rightarrow> projection_error + aggregate" where
  "add_contribution c a =
     (if ct_period c = ''plan'' then
        rbind (add_to (ag_plan a) (ct_plan c)) (\<lambda>plan.
        let a = a\<lparr>ag_plan_entries := ag_plan_entries a + 1, ag_plan_units := fadd (ag_plan_units a) (ct_units c), ag_plan := plan\<rparr> in
        if ax_passed (ct_eligibility c)
        then rbind (add_to (ag_eligible_plan a) (ct_plan c)) (\<lambda>e. Inr (a\<lparr>ag_eligible_plan := e\<rparr>))
        else Inr (a\<lparr>ag_incomplete := ag_incomplete a + 1\<rparr>))
      else if ct_period c = ''fact'' then
        rbind (add_to (ag_fact a) (ct_fact c)) (\<lambda>fact.
        rbind (add_to (ag_calculated a) (ct_calculated c)) (\<lambda>calculated.
        rbind (add_to (ag_confirmed a) (ct_confirmed c)) (\<lambda>confirmed.
        rbind (add_to (ag_counted a) (ct_counted c)) (\<lambda>counted.
        let a = a\<lparr>ag_fact_entries := ag_fact_entries a + 1, ag_fact_units := fadd (ag_fact_units a) (ct_units c),
                  ag_fact := fact, ag_calculated := calculated, ag_confirmed := confirmed, ag_counted := counted\<rparr> in
        if ax_passed (ct_eligibility c)
        then rbind (add_to (ag_eligible_fact a) (ct_fact c)) (\<lambda>e. Inr (a\<lparr>ag_eligible_fact := e\<rparr>))
        else Inr (a\<lparr>ag_incomplete := ag_incomplete a + 1\<rparr>)))))
      else Inl PeriodUnsupported)"

text \<open>One turn of the loop over the contributions, on the map of groups.\<close>

definition group_contribution ::
  "grouping \<Rightarrow> contribution \<Rightarrow> (string \<times> aggregate) list \<Rightarrow> projection_error + (string \<times> aggregate) list" where
  "group_contribution g c groups = (case aggregate_key c g of (key, fresh) \<Rightarrow>
     rbind (add_contribution c (case map_of groups key of None \<Rightarrow> fresh | Some a \<Rightarrow> a)) (\<lambda>a.
       Inr (AList.update key a groups)))"

definition aggregate_order :: "aggregate \<Rightarrow> string \<times> string \<times> string \<times> string" where
  "aggregate_order a = (ag_partner a, ag_agreement a, ag_category a, ag_audience a)"

definition aggregate_contributions :: "contribution list \<Rightarrow> grouping \<Rightarrow> projection_error + aggregate list" where
  "aggregate_contributions items g =
     rbind (fold_result (group_contribution g) items []) (\<lambda>groups. Inr (sort_key aggregate_order (map snd groups)))"

definition summarize :: "contribution list \<Rightarrow> projection_error + aggregate" where
  "summarize items =
     rbind (aggregate_contributions items \<lparr>by_partner = False, by_agreement = False, by_category = False, by_audience = False\<rparr>)
       (\<lambda>groups. Inr (case groups of [] \<Rightarrow> empty_aggregate [] [] [] [] | a # _ \<Rightarrow> a))"

end
