(* ===== verification/ProjectionLaws.thy ===== *)
theory ProjectionLaws
  imports Projection ReadinessLaws "HOL-Library.Multiset"
begin

text \<open>
  Laws of the projection: which entries count, that the groups of an aggregation are the sums of
  their members, and what a reader of contributions may rely on.
\<close>

section \<open>Independent axes that agree\<close>

lemma evaluate_state: "rd_state (evaluate category period p documents) \<in> {''green'', ''yellow'', ''red''}"
  by (auto simp: evaluate_fields)

lemma row_risk_ready:
  "ra_level (row_risk row) = Ready \<longleftrightarrow> rd_ready (row_readiness row) \<and> ar_eligible row \<and> ar_status row = ''approved''
    \<and> ar_dispute row = []"
  using readiness_verdict(3) [of "ar_category row" "ar_period row" "ar_payload row" "ar_documents row"]
  by (cases "rd_state (row_readiness row) = ''green''"; cases "rd_state (row_readiness row) = ''yellow''")
    (simp_all add: row_risk_def evaluate_risk_level row_readiness_def)

text \<open>
  C24: of an entry of the fact, the amount that counts is decided twice, by the projection and by the risk
  rules, and both agree: the whole amount counts when the risk axis passes and nothing otherwise; it
  passes exactly when the documents are complete, the entry is eligible, the report is approved and
  there is no legal dispute; and what counts is confirmed and what is confirmed is fact.
\<close>

theorem counted_iff_no_risk:
  assumes "ar_period row \<noteq> ''plan''" "0 \<le> ar_amount row"
  shows "ct_counted (project_row row now) = (if ax_passed (ct_risk (project_row row now)) then ar_amount row else 0)
    \<and> (ax_passed (ct_risk (project_row row now)) \<longleftrightarrow> ax_passed (ct_readiness (project_row row now))
        \<and> ax_passed (ct_eligibility (project_row row now)) \<and> ax_passed (ct_approval (project_row row now))
        \<and> ax_passed (ct_dispute (project_row row now)))
    \<and> ct_counted (project_row row now) \<le> ct_confirmed (project_row row now)
    \<and> ct_confirmed (project_row row now) \<le> ct_fact (project_row row now)"
  using assms row_risk_ready [of row] by (auto simp: project_row_def Let_def legal_dispute_axis_def)

definition club_row :: activity_row where
  "club_row = \<lparr>ar_id = ''e1'', ar_tenant = ''c1'', ar_partner = ''p1'', ar_agreement = ''g1'', ar_category = ''it_clubs'',
     ar_audience = ''school'', ar_year = 2026, ar_period = ''fact'', ar_amount = 150000, ar_formula = 150000,
     ar_payload = school_references, ar_eligible = True, ar_status = ''approved'', ar_documents = [], ar_dispute = []\<rparr>"

lemma club_ready: "rd_ready (row_readiness club_row)"
  by code_simp

theorem counted_iff_no_risk_witness:
  "ct_counted (project_row club_row 0) = 150000"
  using counted_iff_no_risk [of club_row 0] row_risk_ready [of club_row] club_ready
  by (simp add: club_row_def project_row_def Let_def)

section \<open>Keys\<close>

lemma show_nat_prefix:
  assumes "show_nat m @ CHR '':'' # s = show_nat n @ CHR '':'' # t"
  shows "m = n \<and> s = t"
proof -
  have digits: "takeWhile is_digit (show_nat k @ CHR '':'' # u) = show_nat k"
    "dropWhile is_digit (show_nat k @ CHR '':'' # u) = CHR '':'' # u" for k u
  proof -
    have all: "\<forall>c \<in> set (show_nat k). is_digit c" using show_nat_digits [of k] by (simp add: list_all_iff)
    have colon: "\<not> is_digit (CHR '':'')" by code_simp
    show "takeWhile is_digit (show_nat k @ CHR '':'' # u) = show_nat k"
      "dropWhile is_digit (show_nat k @ CHR '':'' # u) = CHR '':'' # u"
      using all colon by (simp_all add: takeWhile_append2 dropWhile_append2)
  qed
  have "show_nat m = show_nat n" "CHR '':'' # s = CHR '':'' # t"
    using arg_cong [OF assms, of "takeWhile is_digit"] arg_cong [OF assms, of "dropWhile is_digit"] unfolding digits by simp_all
  then show ?thesis using nat_of_digits_show_nat by (metis list.inject)
qed

lemma string_join_inj: "length xs = length ys \<Longrightarrow> string_join xs = string_join ys \<Longrightarrow> xs = ys"
proof (induction xs ys rule: list_induct2)
  case (Cons x xs y ys)
  have "show_nat (length x) @ CHR '':'' # (x @ string_join xs) = show_nat (length y) @ CHR '':'' # (y @ string_join ys)"
    using Cons.prems by (simp add: string_join_def)
  from show_nat_prefix [OF this] have "x = y" "string_join xs = string_join ys" by auto
  then show ?case using Cons.IH by simp
qed simp

text \<open>Contributions share a key exactly when the chosen dimensions agree, and then the same group starts.\<close>

lemma aggregate_key_iff:
  "fst (aggregate_key c g) = fst (aggregate_key d g) \<longleftrightarrow> aggregate_order (snd (aggregate_key c g)) = aggregate_order (snd (aggregate_key d g))"
proof -
  have "length (key_parts c g) = length (key_parts d g)" by (simp add: key_parts_def)
  then have "fst (aggregate_key c g) = fst (aggregate_key d g) \<longleftrightarrow> key_parts c g = key_parts d g"
    using string_join_inj by (auto simp: aggregate_key_def)
  also have "\<dots> \<longleftrightarrow> aggregate_order (snd (aggregate_key c g)) = aggregate_order (snd (aggregate_key d g))"
    by (auto simp: key_parts_def aggregate_key_def aggregate_order_def empty_aggregate_def)
  finally show ?thesis .
qed

section \<open>Groups are sums\<close>

text \<open>What a well-formed contribution is: of the plan or the fact, with no negative amount.\<close>

definition lawful :: "contribution \<Rightarrow> bool" where
  "lawful c = ((ct_period c = ''plan'' \<or> ct_period c = ''fact'') \<and> 0 \<le> ct_plan c \<and> 0 \<le> ct_fact c \<and> 0 \<le> ct_calculated c
     \<and> 0 \<le> ct_confirmed c \<and> 0 \<le> ct_counted c)"

definition planned :: "contribution list \<Rightarrow> contribution list" where
  "planned cs = filter (\<lambda>c. ct_period c = ''plan'') cs"

definition factual :: "contribution list \<Rightarrow> contribution list" where
  "factual cs = filter (\<lambda>c. ct_period c = ''fact'') cs"

definition eligible :: "contribution list \<Rightarrow> contribution list" where
  "eligible cs = filter (\<lambda>c. ax_passed (ct_eligibility c)) cs"

definition total :: "(contribution \<Rightarrow> amount) \<Rightarrow> contribution list \<Rightarrow> amount" where
  "total f cs = sum_list (map f cs)"

text \<open>The reference: a group is a start with the counts and the exact sums of its members.\<close>

definition tally :: "aggregate \<Rightarrow> contribution list \<Rightarrow> aggregate" where
  "tally a cs = a\<lparr>ag_plan_entries := length (planned cs), ag_fact_entries := length (factual cs),
     ag_plan_units := foldl fadd 0 (map ct_units (planned cs)), ag_fact_units := foldl fadd 0 (map ct_units (factual cs)),
     ag_plan := total ct_plan (planned cs), ag_fact := total ct_fact (factual cs),
     ag_calculated := total ct_calculated (factual cs), ag_confirmed := total ct_confirmed (factual cs),
     ag_counted := total ct_counted (factual cs), ag_eligible_plan := total ct_plan (eligible (planned cs)),
     ag_eligible_fact := total ct_fact (eligible (factual cs)), ag_incomplete := length cs - length (eligible cs)\<rparr>"

definition fits :: "aggregate \<Rightarrow> bool" where
  "fits a = (ag_plan a \<le> max_int64 \<and> ag_fact a \<le> max_int64 \<and> ag_calculated a \<le> max_int64 \<and> ag_confirmed a \<le> max_int64
     \<and> ag_counted a \<le> max_int64 \<and> ag_eligible_plan a \<le> max_int64 \<and> ag_eligible_fact a \<le> max_int64)"

lemma add_to_sum: "0 \<le> a \<Longrightarrow> 0 \<le> b \<Longrightarrow>
  add_to a b = (if a + b \<le> max_int64 then Inr (a + b) else Inl (SumError SumOverflow))"
  by (auto simp: add_to_def money_add_def lift_error_def)

lemma total_nonneg: "\<forall>c \<in> set cs. 0 \<le> f c \<Longrightarrow> 0 \<le> total f cs"
  unfolding total_def by (intro sum_list_nonneg) auto

lemma lawful_totals:
  assumes "\<forall>c \<in> set cs. lawful c"
  shows "0 \<le> total ct_plan (planned cs)" "0 \<le> total ct_fact (factual cs)" "0 \<le> total ct_calculated (factual cs)"
    "0 \<le> total ct_confirmed (factual cs)" "0 \<le> total ct_counted (factual cs)" "0 \<le> total ct_plan (eligible (planned cs))"
    "0 \<le> total ct_fact (eligible (factual cs))"
  using assms by (auto intro!: total_nonneg simp: lawful_def planned_def factual_def eligible_def)

lemma parts_snoc:
  "planned (cs @ [c]) = (if ct_period c = ''plan'' then planned cs @ [c] else planned cs)"
  "factual (cs @ [c]) = (if ct_period c = ''fact'' then factual cs @ [c] else factual cs)"
  "eligible (cs @ [c]) = (if ax_passed (ct_eligibility c) then eligible cs @ [c] else eligible cs)"
  "total f (cs @ [c]) = total f cs + f c"
  by (simp_all add: planned_def factual_def eligible_def total_def)

lemma length_eligible: "length (eligible cs) \<le> length cs"
  by (simp add: eligible_def)

lemma add_contribution_tally:
  assumes "lawful c" "\<forall>d \<in> set cs. lawful d" "fits (tally a cs)"
  shows "add_contribution c (tally a cs) =
    (if fits (tally a (cs @ [c])) then Inr (tally a (cs @ [c])) else Inl (SumError SumOverflow))"
proof -
  have nonneg: "0 \<le> ct_plan c" "0 \<le> ct_fact c" "0 \<le> ct_calculated c" "0 \<le> ct_confirmed c" "0 \<le> ct_counted c"
    using assms(1) by (simp_all add: lawful_def)
  have inc: "Suc (length cs) - length (eligible cs) = Suc (length cs - length (eligible cs))"
    using length_eligible by (rule Suc_diff_le)
  from assms(1) consider "ct_period c = ''plan''" | "ct_period c = ''fact''" by (auto simp: lawful_def)
  then show ?thesis
    using assms(3) nonneg lawful_totals [OF assms(2)]
    by cases (cases "ax_passed (ct_eligibility c)";
      simp add: add_contribution_def add_to_sum tally_def fits_def parts_snoc inc)+
qed

lemma fits_prefix:
  assumes "lawful c" "fits (tally a (cs @ [c]))"
  shows "fits (tally a cs)"
  using assms by (auto simp: fits_def tally_def parts_snoc lawful_def split: if_splits)

text \<open>The group of a contribution, and the groups of all.\<close>

definition group_start :: "grouping \<Rightarrow> contribution \<Rightarrow> aggregate" where
  "group_start g c = snd (aggregate_key c g)"

definition same_group :: "grouping \<Rightarrow> contribution \<Rightarrow> contribution \<Rightarrow> bool" where
  "same_group g c d = (aggregate_order (group_start g c) = aggregate_order (group_start g d))"

definition members :: "grouping \<Rightarrow> contribution \<Rightarrow> contribution list \<Rightarrow> contribution list" where
  "members g c cs = filter (same_group g c) cs"

definition group_total :: "grouping \<Rightarrow> contribution list \<Rightarrow> contribution \<Rightarrow> aggregate" where
  "group_total g cs c = tally (group_start g c) (members g c cs)"

lemma same_group_start: "same_group g c d \<Longrightarrow> group_start g c = group_start g d"
  by (auto simp: same_group_def group_start_def aggregate_key_def aggregate_order_def empty_aggregate_def)

lemma same_group_total:
  assumes "same_group g c d"
  shows "group_total g cs c = group_total g cs d"
proof -
  have "same_group g c = same_group g d" using assms by (simp add: same_group_def fun_eq_iff)
  then show ?thesis using same_group_start [OF assms] by (simp add: group_total_def members_def)
qed

lemma key_same_group: "fst (aggregate_key c g) = fst (aggregate_key d g) \<longleftrightarrow> same_group g c d"
  unfolding same_group_def group_start_def by (rule aggregate_key_iff)

lemma same_group_refl [simp]: "same_group g c c"
  by (simp add: same_group_def)

text \<open>The map of groups after some contributions.\<close>

definition groups_of :: "grouping \<Rightarrow> contribution list \<Rightarrow> (string \<times> aggregate) list \<Rightarrow> bool" where
  "groups_of g cs groups = (distinct (map fst groups) \<and> set (map fst groups) = {fst (aggregate_key c g) | c. c \<in> set cs}
     \<and> (\<forall>c \<in> set cs. map_of groups (fst (aggregate_key c g)) = Some (group_total g cs c) \<and> fits (group_total g cs c)))"

lemma members_snoc: "members g c (cs @ [d]) = (if same_group g c d then members g c cs @ [d] else members g c cs)"
  by (simp add: members_def)

lemma members_lawful: "\<forall>d \<in> set cs. lawful d \<Longrightarrow> \<forall>d \<in> set (members g c cs). lawful d"
  by (simp add: members_def)

lemma tally_Nil: "tally (group_start g c) [] = group_start g c"
  by (simp add: tally_def group_start_def aggregate_key_def empty_aggregate_def planned_def factual_def eligible_def total_def)

lemma groups_step:
  assumes groups: "groups_of g cs groups" and lawful: "\<forall>d \<in> set (cs @ [c]). lawful d"
  shows "group_contribution g c groups = (if fits (group_total g (cs @ [c]) c)
    then Inr (AList.update (fst (aggregate_key c g)) (group_total g (cs @ [c]) c) groups) else Inl (SumError SumOverflow))"
proof -
  let ?k = "fst (aggregate_key c g)"
  have before: "(case map_of groups ?k of None \<Rightarrow> group_start g c | Some a \<Rightarrow> a) = tally (group_start g c) (members g c cs)
      \<and> fits (tally (group_start g c) (members g c cs))"
  proof (cases "\<exists>d \<in> set cs. same_group g d c")
    case True
    then obtain d where d: "d \<in> set cs" "same_group g d c" by blast
    then have "map_of groups ?k = Some (group_total g cs d)" "fits (group_total g cs d)"
      using groups key_same_group [of d g c] unfolding groups_of_def by metis+
    then show ?thesis using same_group_total [OF d(2)] by (simp add: group_total_def)
  next
    case False
    then have "members g c cs = []" by (auto simp: members_def filter_empty_conv same_group_def)
    moreover have "?k \<notin> set (map fst groups)"
    proof
      assume "?k \<in> set (map fst groups)"
      then obtain d where "d \<in> set cs" "fst (aggregate_key d g) = ?k" using groups unfolding groups_of_def by force
      then show False using False key_same_group by blast
    qed
    then have "map_of groups ?k = None" by (simp add: map_of_eq_None_iff)
    ultimately show ?thesis
      by (simp add: tally_Nil) (simp add: fits_def group_start_def aggregate_key_def empty_aggregate_def max_int64_def)
  qed
  have "add_contribution c (tally (group_start g c) (members g c cs)) =
      (if fits (group_total g (cs @ [c]) c) then Inr (group_total g (cs @ [c]) c) else Inl (SumError SumOverflow))"
    using add_contribution_tally [of c "members g c cs" "group_start g c"] lawful before members_lawful [of cs g c]
    by (simp add: group_total_def members_snoc)
  moreover obtain k where key: "aggregate_key c g = (k, group_start g c)"
    by (metis group_start_def prod.collapse)
  ultimately show ?thesis using before by (simp add: group_contribution_def key)
qed

lemma groups_update:
  assumes groups: "groups_of g cs groups" and c: "fits (group_total g (cs @ [c]) c)"
  shows "groups_of g (cs @ [c]) (AList.update (fst (aggregate_key c g)) (group_total g (cs @ [c]) c) groups)"
proof -
  let ?k = "fst (aggregate_key c g)"
  have other: "group_total g (cs @ [c]) d = group_total g cs d" if "\<not> same_group g d c" for d
    using that by (simp add: group_total_def members_snoc)
  have "map_of (AList.update ?k (group_total g (cs @ [c]) c) groups) (fst (aggregate_key d g)) = Some (group_total g (cs @ [c]) d)
      \<and> fits (group_total g (cs @ [c]) d)" if d: "d \<in> set (cs @ [c])" for d
  proof (cases "same_group g d c")
    case True
    then show ?thesis using c same_group_total [OF True, of "cs @ [c]"] key_same_group [of d g c] by simp
  next
    case False
    then have "d \<in> set cs" using d by auto
    moreover have "fst (aggregate_key d g) \<noteq> ?k" using False key_same_group by blast
    ultimately show ?thesis using groups other [OF False] by (simp add: groups_of_def map_of_update_other)
  qed
  then show ?thesis using groups unfolding groups_of_def
    by (auto simp: distinct_update dom_update)
qed

lemma group_total_prefix:
  assumes "lawful d" "fits (group_total g (cs @ [d]) c)"
  shows "fits (group_total g cs c)"
  using assms fits_prefix [OF assms(1)] by (simp add: group_total_def members_snoc split: if_splits)

lemma distinct_sort_key: "distinct (map f xs) \<Longrightarrow> distinct (map f (sort_key f xs))"
proof -
  have "mset (map f (sort_key f xs)) = mset (map f xs)" by simp
  then show "distinct (map f xs) \<Longrightarrow> distinct (map f (sort_key f xs))" using mset_eq_imp_distinct_iff by blast
qed

lemma groups_of_all:
  assumes "\<forall>c \<in> set cs. lawful c"
  shows "case fold_result (group_contribution g) cs [] of
      Inr groups \<Rightarrow> groups_of g cs groups
    | Inl e \<Rightarrow> e = SumError SumOverflow \<and> (\<exists>c \<in> set cs. \<not> fits (group_total g cs c))"
  using assms
proof (induction cs rule: rev_induct)
  case Nil
  then show ?case by (simp add: groups_of_def)
next
  case (snoc d cs)
  show ?case
  proof (cases "fold_result (group_contribution g) cs []")
    case (Inl e)
    then obtain c where "c \<in> set cs" "\<not> fits (group_total g cs c)" "e = SumError SumOverflow" using snoc by auto
    then show ?thesis using Inl group_total_prefix [of d g cs c] snoc.prems by (auto simp: fold_result_append)
  next
    case (Inr groups)
    then have ok: "groups_of g cs groups" using snoc by simp
    show ?thesis using groups_step [OF ok snoc.prems] groups_update [OF ok, of d] Inr
      by (auto simp: fold_result_append)
  qed
qed

lemma aggregates_totals:
  assumes "\<forall>c \<in> set cs. lawful c"
  shows "case aggregate_contributions cs g of
      Inr groups \<Rightarrow> sorted (map aggregate_order groups) \<and> distinct (map aggregate_order groups)
        \<and> set groups = group_total g cs ` set cs \<and> (\<forall>c \<in> set cs. fits (group_total g cs c))
    | Inl e \<Rightarrow> e = SumError SumOverflow \<and> (\<exists>c \<in> set cs. \<not> fits (group_total g cs c))"
proof (cases "fold_result (group_contribution g) cs []")
  case (Inl e)
  then show ?thesis using groups_of_all [OF assms, of g] by (simp add: aggregate_contributions_def)
next
  case (Inr groups)
  then have g: "groups_of g cs groups" using groups_of_all [OF assms, of g] by simp
  have order: "aggregate_order (group_total g cs c) = aggregate_order (group_start g c)" for c
    by (simp add: group_total_def tally_def aggregate_order_def)
  have d: "distinct (map fst groups)" using g by (simp add: groups_of_def)
  have at_key: "\<exists>c \<in> set cs. k = fst (aggregate_key c g) \<and> a = group_total g cs c" if "(k, a) \<in> set groups" for k a
  proof -
    have "k \<in> set (map fst groups)" using that by force
    then obtain c where c: "c \<in> set cs" "k = fst (aggregate_key c g)" using g unfolding groups_of_def by blast
    moreover have "map_of groups k = Some a" using d that by simp
    ultimately show ?thesis using g unfolding groups_of_def by auto
  qed
  have "group_total g cs c \<in> set (map snd groups)" if "c \<in> set cs" for c
  proof -
    have "map_of groups (fst (aggregate_key c g)) = Some (group_total g cs c)" using g that by (simp add: groups_of_def)
    from map_of_SomeD [OF this] show ?thesis by force
  qed
  moreover have "a \<in> group_total g cs ` set cs" if "a \<in> set (map snd groups)" for a
  proof -
    from that obtain k where "(k, a) \<in> set groups" by auto
    from at_key [OF this] show ?thesis by blast
  qed
  ultimately have vals: "set (map snd groups) = group_total g cs ` set cs" by blast
  have "inj_on (\<lambda>p. aggregate_order (snd p)) (set groups)"
  proof (rule inj_onI)
    fix p q assume pq: "p \<in> set groups" "q \<in> set groups" "aggregate_order (snd p) = aggregate_order (snd q)"
    obtain c where c: "fst p = fst (aggregate_key c g)" "snd p = group_total g cs c" using at_key [of "fst p" "snd p"] pq(1) by auto
    obtain c' where c': "fst q = fst (aggregate_key c' g)" "snd q = group_total g cs c'" using at_key [of "fst q" "snd q"] pq(2) by auto
    have "same_group g c c'" using pq(3) order unfolding same_group_def c(2) c'(2) by simp
    then have "fst p = fst q" "snd p = snd q" using c c' key_same_group same_group_total by metis+
    then show "p = q" by (rule prod_eqI)
  qed
  moreover have "distinct groups" using d by (simp add: distinct_map)
  ultimately have "distinct (map aggregate_order (map snd groups))" by (simp add: distinct_map comp_def)
  then have "distinct (map aggregate_order (sort_key aggregate_order (map snd groups)))"
    by (rule distinct_sort_key)
  then show ?thesis using Inr vals g by (simp add: aggregate_contributions_def groups_of_def)
qed

text \<open>
  C26: the aggregates are the exact counts and sums of the contributions that agree in the chosen
  dimensions, one for each combination that occurs, in the order of the dimensions; the only other
  outcome is the error of an overflow, when one of these sums does not fit 64 bits.
\<close>

theorem aggregates_are_totals:
  assumes "\<forall>c \<in> set cs. lawful c"
  shows "case aggregate_contributions cs g of
      Inr groups \<Rightarrow> sorted (map aggregate_order groups) \<and> distinct (map aggregate_order groups)
        \<and> set groups = group_total g cs ` set cs \<and> (\<forall>c \<in> set cs. fits (group_total g cs c))
    | Inl e \<Rightarrow> e = SumError SumOverflow \<and> (\<exists>c \<in> set cs. \<not> fits (group_total g cs c))"
  by (rule aggregates_totals [OF assms])

definition club_contribution :: "string \<Rightarrow> bool \<Rightarrow> contribution" where
  "club_contribution i approved = (let axis = (\<lambda>b. \<lparr>ax_state = [], ax_passed = b, ax_reasons = []\<rparr>) in
     \<lparr>ct_activity = i, ct_tenant = ''c1'', ct_partner = ''p1'', ct_agreement = ''g1'', ct_category = ''it_clubs'',
      ct_audience = ''school'', ct_year = 2026, ct_period = ''fact'', ct_units = 1, ct_plan = 0, ct_fact = 150000,
      ct_calculated = 150000, ct_confirmed = 150000, ct_counted = (if approved then 150000 else 0), ct_readiness = axis True,
      ct_eligibility = axis True, ct_approval = axis approved, ct_dispute = axis True, ct_risk = axis approved,
      ct_evaluated = 0\<rparr>)"

definition club_contributions :: "contribution list" where
  "club_contributions = [club_contribution ''e1'' True, club_contribution ''e2'' False]"

definition overall :: grouping where
  "overall = \<lparr>by_partner = True, by_agreement = False, by_category = True, by_audience = False\<rparr>"

lemma club_contributions_lawful:
  "list_all lawful club_contributions" "list_all (\<lambda>c. fits (group_total overall club_contributions c)) club_contributions"
  "map (\<lambda>c. (ag_fact (group_total overall club_contributions c), ag_counted (group_total overall club_contributions c)))
    club_contributions = [(300000, 150000), (300000, 150000)]"
  by code_simp+

theorem aggregates_are_totals_witness:
  "\<exists>groups. aggregate_contributions club_contributions overall = Inr groups \<and>
    (\<exists>a \<in> set groups. ag_fact a = 300000 \<and> ag_counted a = 150000)"
proof (cases "aggregate_contributions club_contributions overall")
  case (Inl e)
  then show ?thesis
    using aggregates_are_totals [of club_contributions overall] club_contributions_lawful(1,2) by (auto simp: list_all_iff)
next
  case (Inr groups)
  then have "set groups = group_total overall club_contributions ` set club_contributions"
    using aggregates_are_totals [of club_contributions overall] club_contributions_lawful(1) by (auto simp: list_all_iff)
  moreover obtain c where "c \<in> set club_contributions" by (auto simp: club_contributions_def)
  moreover have "ag_fact (group_total overall club_contributions c) = 300000 \<and> ag_counted (group_total overall club_contributions c) = 150000"
    using \<open>c \<in> set club_contributions\<close> club_contributions_lawful(3) by (auto simp: club_contributions_def)
  ultimately show ?thesis using Inr by auto
qed

section \<open>What a reader promises\<close>

text \<open>
  The interface \<open>Reader\<close> of the package: the consumers rely on contributions that are lawful and whose
  amounts that count are confirmed and part of the fact.
\<close>

definition ordered_axes :: "contribution \<Rightarrow> bool" where
  "ordered_axes c = (ct_counted c \<le> ct_confirmed c \<and> ct_confirmed c \<le> ct_fact c
     \<and> (ct_counted c \<noteq> 0 \<longrightarrow> ax_passed (ct_eligibility c)))"

lemma total_mono: "(\<And>c. c \<in> set cs \<Longrightarrow> f c \<le> h c) \<Longrightarrow> total f cs \<le> total h cs"
  unfolding total_def by (rule sum_list_mono) simp

lemma total_filter: "(\<And>c. c \<in> set cs \<Longrightarrow> \<not> P c \<Longrightarrow> f c = 0) \<Longrightarrow> total f (filter P cs) = total f cs"
  unfolding total_def by (induction cs) auto

lemma total_filter_le: "(\<And>c. c \<in> set cs \<Longrightarrow> 0 \<le> f c) \<Longrightarrow> total f (filter P cs) \<le> total f cs"
  unfolding total_def by (induction cs) (auto intro!: add_increasing)

lemma totals_ordered:
  assumes "\<forall>c \<in> set cs. lawful c \<and> ordered_axes c"
  shows "0 \<le> total ct_counted cs" "total ct_counted cs \<le> total ct_confirmed cs" "total ct_confirmed cs \<le> total ct_fact cs"
    "total ct_counted cs \<le> total ct_fact (eligible cs)" "total ct_fact (eligible cs) \<le> total ct_fact cs"
    "total ct_plan (eligible cs) \<le> total ct_plan cs"
proof -
  have all: "0 \<le> ct_counted c" "ct_counted c \<le> ct_confirmed c" "ct_confirmed c \<le> ct_fact c" "0 \<le> ct_fact c" "0 \<le> ct_plan c"
    "\<not> ax_passed (ct_eligibility c) \<Longrightarrow> ct_counted c = 0" if "c \<in> set cs" for c
    using assms that by (auto simp: lawful_def ordered_axes_def)
  show "0 \<le> total ct_counted cs" "total ct_counted cs \<le> total ct_confirmed cs" "total ct_confirmed cs \<le> total ct_fact cs"
    using all by (auto intro: total_nonneg total_mono)
  show "total ct_fact (eligible cs) \<le> total ct_fact cs" "total ct_plan (eligible cs) \<le> total ct_plan cs"
    unfolding eligible_def using all by (auto intro: total_filter_le)
  have "total ct_counted cs = total ct_counted (eligible cs)" unfolding eligible_def using all(6) by (intro total_filter [symmetric]) auto
  also have "\<dots> \<le> total ct_fact (eligible cs)" using all(2,3) by (intro total_mono) (fastforce simp: eligible_def)
  finally show "total ct_counted cs \<le> total ct_fact (eligible cs)" .
qed

locale reader =
  fixes read :: "'s \<Rightarrow> projection_filter \<Rightarrow> projection_error + contribution list"
    and good :: "'s \<Rightarrow> bool"
  assumes read_lawful: "good s \<Longrightarrow> read s f = Inr cs \<Longrightarrow> c \<in> set cs \<Longrightarrow> lawful c \<and> ordered_axes c"
begin

lemma aggregates_ordered:
  assumes "good s" "read s f = Inr cs" "aggregate_contributions cs g = Inr groups" "a \<in> set groups"
  shows "0 \<le> ag_counted a \<and> ag_counted a \<le> ag_confirmed a \<and> ag_confirmed a \<le> ag_fact a
    \<and> ag_counted a \<le> ag_eligible_fact a \<and> ag_eligible_fact a \<le> ag_fact a \<and> ag_eligible_plan a \<le> ag_plan a"
proof -
  have good: "\<forall>c \<in> set cs. lawful c \<and> ordered_axes c" using read_lawful [OF assms(1,2)] by blast
  then have "\<forall>c \<in> set cs. lawful c" by blast
  from aggregates_totals [OF this, of g] obtain c where a: "a = group_total g cs c" using assms(3,4) by auto
  have "\<forall>d \<in> set (factual (members g c cs)). lawful d \<and> ordered_axes d" "\<forall>d \<in> set (planned (members g c cs)). lawful d \<and> ordered_axes d"
    using good by (simp_all add: factual_def planned_def members_def)
  from totals_ordered [OF this(1)] totals_ordered(6) [OF this(2)] show ?thesis
    unfolding a group_total_def by (simp add: tally_def)
qed

end

text \<open>The stored entries the constraints of their table allow.\<close>

definition row_valid :: "activity_row \<Rightarrow> bool" where
  "row_valid row = ((ar_period row = ''plan'' \<or> ar_period row = ''fact'') \<and> 0 \<le> ar_amount row \<and> 0 \<le> ar_formula row)"

lemma project_row_lawful:
  assumes "row_valid row"
  shows "lawful (project_row row now) \<and> ordered_axes (project_row row now)"
  using assms by (auto simp: row_valid_def lawful_def ordered_axes_def project_row_def Let_def)

interpretation activity: reader "\<lambda>(rows, now). list_contributions rows now" "\<lambda>(rows, now). list_all row_valid rows"
proof unfold_locales
  fix s f cs c
  assume "case s of (rows, now) \<Rightarrow> list_all row_valid rows" "(case s of (rows, now) \<Rightarrow> list_contributions rows now) f = Inr cs" "c \<in> set cs"
  then show "lawful c \<and> ordered_axes c"
    using project_row_lawful by (cases s) (auto simp: list_contributions_def list_all_iff split: if_splits)
qed

text \<open>
  C27: over the entries the database can hold, every aggregate of every selection and grouping keeps the
  axes in order: what counts is confirmed and eligible, and both are part of the fact.
\<close>

theorem aggregate_axes_ordered:
  assumes "list_all row_valid rows" "list_contributions rows now f = Inr cs" "aggregate_contributions cs g = Inr groups"
    and "a \<in> set groups"
  shows "0 \<le> ag_counted a \<and> ag_counted a \<le> ag_confirmed a \<and> ag_confirmed a \<le> ag_fact a
    \<and> ag_counted a \<le> ag_eligible_fact a \<and> ag_eligible_fact a \<le> ag_fact a \<and> ag_eligible_plan a \<le> ag_plan a"
  using activity.aggregates_ordered [of "(rows, now)" f cs g groups a] assms by simp

definition everything :: projection_filter where
  "everything = \<lparr>pf_year = 2026, pf_period = [], pf_tenant = [], pf_partner = [], pf_agreement = [], pf_category = [],
     pf_audience = [], pf_semester = 0, pf_term = []\<rparr>"

lemma club_listed: "list_contributions [club_row] 0 everything = Inr [project_row club_row 0]"
  by (simp add: list_contributions_def everything_def row_selected_def club_row_def)

theorem aggregate_axes_ordered_witness:
  "\<exists>groups. aggregate_contributions [project_row club_row 0] overall = Inr groups \<and> (\<forall>a \<in> set groups. ag_counted a \<le> ag_fact a)"
proof -
  have valid: "list_all row_valid [club_row]" by (simp add: row_valid_def club_row_def)
  have "lawful (project_row club_row 0)" using project_row_lawful [of club_row 0] valid by simp
  moreover have "fits (group_total overall [project_row club_row 0] (project_row club_row 0))"
    by (simp add: fits_def group_total_def members_def tally_def total_def planned_def factual_def eligible_def project_row_def Let_def
        club_row_def max_int64_def)
  ultimately obtain groups where groups: "aggregate_contributions [project_row club_row 0] overall = Inr groups"
    using aggregates_totals [of "[project_row club_row 0]" overall]
    by (cases "aggregate_contributions [project_row club_row 0] overall") auto
  have "ag_counted a \<le> ag_fact a" if "a \<in> set groups" for a
    using aggregate_axes_ordered [OF valid club_listed groups that] by linarith
  then show ?thesis using groups by blast
qed

end
