(* ===== verification/AggregateCache.thy ===== *)
theory AggregateCache
  imports ProjectionLaws
begin

text \<open>
  \<open>backend/internal/aggregates/aggregates.go\<close>: the cache of aggregates, rebuilt from a reader of the
  projection and verified against it, over the tables of migration 0810. Amounts are stored by
  their decimal texts. The reader is an argument, as in the code; the order in which a query
  returns rows is that of their bytes.
\<close>

section \<open>Rows\<close>

record stored_row =
  sr_partner :: string
  sr_agreement :: string
  sr_category :: string
  sr_audience :: string
  sr_plan_entries :: nat
  sr_fact_entries :: nat
  sr_plan_units :: rat
  sr_fact_units :: rat
  sr_amounts :: "string list"
  sr_incomplete :: nat

record cache_db =
  cd_rows :: "((string \<times> int) \<times> stored_row) list"
  cd_builds :: "((string \<times> int) \<times> nat) list"

datatype cache_error =
    NoTenant
  | CacheSource projection_error
  | CacheYear
  | CacheAmount money_error
  | CacheColumns

type_synonym contribution_reader = "projection_filter \<Rightarrow> projection_error + contribution list"

definition nul :: char where "nul = CHR 0x00"

definition row_key :: "aggregate \<Rightarrow> string" where
  "row_key a = ag_partner a @ [nul] @ ag_agreement a @ [nul] @ ag_category a @ [nul] @ ag_audience a"

definition slice_filter :: "string \<Rightarrow> int \<Rightarrow> projection_filter" where
  "slice_filter tenant year = \<lparr>pf_year = year, pf_period = [], pf_tenant = tenant, pf_partner = [], pf_agreement = [],
     pf_category = [], pf_audience = [], pf_semester = 0, pf_term = []\<rparr>"

definition all_dimensions :: grouping where
  "all_dimensions = \<lparr>by_partner = True, by_agreement = True, by_category = True, by_audience = True\<rparr>"

definition from_projection :: "contribution_reader \<Rightarrow> string \<Rightarrow> int \<Rightarrow> projection_error + (aggregate list \<times> nat)" where
  "from_projection source tenant year =
     rbind (source (slice_filter tenant year)) (\<lambda>items.
     rbind (aggregate_contributions items all_dimensions) (\<lambda>groups.
       Inr (sort_key row_key groups, length items)))"

section \<open>Operations\<close>

definition amounts_of :: "aggregate \<Rightarrow> amount list" where
  "amounts_of a = [ag_plan a, ag_fact a, ag_calculated a, ag_confirmed a, ag_counted a, ag_eligible_plan a, ag_eligible_fact a]"

definition store_row :: "aggregate \<Rightarrow> stored_row" where
  "store_row a = \<lparr>sr_partner = ag_partner a, sr_agreement = ag_agreement a, sr_category = ag_category a,
     sr_audience = ag_audience a, sr_plan_entries = ag_plan_entries a, sr_fact_entries = ag_fact_entries a,
     sr_plan_units = ag_plan_units a, sr_fact_units = ag_fact_units a, sr_amounts = map money_string (amounts_of a),
     sr_incomplete = ag_incomplete a\<rparr>"

fun parse_amounts :: "string list \<Rightarrow> money_error + amount list" where
  "parse_amounts [] = Inr []"
| "parse_amounts (t # ts) = rbind (money_parse t) (\<lambda>a. rbind (parse_amounts ts) (\<lambda>as. Inr (a # as)))"

definition scan_row :: "stored_row \<Rightarrow> cache_error + aggregate" where
  "scan_row r = rbind (lift_error CacheAmount (parse_amounts (sr_amounts r))) (\<lambda>amounts. case amounts of
     [a1, a2, a3, a4, a5, a6, a7] \<Rightarrow>
       Inr \<lparr>ag_partner = sr_partner r, ag_agreement = sr_agreement r, ag_category = sr_category r,
         ag_audience = sr_audience r, ag_plan_entries = sr_plan_entries r, ag_fact_entries = sr_fact_entries r,
         ag_plan_units = sr_plan_units r, ag_fact_units = sr_fact_units r, ag_plan = a1, ag_fact = a2, ag_calculated = a3,
         ag_confirmed = a4, ag_counted = a5, ag_eligible_plan = a6, ag_eligible_fact = a7, ag_incomplete = sr_incomplete r\<rparr>
   | _ \<Rightarrow> Inl CacheColumns)"

text \<open>\<open>Rebuild\<close>: one transaction that replaces the rows of a tenant and a year.\<close>

definition rebuild :: "contribution_reader \<Rightarrow> string \<Rightarrow> int \<Rightarrow> cache_db \<Rightarrow> cache_error + (nat \<times> cache_db)" where
  "rebuild source tenant year db =
     (if tenant = [] then Inl NoTenant
      else rbind (lift_error CacheSource (from_projection source tenant year)) (\<lambda>(rows, n).
        if rows \<noteq> [] \<and> (year < 2000 \<or> year > 2100) then Inl CacheYear
        else Inr (length rows, db\<lparr>cd_rows := filter (\<lambda>(k, _). k \<noteq> (tenant, year)) (cd_rows db) @
                 map (\<lambda>a. ((tenant, year), store_row a)) rows,
               cd_builds := AList.update (tenant, year) n (cd_builds db)\<rparr>)))"

definition stored_order :: "stored_row \<Rightarrow> string \<times> string \<times> string \<times> string" where
  "stored_order r = (sr_partner r, sr_agreement r, sr_category r, sr_audience r)"

fun scan_rows :: "stored_row list \<Rightarrow> cache_error + aggregate list" where
  "scan_rows [] = Inr []"
| "scan_rows (r # rs) = rbind (scan_row r) (\<lambda>a. rbind (scan_rows rs) (\<lambda>as. Inr (a # as)))"

definition read_cache :: "string \<Rightarrow> int \<Rightarrow> cache_db \<Rightarrow> cache_error + aggregate list" where
  "read_cache tenant year db =
     scan_rows (sort_key stored_order (map snd (filter (\<lambda>(k, _). k = (tenant, year)) (cd_rows db))))"

datatype mismatch = NotCached string | Differs string aggregate aggregate | NotInSource string

definition mismatch_key :: "mismatch \<Rightarrow> string" where
  "mismatch_key m = (case m of NotCached k \<Rightarrow> k | Differs k _ _ \<Rightarrow> k | NotInSource k \<Rightarrow> k)"

definition compare_row :: "aggregate \<Rightarrow> mismatch list \<times> (string \<times> aggregate) list \<Rightarrow> mismatch list \<times> (string \<times> aggregate) list" where
  "compare_row want s = (case s of (out, cached) \<Rightarrow>
     (case map_of cached (row_key want) of
        None \<Rightarrow> (out @ [NotCached (row_key want)], cached)
      | Some got \<Rightarrow> (if got \<noteq> want then out @ [Differs (row_key want) got want] else out, AList.delete (row_key want) cached)))"

definition verify :: "contribution_reader \<Rightarrow> string \<Rightarrow> int \<Rightarrow> cache_db \<Rightarrow> cache_error + mismatch list" where
  "verify source tenant year db =
     rbind (lift_error CacheSource (from_projection source tenant year)) (\<lambda>(fresh, _).
     rbind (read_cache tenant year db) (\<lambda>cached.
     case fold compare_row fresh ([], fold (\<lambda>r m. AList.update (row_key r) r m) cached []) of (out, extra) \<Rightarrow>
       Inr (sort_key mismatch_key (out @ map (\<lambda>(k, _). NotInSource k) extra))))"

text \<open>\<open>RebuildAll\<close>: every slice in turn; the first error is kept and does not stop the others.\<close>

definition rebuild_one :: "contribution_reader \<Rightarrow> string \<times> int \<Rightarrow>
  (nat \<times> ((string \<times> int) \<times> cache_error) option) \<times> cache_db \<Rightarrow> (nat \<times> ((string \<times> int) \<times> cache_error) option) \<times> cache_db" where
  "rebuild_one source slice s = (case s of ((built, first_error), db) \<Rightarrow>
     (case rebuild source (fst slice) (snd slice) db of
        Inl e \<Rightarrow> ((built, if first_error = None then Some (slice, e) else first_error), db)
      | Inr (_, db') \<Rightarrow> ((built + 1, first_error), db')))"

definition rebuild_all :: "contribution_reader \<Rightarrow> (string \<times> int) list \<Rightarrow> cache_db \<Rightarrow>
  (nat \<times> ((string \<times> int) \<times> cache_error) option) \<times> cache_db" where
  "rebuild_all source slices db = fold (rebuild_one source) slices ((0, None), db)"

text \<open>The query of \<open>RebuildAll\<close> over the stored entries.\<close>

definition slices_of :: "activity_row list \<Rightarrow> (string \<times> int) list" where
  "slices_of rows = sort (remdups (map (\<lambda>r. (ar_tenant r, ar_year r)) (filter (\<lambda>r. ar_tenant r \<noteq> []) rows)))"

end
