(* ===== verification/CacheLaws.thy ===== *)
theory CacheLaws
  imports AggregateCache
begin

text \<open>
  The cache of aggregates is exact after a rebuild: what is read back is what the projection gives, so
  that the verification finds nothing, whatever was cached before.
\<close>

section \<open>Keys and rows\<close>

definition text_ok :: "string \<Rightarrow> bool" where
  "text_ok s = (nul \<notin> set s)"

text \<open>PostgreSQL has no NUL in its texts; without one the key of a row determines its dimensions.\<close>

definition dimensions_ok :: "aggregate \<Rightarrow> bool" where
  "dimensions_ok a = (text_ok (ag_partner a) \<and> text_ok (ag_agreement a) \<and> text_ok (ag_category a) \<and> text_ok (ag_audience a))"

lemma nul_split:
  assumes "text_ok a" "text_ok b" "a @ nul # x = b @ nul # y"
  shows "a = b \<and> x = y"
  using assms
proof (induction a arbitrary: b)
  case Nil
  then show ?case by (cases b) (auto simp: text_ok_def)
next
  case (Cons c a)
  then show ?case by (cases b) (auto simp: text_ok_def)
qed

lemma row_key_inj:
  assumes "dimensions_ok a" "dimensions_ok b" "row_key a = row_key b"
  shows "aggregate_order a = aggregate_order b"
proof -
  have "ag_partner a = ag_partner b \<and> ag_agreement a @ nul # ag_category a @ nul # ag_audience a =
      ag_agreement b @ nul # ag_category b @ nul # ag_audience b"
    using assms by (intro nul_split) (simp_all add: row_key_def dimensions_ok_def)
  moreover from this have "ag_agreement a = ag_agreement b \<and> ag_category a @ nul # ag_audience a = ag_category b @ nul # ag_audience b"
    using assms by (intro nul_split) (simp_all add: dimensions_ok_def)
  moreover from this have "ag_category a = ag_category b \<and> ag_audience a = ag_audience b"
    using assms by (intro nul_split) (simp_all add: dimensions_ok_def)
  ultimately show ?thesis by (simp add: aggregate_order_def)
qed

lemma parse_stored:
  "\<forall>a \<in> set xs. 0 \<le> a \<and> a \<le> max_int64 \<Longrightarrow> parse_amounts (map money_string xs) = Inr xs"
  by (induction xs) (simp_all add: money_parse_string)

definition storable :: "aggregate \<Rightarrow> bool" where
  "storable a = (\<forall>x \<in> set (amounts_of a). 0 \<le> x \<and> x \<le> max_int64)"

lemma scan_stored: "storable a \<Longrightarrow> scan_row (store_row a) = Inr a"
  unfolding storable_def scan_row_def
  by (simp add: store_row_def parse_stored) (simp add: amounts_of_def lift_error_def)

lemma scan_rows_stored: "\<forall>a \<in> set as. storable a \<Longrightarrow> scan_rows (map store_row as) = Inr as"
  by (induction as) (simp_all add: scan_stored)

lemma sort_key_map: "sort_key f (map g xs) = map g (sort_key (f \<circ> g) xs)"
proof -
  have "insort_key f (g x) (map g ys) = map g (insort_key (f \<circ> g) x ys)" for x ys
    by (induction ys) auto
  then show ?thesis by (induction xs) auto
qed

text \<open>A sorted list with distinct keys is determined by its elements.\<close>

lemma sorted_keys_unique:
  assumes "mset xs = mset ys" "sorted (map f xs)" "sorted (map f ys)" "distinct (map f ys)"
  shows "xs = ys"
proof -
  have "mset (map f xs) = mset (map f ys)" using assms(1) by (simp only: mset_map)
  then have "distinct (map f xs)" using assms(4) by (metis mset_eq_imp_distinct_iff)
  then have keys: "map f xs = map f ys"
    using assms \<open>mset (map f xs) = mset (map f ys)\<close> by (intro sorted_distinct_set_unique) (auto dest: mset_eq_setD)
  have "set xs = set ys" using assms(1) by (rule mset_eq_setD)
  then have "inj_on f (set xs \<union> set ys)" using assms(4) by (simp add: distinct_map)
  then show ?thesis using keys map_inj_on by blast
qed

lemma sort_stored: "sort_key stored_order (map store_row as) = map store_row (sort_key aggregate_order as)"
proof -
  have "stored_order (store_row a) = aggregate_order a" for a
    by (simp add: stored_order_def store_row_def aggregate_order_def)
  then have "stored_order \<circ> store_row = aggregate_order" by (simp add: fun_eq_iff)
  then show ?thesis by (simp add: sort_key_map)
qed

section \<open>The comparison\<close>

lemma filter_delete: "filter (\<lambda>(k, _). k \<notin> A) (AList.delete x m) = filter (\<lambda>(k, _). k \<notin> insert x A) m"
  by (induction m) (auto simp: AList.delete_eq)

lemma fold_compare_equal:
  assumes "distinct (map row_key fresh)" "\<forall>a \<in> set fresh. map_of cached (row_key a) = Some a"
  shows "fold compare_row fresh (out, cached) = (out, filter (\<lambda>(k, _). k \<notin> set (map row_key fresh)) cached)"
  using assms
proof (induction fresh arbitrary: cached)
  case (Cons a fresh)
  have "map_of (AList.delete (row_key a) cached) (row_key b) = Some b" if b: "b \<in> set fresh" for b
  proof -
    have "row_key b \<noteq> row_key a" using Cons.prems(1) b by (metis distinct.simps(2) image_eqI list.simps(9) set_map)
    then show ?thesis using Cons.prems(2) b by (simp add: delete_conv')
  qed
  then have "fold compare_row fresh (out, AList.delete (row_key a) cached) =
      (out, filter (\<lambda>(k, _). k \<notin> set (map row_key fresh)) (AList.delete (row_key a) cached))"
    using Cons.prems(1) by (intro Cons.IH) auto
  moreover have "map_of cached (row_key a) = Some a" using Cons.prems(2) by simp
  then have "compare_row a (out, cached) = (out, AList.delete (row_key a) cached)" by (simp add: compare_row_def)
  ultimately show ?case by (simp add: filter_delete)
qed simp

lemma keyed_rows:
  "map_of (fold (\<lambda>r m. AList.update (row_key r) r m) xs m) k =
    (case find (\<lambda>r. row_key r = k) (rev xs) of None \<Rightarrow> map_of m k | Some r \<Rightarrow> Some r)"
  "set (map fst (fold (\<lambda>r m. AList.update (row_key r) r m) xs m)) = set (map row_key xs) \<union> set (map fst m)"
  by (induction xs arbitrary: m) (auto simp: update_conv find_append dom_update split: option.splits)

lemma compare_same_rows:
  assumes "distinct (map row_key fresh)" "set cached = set fresh"
  shows "fold compare_row fresh ([], fold (\<lambda>r m. AList.update (row_key r) r m) cached []) = ([], [])"
proof -
  let ?m = "fold (\<lambda>r m. AList.update (row_key r) r m) cached []"
  have "map_of ?m (row_key a) = Some a" if "a \<in> set fresh" for a
  proof -
    have "a \<in> set (rev cached)" using that assms(2) by simp
    then obtain r where r: "find (\<lambda>r. row_key r = row_key a) (rev cached) = Some r"
      using find_None_all [of "\<lambda>r. row_key r = row_key a" "rev cached"] by (cases "find (\<lambda>r. row_key r = row_key a) (rev cached)") auto
    then have "r \<in> set fresh" "row_key r = row_key a" using find_Some_mem [OF r] assms(2) by auto
    then have "r = a" using assms(1) that by (auto simp: distinct_map dest: inj_onD)
    then show ?thesis using r by (simp add: keyed_rows)
  qed
  moreover have "filter (\<lambda>(k, _). k \<notin> set (map row_key fresh)) ?m = []"
    using keyed_rows(2) [of cached "[]"] assms(2) by (force simp: filter_empty_conv)
  ultimately show ?thesis using fold_compare_equal [OF assms(1)] by simp
qed

text \<open>A comparison that reports nothing has found the same rows on both sides.\<close>

lemma compare_reports: "\<exists>more. fst (fold compare_row fresh (out, cached)) = out @ more"
proof (induction fresh arbitrary: out cached)
  case (Cons a fresh)
  obtain out1 cached1 where step: "compare_row a (out, cached) = (out1, cached1)" by fastforce
  then have "\<exists>x. out1 = out @ x" by (auto simp: compare_row_def split: option.splits if_splits)
  then show ?case using Cons.IH [of out1 cached1] step by auto
qed simp

lemma compare_silent:
  assumes "distinct (map row_key fresh)" "fst (fold compare_row fresh ([], cached)) = []"
  shows "\<forall>a \<in> set fresh. map_of cached (row_key a) = Some a"
  using assms
proof (induction fresh arbitrary: cached)
  case (Cons a fresh)
  obtain out1 cached1 where step: "compare_row a ([], cached) = (out1, cached1)" by fastforce
  then have "out1 = []" using compare_reports [of fresh out1 cached1] Cons.prems(2) by simp
  then have head: "map_of cached (row_key a) = Some a" and tail: "cached1 = AList.delete (row_key a) cached"
    using step by (auto simp: compare_row_def split: option.splits if_splits)
  have "\<forall>b \<in> set fresh. map_of cached1 (row_key b) = Some b"
    using Cons.IH [of cached1] Cons.prems step \<open>out1 = []\<close> by simp
  then have "\<forall>b \<in> set fresh. map_of cached (row_key b) = Some b"
    using Cons.prems(1) by (auto simp: tail delete_conv' split: if_splits)
  with head show ?case by simp
qed simp

lemma silent_same_rows:
  assumes "distinct (map row_key fresh)" "distinct (map row_key cached)"
    and "fold compare_row fresh ([], fold (\<lambda>r m. AList.update (row_key r) r m) cached []) = ([], [])"
  shows "set cached = set fresh"
proof -
  let ?m = "fold (\<lambda>r m. AList.update (row_key r) r m) cached []"
  have found: "\<forall>a \<in> set fresh. map_of ?m (row_key a) = Some a" using assms by (intro compare_silent) simp_all
  then have "filter (\<lambda>(k, _). k \<notin> set (map row_key fresh)) ?m = []"
    using fold_compare_equal [OF assms(1), of ?m "[]"] assms(3) by simp
  then have "set (map fst ?m) \<subseteq> set (map row_key fresh)" by (auto simp: filter_empty_conv)
  then have keys: "set (map row_key cached) \<subseteq> set (map row_key fresh)"
    unfolding keyed_rows(2) by simp
  have stored: "r \<in> set cached" if "map_of ?m k = Some r" for k r
    using that find_Some_mem [of "\<lambda>r. row_key r = k" "rev cached"] by (auto simp: keyed_rows split: option.splits)
  have "r \<in> set fresh" if r: "r \<in> set cached" for r
  proof -
    obtain a where a: "a \<in> set fresh" "row_key a = row_key r" using r keys by auto
    then have "a \<in> set cached" using found stored by blast
    then have "a = r" using assms(2) r a(2) by (auto simp: distinct_map dest: inj_onD)
    then show ?thesis using a(1) by simp
  qed
  then show ?thesis using found stored by blast
qed

section \<open>A rebuild is exact\<close>

text \<open>The rows of one slice of the table, and of the others.\<close>

lemma slice_other: "x \<noteq> y \<Longrightarrow> filter (\<lambda>(k, _). k = x) (filter (\<lambda>(k, _). k \<noteq> y) ps) = filter (\<lambda>(k, _). k = x) ps"
  by (induction ps) auto

lemma slice_same: "filter (\<lambda>(k, _). k = x) (filter (\<lambda>(k, _). k \<noteq> x) ps) = []"
  by (induction ps) auto

lemma slice_new:
  "filter (\<lambda>(k, _). k = x) (map (\<lambda>a. (y, f a)) as) = (if x = y then map (\<lambda>a. (y, f a)) as else [])"
  by (induction as) auto

lemma slice_rest:
  "filter (\<lambda>(k, _). k \<noteq> x) (filter (\<lambda>(k, _). k \<noteq> x) ps) = filter (\<lambda>(k, _). k \<noteq> x) ps"
  "filter (\<lambda>(k, _). k \<noteq> x) (map (\<lambda>a. (x, f a)) as) = []"
  by (induction ps) auto

text \<open>A reader of a text column promises texts without NUL as well.\<close>

locale text_reader = reader +
  assumes read_texts: "good s \<Longrightarrow> read s f = Inr cs \<Longrightarrow> c \<in> set cs \<Longrightarrow>
    text_ok (ct_partner c) \<and> text_ok (ct_agreement c) \<and> text_ok (ct_category c) \<and> text_ok (ct_audience c)"
begin

lemma source_rows:
  assumes "good s" "from_projection (read s) tenant year = Inr (rows, n)"
  shows "distinct (map row_key rows)" "\<forall>a \<in> set rows. storable a"
proof -
  obtain cs groups where cs: "read s (slice_filter tenant year) = Inr cs"
    and groups: "aggregate_contributions cs all_dimensions = Inr groups" and rows: "rows = sort_key row_key groups"
    using assms(2) by (auto simp: from_projection_def rbind_Inr)
  have lawful: "\<forall>c \<in> set cs. lawful c" using read_lawful [OF assms(1) cs] by blast
  from aggregates_totals [OF lawful, of all_dimensions] groups
  have d: "distinct (map aggregate_order groups)" and set: "set groups = group_total all_dimensions cs ` set cs"
    and fits: "\<forall>c \<in> set cs. fits (group_total all_dimensions cs c)" by auto
  have dims: "dimensions_ok a" if "a \<in> set groups" for a
  proof -
    from that obtain c where "c \<in> set cs" "a = group_total all_dimensions cs c" using set by auto
    then show ?thesis using read_texts [OF assms(1) cs]
      by (auto simp: dimensions_ok_def group_total_def tally_def group_start_def aggregate_key_def empty_aggregate_def text_ok_def)
  qed
  have "inj_on row_key (set groups)"
  proof (rule inj_onI)
    fix a b assume "a \<in> set groups" "b \<in> set groups" "row_key a = row_key b"
    then have "aggregate_order a = aggregate_order b" using row_key_inj dims by blast
    then show "a = b" using d \<open>a \<in> set groups\<close> \<open>b \<in> set groups\<close> by (auto simp: distinct_map dest: inj_onD)
  qed
  then show "distinct (map row_key rows)"
    unfolding rows using d by (intro distinct_sort_key) (simp add: distinct_map)
  show "\<forall>a \<in> set rows. storable a"
  proof
    fix a assume "a \<in> set rows"
    then obtain c where c: "c \<in> set cs" "a = group_total all_dimensions cs c" using rows set by auto
    have "\<forall>d \<in> set (members all_dimensions c cs). lawful d" using lawful by (rule members_lawful)
    from lawful_totals [OF this] fits c show "storable a"
      by (auto simp: storable_def amounts_of_def fits_def group_total_def tally_def)
  qed
qed

lemma rebuild_exact:
  assumes "good s" "rebuild (read s) tenant year db = Inr (n, db')"
  shows "verify (read s) tenant year db' = Inr []" "rebuild (read s) tenant year db' = Inr (n, db')"
    "(tenant', year') \<noteq> (tenant, year) \<Longrightarrow> read_cache tenant' year' db' = read_cache tenant' year' db"
    "\<exists>cs groups. read s (slice_filter tenant year) = Inr cs \<and> aggregate_contributions cs all_dimensions = Inr groups
      \<and> n = length groups \<and> read_cache tenant year db' = Inr groups
      \<and> (\<forall>other cached. verify (read s) tenant year other = Inr [] \<longrightarrow> read_cache tenant year other = Inr cached \<longrightarrow>
           distinct (map row_key cached) \<longrightarrow> set cached = set groups)"
proof -
  obtain rows k where rows: "from_projection (read s) tenant year = Inr (rows, k)" and n: "n = length rows"
    and year: "\<not> (rows \<noteq> [] \<and> (year < 2000 \<or> year > 2100))" and tenant: "tenant \<noteq> []"
    and db': "db' = db\<lparr>cd_rows := filter (\<lambda>(k, _). k \<noteq> (tenant, year)) (cd_rows db) @
          map (\<lambda>a. ((tenant, year), store_row a)) rows, cd_builds := AList.update (tenant, year) k (cd_builds db)\<rparr>"
    using assms(2) by (auto simp: rebuild_def rbind_Inr lift_error_Inr split: if_splits)
  have mine: "map snd (filter (\<lambda>(k, _). k = (tenant, year)) (cd_rows db')) = map store_row rows"
    unfolding db' by (simp add: slice_new slice_same comp_def del: filter_filter)
  have cached: "read_cache tenant year db' = Inr (sort_key aggregate_order rows)"
    unfolding read_cache_def mine sort_stored
    using source_rows(2) [OF assms(1) rows] by (intro scan_rows_stored) simp
  obtain cs groups where cs: "read s (slice_filter tenant year) = Inr cs"
    and groups: "aggregate_contributions cs all_dimensions = Inr groups" and sorted_rows: "rows = sort_key row_key groups"
    using rows by (auto simp: from_projection_def rbind_Inr)
  have "\<forall>c \<in> set cs. lawful c" using read_lawful [OF assms(1) cs] by blast
  from aggregates_totals [OF this, of all_dimensions] groups
  have order: "sorted (map aggregate_order groups)" "distinct (map aggregate_order groups)" by auto
  have "sort_key aggregate_order rows = groups"
  proof (rule sorted_keys_unique)
    show "mset (sort_key aggregate_order rows) = mset groups" by (simp add: sorted_rows)
  qed (use order in simp_all)
  moreover have "set other = set groups"
    if "verify (read s) tenant year d = Inr []" "read_cache tenant year d = Inr other" "distinct (map row_key other)" for d other
  proof -
    let ?result = "fold compare_row rows ([], fold (\<lambda>r m. AList.update (row_key r) r m) other [])"
    obtain out extra where r: "?result = (out, extra)" by fastforce
    then have "sort_key mismatch_key (out @ map (\<lambda>(k, _). NotInSource k) extra) = []"
      using that(1,2) rows by (simp add: verify_def lift_error_def)
    then have "set (out @ map (\<lambda>(k, _). NotInSource k) extra) = {}" by (metis set_empty set_sort)
    then have "?result = ([], [])" using r by simp
    from silent_same_rows [OF source_rows(1) [OF assms(1) rows] that(3) this] show ?thesis by (simp add: sorted_rows)
  qed
  moreover have "n = length groups" by (simp add: n sorted_rows)
  ultimately show "\<exists>cs groups. read s (slice_filter tenant year) = Inr cs \<and> aggregate_contributions cs all_dimensions = Inr groups
      \<and> n = length groups \<and> read_cache tenant year db' = Inr groups
      \<and> (\<forall>other cached. verify (read s) tenant year other = Inr [] \<longrightarrow> read_cache tenant year other = Inr cached \<longrightarrow>
           distinct (map row_key cached) \<longrightarrow> set cached = set groups)"
    using cs groups cached by metis
  show "verify (read s) tenant year db' = Inr []"
    using cached rows compare_same_rows [OF source_rows(1) [OF assms(1) rows], of "sort_key aggregate_order rows"]
    by (simp add: verify_def lift_error_def)
  show "rebuild (read s) tenant year db' = Inr (n, db')"
    using rows n year tenant unfolding rebuild_def db'
    by (simp add: lift_error_def slice_rest update_last del: filter_filter)
  show "(tenant', year') \<noteq> (tenant, year) \<Longrightarrow> read_cache tenant' year' db' = read_cache tenant' year' db"
    unfolding read_cache_def db' by (auto simp: slice_other slice_new simp del: filter_filter)
qed

end

section \<open>The cache of the stored entries\<close>

definition row_texts_ok :: "activity_row \<Rightarrow> bool" where
  "row_texts_ok row = (row_valid row \<and> text_ok (ar_partner row) \<and> text_ok (ar_agreement row) \<and> text_ok (ar_category row)
     \<and> text_ok (ar_audience row))"

lemma listed_row: "list_contributions rows now f = Inr cs \<Longrightarrow> c \<in> set cs \<Longrightarrow> \<exists>row \<in> set rows. c = project_row row now"
  by (auto simp: list_contributions_def split: if_splits)

interpretation stored: text_reader "\<lambda>(rows, now). list_contributions rows now" "\<lambda>(rows, now). list_all row_texts_ok rows"
proof unfold_locales
  fix s f cs c
  assume s: "case s of (rows, now) \<Rightarrow> list_all row_texts_ok rows" "(case s of (rows, now) \<Rightarrow> list_contributions rows now) f = Inr cs" "c \<in> set cs"
  obtain rows now where p: "s = (rows, now)" by (cases s)
  obtain row where row: "row_texts_ok row" "c = project_row row now"
    using s listed_row unfolding p prod.case list_all_iff by blast
  show "lawful c \<and> ordered_axes c" using row project_row_lawful by (simp add: row_texts_ok_def)
  show "text_ok (ct_partner c) \<and> text_ok (ct_agreement c) \<and> text_ok (ct_category c) \<and> text_ok (ct_audience c)"
    using row by (simp add: row_texts_ok_def project_row_def Let_def)
qed

text \<open>
  C25: whatever the cache held, after a rebuild the slice reads back as exactly the aggregation of
  the entries (the rows, their order and every amount, although amounts went through their decimal
  texts), and the verification of the slice against the same entries finds no mismatch. The
  verification is itself exact: when it reports nothing on any cache whose rows have different keys,
  that cache holds the same rows. Rebuilding again changes nothing, and the slices of other tenants
  and years read as before.
\<close>

theorem rebuilt_cache_is_exact:
  assumes "list_all row_texts_ok rows" "rebuild (list_contributions rows now) tenant year db = Inr (n, db')"
  shows "(\<exists>cs groups. list_contributions rows now (slice_filter tenant year) = Inr cs
      \<and> aggregate_contributions cs all_dimensions = Inr groups
      \<and> n = length groups \<and> read_cache tenant year db' = Inr groups
      \<and> (\<forall>other cached. verify (list_contributions rows now) tenant year other = Inr [] \<longrightarrow>
           read_cache tenant year other = Inr cached \<longrightarrow> distinct (map row_key cached) \<longrightarrow> set cached = set groups))
    \<and> verify (list_contributions rows now) tenant year db' = Inr []
    \<and> rebuild (list_contributions rows now) tenant year db' = Inr (n, db')
    \<and> (\<forall>slice. slice \<noteq> (tenant, year) \<longrightarrow> read_cache (fst slice) (snd slice) db' = read_cache (fst slice) (snd slice) db)"
  using stored.rebuild_exact [of "(rows, now)" tenant year db n db'] assms by simp

definition stale_cache :: cache_db where
  "stale_cache = \<lparr>cd_rows = [((''c1'', 2026), store_row (empty_aggregate ''p9'' [] ''top_it'' [])),
     ((''c2'', 2026), store_row (empty_aggregate ''p9'' [] ''top_it'' []))], cd_builds = []\<rparr>"

lemma club_rebuild:
  "\<exists>r. rebuild (list_contributions [club_row] 0) ''c1'' 2026 stale_cache = Inr r"
proof -
  have listed: "list_contributions [club_row] 0 (slice_filter ''c1'' 2026) = Inr [project_row club_row 0]"
    by (simp add: list_contributions_def slice_filter_def row_selected_def club_row_def)
  have "lawful (project_row club_row 0)"
    using project_row_lawful [of club_row 0] by (simp add: row_valid_def club_row_def)
  moreover have "fits (group_total all_dimensions [project_row club_row 0] (project_row club_row 0))"
    by (simp add: fits_def group_total_def members_def tally_def total_def planned_def factual_def eligible_def project_row_def Let_def
        club_row_def max_int64_def)
  ultimately obtain groups where "aggregate_contributions [project_row club_row 0] all_dimensions = Inr groups"
    using aggregates_totals [of "[project_row club_row 0]" all_dimensions]
    by (cases "aggregate_contributions [project_row club_row 0] all_dimensions") auto
  then show ?thesis by (simp add: rebuild_def from_projection_def listed lift_error_def)
qed

theorem rebuilt_cache_is_exact_witness:
  "\<exists>n db'. rebuild (list_contributions [club_row] 0) ''c1'' 2026 stale_cache = Inr (n, db')
    \<and> verify (list_contributions [club_row] 0) ''c1'' 2026 db' = Inr []
    \<and> read_cache ''c2'' 2026 db' = read_cache ''c2'' 2026 stale_cache"
proof -
  have rows: "list_all row_texts_ok [club_row]"
    by (simp add: row_texts_ok_def row_valid_def club_row_def text_ok_def nul_def)
  obtain n db' where r: "rebuild (list_contributions [club_row] 0) ''c1'' 2026 stale_cache = Inr (n, db')"
    using club_rebuild by auto
  have "(''c2'', 2026::int) \<noteq> (''c1'', 2026)" by simp
  then show ?thesis using rebuilt_cache_is_exact [OF rows r] r by fastforce
qed

end
