(* ===== verification/Sha256.thy ===== *)
theory Sha256
  imports AuditJournal
begin

text \<open>
  The \<open>crypto/sha256\<close> and \<open>encoding/hex\<close> of Go's standard library, as far as the store of files uses
  them: the digest of a byte string (FIPS 180-4), in lower-case hexadecimal.
\<close>

unbundle bit_operations_syntax

type_synonym u32 = "32 word"

definition rotr :: "nat \<Rightarrow> u32 \<Rightarrow> u32" where
  "rotr n x = drop_bit n x OR push_bit (32 - n) x"

definition round_constants :: "u32 list" where
  "round_constants =
   [1116352408, 1899447441, 3049323471, 3921009573, 961987163, 1508970993, 2453635748, 2870763221,
    3624381080, 310598401, 607225278, 1426881987, 1925078388, 2162078206, 2614888103, 3248222580,
    3835390401, 4022224774, 264347078, 604807628, 770255983, 1249150122, 1555081692, 1996064986,
    2554220882, 2821834349, 2952996808, 3210313671, 3336571891, 3584528711, 113926993, 338241895,
    666307205, 773529912, 1294757372, 1396182291, 1695183700, 1986661051, 2177026350, 2456956037,
    2730485921, 2820302411, 3259730800, 3345764771, 3516065817, 3600352804, 4094571909, 275423344,
    430227734, 506948616, 659060556, 883997877, 958139571, 1322822218, 1537002063, 1747873779,
    1955562222, 2024104815, 2227730452, 2361852424, 2428436474, 2756734187, 3204031479, 3329325298]"

definition initial_hash :: "u32 list" where
  "initial_hash = [1779033703, 3144134277, 1013904242, 2773480762, 1359893119, 2600822924, 528734635, 1541459225]"

definition big_endian :: "nat \<Rightarrow> int \<Rightarrow> int list" where
  "big_endian k n = map (\<lambda>i. n div 256 ^ (k - 1 - i) mod 256) [0..<k]"

definition padded :: "int list \<Rightarrow> int list" where
  "padded m = m @ 0x80 # replicate ((119 - length m mod 64) mod 64) 0 @ big_endian 8 (8 * int (length m) mod 2 ^ 64)"

definition word_of_bytes :: "int list \<Rightarrow> u32" where
  "word_of_bytes bs = word_of_int (fold (\<lambda>b a. 256 * a + b) bs 0)"

fun chunks :: "nat \<Rightarrow> int list \<Rightarrow> nat \<Rightarrow> int list list" where
  "chunks 0 bs w = []"
| "chunks (Suc n) bs w = take w bs # chunks n (drop w bs) w"

text \<open>The message schedule: each new word from four of the sixteen before it.\<close>

definition next_word :: "u32 list \<Rightarrow> u32" where
  "next_word ws =
     (let x = ws ! 14; y = ws ! 1;
          s1 = rotr 17 x XOR rotr 19 x XOR drop_bit 10 x; s0 = rotr 7 y XOR rotr 18 y XOR drop_bit 3 y
      in s1 + ws ! 9 + s0 + ws ! 0)"

fun schedule :: "nat \<Rightarrow> u32 list \<Rightarrow> u32 list" where
  "schedule 0 ws = []"
| "schedule (Suc n) ws = ws ! 0 # schedule n (tl ws @ [next_word ws])"

definition round_step :: "u32 \<times> u32 \<Rightarrow> u32 list \<Rightarrow> u32 list" where
  "round_step kw s = (case s of [a, b, c, d, e, f, g, h] \<Rightarrow>
     (let t1 = h + (rotr 6 e XOR rotr 11 e XOR rotr 25 e) + ((e AND f) XOR (NOT e AND g)) + fst kw + snd kw;
          t2 = (rotr 2 a XOR rotr 13 a XOR rotr 22 a) + ((a AND b) XOR (a AND c) XOR (b AND c))
      in [t1 + t2, a, b, c, d + t1, e, f, g]) | _ \<Rightarrow> s)"

definition compress :: "int list \<Rightarrow> u32 list \<Rightarrow> u32 list" where
  "compress block hash =
     map (\<lambda>(a, b). a + b) (zip hash
       (fold round_step (zip round_constants (schedule 64 (map word_of_bytes (chunks 16 block 4)))) hash))"

definition sha256_words :: "int list \<Rightarrow> u32 list" where
  "sha256_words m = (let p = padded m in fold compress (chunks (length p div 64) p 64) initial_hash)"

definition hex_word :: "u32 \<Rightarrow> string" where
  "hex_word w = concat (map (\<lambda>b. [hex_digit (nat (b div 16)), hex_digit (nat (b mod 16))]) (big_endian 4 (uint w)))"

definition sha256_hex_of :: "string \<Rightarrow> string" where
  "sha256_hex_of s = concat (map hex_word (sha256_words (map of_char s)))"

section \<open>The form of a digest\<close>

definition is_lower_hex :: "char \<Rightarrow> bool" where
  "is_lower_hex c = (is_digit c \<or> in_range 97 102 (byte c))"

lemma hex_digit_lower: "n < 16 \<Longrightarrow> is_lower_hex (hex_digit n)"
  by (simp add: hex_digit_def is_lower_hex_def is_digit_def in_range_def of_char_chr)

lemma hex_word_form: "length (hex_word w) = 8" "list_all is_lower_hex (hex_word w)"
  by (simp_all add: hex_word_def big_endian_def upt_rec list_all_iff hex_digit_lower nat_less_iff)

lemma length_round_step: "length s = 8 \<Longrightarrow> length (round_step kw s) = 8"
  by (auto simp: round_step_def Let_def split: list.splits)

lemma length_rounds: "length s = 8 \<Longrightarrow> length (fold round_step kws s) = 8"
  by (induction kws arbitrary: s) (simp_all add: length_round_step)

lemma length_compress: "length s = 8 \<Longrightarrow> length (compress b s) = 8"
  by (simp add: compress_def length_rounds)

lemma length_sha256_words: "length (sha256_words m) = 8"
proof -
  have "length (fold compress bs s) = 8" if "length s = 8" for bs s
    using that by (induction bs arbitrary: s) (simp_all add: length_compress)
  then show ?thesis by (simp add: sha256_words_def Let_def initial_hash_def)
qed

lemma sha256_form [simp]: "length (sha256_hex_of s) = 64" "list_all is_lower_hex (sha256_hex_of s)"
proof -
  have "sum_list (map (\<lambda>w. length (hex_word w)) ws) = 8 * length ws" for ws
    by (induction ws) (simp_all add: hex_word_form)
  then show "length (sha256_hex_of s) = 64"
    by (simp add: sha256_hex_of_def length_concat comp_def length_sha256_words)
  show "list_all is_lower_hex (sha256_hex_of s)"
    using hex_word_form(2) by (auto simp: sha256_hex_of_def list_all_iff)
qed

end
