(* ===== verification/BlobStore.thy ===== *)
theory BlobStore
  imports Sha256 Checks
begin

text \<open>
  \<open>backend/internal/filestore\<close>: the store of files, addressed by the SHA-256 of their content
  (\<open>cas.go\<close>), the check of what may be uploaded and the antivirus scan (\<open>inspect.go\<close>). The store maps
  paths below its root to the bytes on disk; a file being written exists only under a temporary name
  and is not shown. The compressor, the detection of content types, the reader of zip archives and
  the answers of the scanner are arguments: they are not code of this repository, or are judged only
  by their result.
\<close>

section \<open>Paths\<close>

type_synonym files = "(string \<times> string) list"

record store_env =
  se_pack :: "string \<Rightarrow> string"
  se_unpack :: "string \<Rightarrow> string option"
  se_detect :: "string \<Rightarrow> string"
  se_zip :: "string \<Rightarrow> (string \<times> int) list option"
  se_scanner :: "(string \<Rightarrow> string option) option"

definition has_suffix :: "string \<Rightarrow> string \<Rightarrow> bool" where
  "has_suffix s t = (length t \<le> length s \<and> drop (length s - length t) s = t)"

definition trim_suffix :: "string \<Rightarrow> string \<Rightarrow> string" where
  "trim_suffix s t = (if has_suffix s t then take (length s - length t) s else s)"

definition has_prefix :: "string \<Rightarrow> string \<Rightarrow> bool" where
  "has_prefix s t = (take (length t) s = t)"

definition trim_prefix :: "string \<Rightarrow> string \<Rightarrow> string" where
  "trim_prefix s t = (if has_prefix s t then drop (length t) s else s)"

definition contains_text :: "string \<Rightarrow> string \<Rightarrow> bool" where
  "contains_text s t = list_ex (\<lambda>i. has_prefix (drop i s) t) [0..<length s + 1]"

definition blob_root :: string where "blob_root = ''blobs''"

definition blob_location :: "string \<Rightarrow> string" where
  "blob_location digest = blob_root @ ''/'' @ take 2 digest @ ''/'' @ digest"

definition compressed_blob_location :: "string \<Rightarrow> string" where
  "compressed_blob_location digest = blob_location digest @ ''.zst''"

text \<open>\<open>hex.DecodeString\<close> succeeds on pairs of hexadecimal digits of either case.\<close>

definition is_any_hex :: "char \<Rightarrow> bool" where
  "is_any_hex c = (is_lower_hex c \<or> in_range 65 70 (byte c))"

definition is_blob_path :: "string \<Rightarrow> bool" where
  "is_blob_path path = (case split_on (CHR ''/'') path of
     [a, b, c] \<Rightarrow> a = blob_root \<and>
       (let name = trim_suffix c ''.zst'' in
        length name = 64 \<and> (c = name \<or> c = name @ ''.zst'') \<and> b = take 2 name \<and> list_all is_any_hex name)
   | _ \<Rightarrow> False)"

definition base_name :: "string \<Rightarrow> string" where
  "base_name path = last (split_on (CHR ''/'') path)"

section \<open>Files\<close>

definition max_decoded_blob_size :: int where "max_decoded_blob_size = 20 * 2 ^ 20"

text \<open>\<open>Open\<close>: the content of a file, decompressed where the path is that of a compressed blob.\<close>

definition open_file :: "store_env \<Rightarrow> files \<Rightarrow> string \<Rightarrow> string option" where
  "open_file env fs path = (case map_of fs path of
     None \<Rightarrow> None
   | Some raw \<Rightarrow>
       if \<not> has_suffix path ''.zst'' \<or> \<not> is_blob_path path then Some raw
       else (case se_unpack env raw of
           None \<Rightarrow> None
         | Some decoded \<Rightarrow> if int (length decoded) > max_decoded_blob_size then None else Some decoded))"

definition remove_file :: "string \<Rightarrow> files \<Rightarrow> files" where
  "remove_file path fs = AList.delete path fs"

definition verify_blob :: "store_env \<Rightarrow> files \<Rightarrow> string \<Rightarrow> bool" where
  "verify_blob env fs path =
     (is_blob_path path \<and> (case open_file env fs path of
        None \<Rightarrow> False
      | Some content \<Rightarrow> sha256_hex_of content = trim_suffix (base_name path) ''.zst''))"

record blob =
  bl_path :: string
  bl_sha :: string
  bl_size :: int
  bl_shared :: bool

datatype blob_error = BadLimit | BlobTooLarge | BlobDamaged

definition create_blob :: "store_env \<Rightarrow> string \<Rightarrow> int \<Rightarrow> files \<Rightarrow> blob_error + (blob \<times> files)" where
  "create_blob env src limit fs =
     (if limit \<le> 0 then Inl BadLimit
      else if int (length src) > limit then Inl BlobTooLarge
      else let digest = sha256_hex_of src; path = compressed_blob_location digest; legacy = blob_location digest;
               result = \<lparr>bl_path = path, bl_sha = digest, bl_size = int (length src), bl_shared = False\<rparr>
           in if map_of fs path \<noteq> None
              then (if verify_blob env fs path then Inr (result\<lparr>bl_shared := True\<rparr>, fs) else Inl BlobDamaged)
              else if map_of fs legacy \<noteq> None
              then (if verify_blob env fs legacy then Inr (result\<lparr>bl_path := legacy, bl_shared := True\<rparr>, fs) else Inl BlobDamaged)
              else Inr (result, AList.update path (se_pack env src) fs))"

section \<open>What may be uploaded\<close>

datatype file_error =
    FileName
  | FileKind
  | OfficeDamaged
  | OfficeTooComplex
  | OfficeActive
  | OfficeTooLarge
  | FileContent

text \<open>\<open>filepath.Ext\<close>: from the last dot of the last element of the path.\<close>

definition file_ext :: "string \<Rightarrow> string" where
  "file_ext name = (let parts = split_on (CHR ''.'') (base_name name)
     in if length parts > 1 then CHR ''.'' # last parts else [])"

definition office_part :: "string \<times> int \<Rightarrow> int \<Rightarrow> file_error + int" where
  "office_part item acc = (case item of (name, n) \<Rightarrow>
     (let lower = to_lower name in
      if contains_text lower ''vbaproject'' \<or> contains_text lower ''/embeddings/'' \<or> n > 64 * 2 ^ 20 then Inl OfficeActive
      else if acc + n > 128 * 2 ^ 20 then Inl OfficeTooLarge
      else Inr (acc + n)))"

definition office_main :: "string \<Rightarrow> string" where
  "office_main ext = (if ext = ''.docx'' then ''word/document.xml'' else if ext = ''.xlsx'' then ''xl/workbook.xml''
     else ''ppt/presentation.xml'')"

definition validate_office :: "store_env \<Rightarrow> string \<Rightarrow> string \<Rightarrow> file_error + unit" where
  "validate_office env ext content = (case se_zip env content of
     None \<Rightarrow> Inl OfficeDamaged
   | Some items \<Rightarrow>
       if length items > 2000 then Inl OfficeTooComplex
       else rbind (fold_result office_part items 0) (\<lambda>_.
         if ''[Content_Types].xml'' \<in> set (map fst items) \<and> office_main ext \<in> set (map fst items)
         then Inr () else Inl FileContent))"

definition validate_file :: "store_env \<Rightarrow> string \<Rightarrow> string \<Rightarrow> file_error + unit" where
  "validate_file env name content =
     (if list_ex (\<lambda>(r, _). is_control_rune r) (runes name) then Inl FileName
      else let buf = take 512 content; mime = se_detect env buf; ext = to_lower (file_ext name) in
        if ext = ''.pdf'' then require (has_prefix buf ''%PDF-'') FileContent
        else if ext = ''.png'' then require (mime = ''image/png'') FileContent
        else if ext = ''.jpg'' \<or> ext = ''.jpeg'' then require (mime = ''image/jpeg'') FileContent
        else if ext = ''.txt'' \<or> ext = ''.csv'' then require (has_prefix mime ''text/plain'') FileContent
        else if ext = ''.docx'' \<or> ext = ''.xlsx'' \<or> ext = ''.pptx'' then validate_office env ext content
        else Inl FileKind)"

section \<open>Antivirus\<close>

datatype verdict = VerdictClean | VerdictInfected | VerdictUnavailable | VerdictSkipped

record scan_result =
  sc_verdict :: verdict
  sc_signature :: string

definition nul_byte :: char where "nul_byte = CHR 0x00"

text \<open>The answer up to its first zero byte, when that comes among the first 4097 bytes.\<close>

definition read_response :: "string \<Rightarrow> string option" where
  "read_response reply =
     (let t = take 4097 reply in if nul_byte \<in> set t then Some (takeWhile (\<lambda>c. c \<noteq> nul_byte) t @ [nul_byte]) else None)"

definition inspect :: "store_env \<Rightarrow> string \<Rightarrow> scan_result" where
  "inspect env content = (case se_scanner env of
     None \<Rightarrow> \<lparr>sc_verdict = VerdictSkipped, sc_signature = []\<rparr>
   | Some scanner \<Rightarrow> (case scanner content of
       None \<Rightarrow> \<lparr>sc_verdict = VerdictUnavailable, sc_signature = []\<rparr>
     | Some reply \<Rightarrow> (case read_response reply of
         None \<Rightarrow> \<lparr>sc_verdict = VerdictUnavailable, sc_signature = []\<rparr>
       | Some response \<Rightarrow>
           if length response > 4096 then \<lparr>sc_verdict = VerdictUnavailable, sc_signature = []\<rparr>
           else if response = ''stream: OK'' @ [nul_byte] then \<lparr>sc_verdict = VerdictClean, sc_signature = []\<rparr>
           else \<lparr>sc_verdict = VerdictInfected, sc_signature = trim_space (trim_suffix (trim_prefix
                  (trim_suffix response [nul_byte]) ''stream: '') '' FOUND'')\<rparr>)))"

section \<open>Addresses\<close>

lemma split_on_free: "d \<notin> set s \<Longrightarrow> split_on d s = [s]"
  by (induction s) auto

lemma split_on_append: "d \<notin> set s \<Longrightarrow> split_on d (s @ d # t) = s # split_on d t"
  by (induction s) auto

lemma lower_hex_no_mark: "is_lower_hex c \<Longrightarrow> c \<noteq> CHR ''/'' \<and> c \<noteq> CHR ''.'' \<and> c \<noteq> CHR ''z''"
  by (auto simp: is_lower_hex_def is_digit_def in_range_def)

lemma digest_free: "CHR ''/'' \<notin> set (sha256_hex_of s)" "CHR ''.'' \<notin> set (sha256_hex_of s)" "CHR ''z'' \<notin> set (sha256_hex_of s)"
  using sha256_form(2) [of s] lower_hex_no_mark by (auto simp: list_all_iff)

lemma split_location:
  assumes "CHR ''/'' \<notin> set digest" "CHR ''/'' \<notin> set t"
  shows "split_on (CHR ''/'') (blob_location digest @ t) = [blob_root, take 2 digest, digest @ t]"
proof -
  have "CHR ''/'' \<notin> set blob_root" "CHR ''/'' \<notin> set (take 2 digest)" "CHR ''/'' \<notin> set (digest @ t)"
    using assms by (auto simp: blob_root_def dest: in_set_takeD)
  then show ?thesis by (simp add: blob_location_def split_on_append split_on_free)
qed

lemma trim_suffix_append [simp]: "trim_suffix (s @ t) t = s"
  by (simp add: trim_suffix_def has_suffix_def)

lemma no_zst_suffix: "CHR ''z'' \<notin> set s \<Longrightarrow> \<not> has_suffix s ''.zst''"
proof
  assume z: "CHR ''z'' \<notin> set s" and "has_suffix s ''.zst''"
  then have "set ''.zst'' \<subseteq> set s" unfolding has_suffix_def using set_drop_subset by metis
  then show False using z by auto
qed

lemma trim_suffix_digest: "trim_suffix (sha256_hex_of s) ''.zst'' = sha256_hex_of s"
  by (simp add: trim_suffix_def no_zst_suffix digest_free)

lemma digest_any_hex: "list_all is_any_hex (sha256_hex_of s)"
  using sha256_form(2) [of s] by (auto simp: list_all_iff is_any_hex_def)

lemma compressed_location:
  "is_blob_path (compressed_blob_location (sha256_hex_of s))"
  "trim_suffix (base_name (compressed_blob_location (sha256_hex_of s))) ''.zst'' = sha256_hex_of s"
  "has_suffix (compressed_blob_location (sha256_hex_of s)) ''.zst''"
  using split_location [of "sha256_hex_of s" "''.zst''"]
  by (simp_all add: is_blob_path_def compressed_blob_location_def base_name_def digest_free digest_any_hex Let_def has_suffix_def)

lemma legacy_location:
  "is_blob_path (blob_location (sha256_hex_of s))"
  "trim_suffix (base_name (blob_location (sha256_hex_of s))) ''.zst'' = sha256_hex_of s"
  using split_location [of "sha256_hex_of s" "[]"]
  by (simp_all add: is_blob_path_def base_name_def digest_free digest_any_hex Let_def trim_suffix_digest)

section \<open>Blobs keep their content\<close>

text \<open>What the code relies on of the compressor: what it writes it reads back.\<close>

definition faithful :: "store_env \<Rightarrow> bool" where
  "faithful env = (\<forall>s. se_unpack env (se_pack env s) = Some s)"

lemma map_of_delete_file: "map_of (AList.delete p fs) q = (if p = q then None else map_of fs q)"
  by (simp add: delete_conv')

lemma open_remove: "p \<noteq> q \<Longrightarrow> open_file env (remove_file p fs) q = open_file env fs q"
  by (simp add: open_file_def remove_file_def map_of_delete_file)

lemma open_update: "p \<noteq> q \<Longrightarrow> open_file env (AList.update p raw fs) q = open_file env fs q"
  by (simp add: open_file_def map_of_update_other)

lemma create_blob_result:
  assumes "create_blob env src limit fs = Inr (b, fs')" "faithful env" "limit \<le> max_decoded_blob_size"
  shows "bl_sha b = sha256_hex_of src" "bl_size b = int (length src)" "int (length src) \<le> limit"
    "\<exists>content. open_file env fs' (bl_path b) = Some content \<and> sha256_hex_of content = sha256_hex_of src"
    "\<And>p. map_of fs p \<noteq> None \<Longrightarrow> open_file env fs' p = open_file env fs p \<and> map_of fs' p \<noteq> None"
    "bl_shared b \<Longrightarrow> fs' = fs" "\<not> bl_shared b \<Longrightarrow> map_of fs (bl_path b) = None"
    "\<not> bl_shared b \<Longrightarrow> open_file env fs' (bl_path b) = Some src"
proof -
  let ?digest = "sha256_hex_of src"
  let ?path = "compressed_blob_location ?digest" and ?legacy = "blob_location ?digest"
  have limit: "\<not> limit \<le> 0" "\<not> int (length src) > limit" using assms(1) by (auto simp: create_blob_def split: if_splits)
  then show "int (length src) \<le> limit" by simp
  consider (shared) "fs' = fs" "verify_blob env fs (bl_path b)" "bl_sha b = ?digest" "bl_size b = int (length src)" "bl_shared b"
      "bl_path b = ?path \<or> bl_path b = ?legacy"
    | (fresh) "fs' = AList.update ?path (se_pack env src) fs" "map_of fs ?path = None" "bl_path b = ?path" "bl_sha b = ?digest"
      "bl_size b = int (length src)" "\<not> bl_shared b"
    using assms(1) limit by (auto simp: create_blob_def Let_def split: if_splits)
  note cases = this
  have fresh_open: "open_file env (AList.update ?path (se_pack env src) fs) ?path = Some src"
    using assms(2,3) limit compressed_location [of src] by (simp add: open_file_def faithful_def)
  show "bl_sha b = ?digest" "bl_size b = int (length src)" using cases by (cases, simp_all)+
  show "\<exists>content. open_file env fs' (bl_path b) = Some content \<and> sha256_hex_of content = ?digest"
  proof (cases rule: cases)
    case shared
    then have "trim_suffix (base_name (bl_path b)) ''.zst'' = ?digest" using compressed_location legacy_location by metis
    then show ?thesis using shared by (auto simp: verify_blob_def split: option.splits)
  qed (use fresh_open in simp)
  show "open_file env fs' p = open_file env fs p \<and> map_of fs' p \<noteq> None" if p: "map_of fs p \<noteq> None" for p
  proof (cases rule: cases)
    case fresh
    with p have "?path \<noteq> p" by metis
    with fresh(1) p show ?thesis by (simp only: open_update map_of_update_other not_False_eq_True)
  next
    case shared
    from p show ?thesis unfolding shared(1) by blast
  qed
  show "bl_shared b \<Longrightarrow> fs' = fs" using cases by blast
  show "\<not> bl_shared b \<Longrightarrow> map_of fs (bl_path b) = None" using cases by metis
  show "\<not> bl_shared b \<Longrightarrow> open_file env fs' (bl_path b) = Some src" using cases fresh_open by metis
qed

end
