(* ===== verification/Access.thy ===== *)
theory Access
  imports Rbac
begin

text \<open>
  \<open>backend/internal/handlers/access.go\<close>: what an authenticated user may do, and which partners and
  entries he may reach. A refusal is the status of the response; the queries always answer, so the
  statuses of a broken database do not occur.
\<close>

section \<open>Users\<close>

record auth_user =
  au_id :: string
  au_role :: role
  au_entity :: string
  au_partner :: "string option"
  au_company :: "string option"

type_synonym status = nat

text \<open>The columns of partners and entries that access depends on.\<close>

record tenant_db =
  td_partners :: "(string \<times> string option) list"
  td_entries :: "(string \<times> (string \<times> string option)) list"

definition valid_role :: "role \<Rightarrow> bool" where
  "valid_role r = (r \<in> {''super_admin'', ''holding_admin'', ''org_admin'', ''curator'', ''hr_specialist'',
     ''financial_specialist'', ''legal_specialist'', ''auditor_viewer''})"

section \<open>Rights\<close>

definition it_company_scope :: "auth_user \<Rightarrow> string" where
  "it_company_scope u = (case au_company u of
     Some c \<Rightarrow> c
   | None \<Rightarrow> if au_entity u = ''organization'' then ''unassigned'' else [])"

definition require_it_company_for_write :: "auth_user \<Rightarrow> status + string" where
  "require_it_company_for_write u = (case au_company u of
     None \<Rightarrow> Inl 403
   | Some c \<Rightarrow> if c = [] then Inl 403 else Inr c)"

definition is_staff :: "auth_user \<Rightarrow> bool" where
  "is_staff u =
     (if au_role u = ''super_admin'' \<or> au_role u = ''holding_admin'' then True
      else au_entity u = ''organization'' \<and> (au_role u = ''org_admin'' \<or> au_role u = ''curator''))"

definition can_read_tenant_data :: "auth_user \<Rightarrow> bool" where
  "can_read_tenant_data u = (is_staff u \<or> au_entity u = ''organization'' \<and> valid_role (au_role u))"

definition can_prepare_reports :: "auth_user \<Rightarrow> bool" where
  "can_prepare_reports u = (if au_entity u = ''edu_institution'' then False else allows (au_role u) prepare_reports)"

definition can_edit_entry_category :: "auth_user \<Rightarrow> string \<Rightarrow> bool" where
  "can_edit_entry_category u category =
     (if can_prepare_reports u then True
      else if au_entity u = ''edu_institution'' then False
      else if au_role u = ''hr_specialist'' then category = ''internship'' \<or> category = ''employment_practice''
      else if au_role u = ''financial_specialist'' then category = ''teachers''
      else False)"

definition can_edit_any_entry :: "auth_user \<Rightarrow> bool" where
  "can_edit_any_entry u = (if au_entity u = ''edu_institution'' then False else allows (au_role u) edit_any_entry)"

definition can_create_entry_category :: "auth_user \<Rightarrow> string \<Rightarrow> bool" where
  "can_create_entry_category u category =
     (if can_prepare_reports u then True
      else au_entity u \<noteq> ''edu_institution'' \<and> au_role u = ''hr_specialist''
        \<and> (category = ''internship'' \<or> category = ''employment_practice''))"

definition can_create_any_entry :: "auth_user \<Rightarrow> bool" where
  "can_create_any_entry u = (au_entity u \<noteq> ''edu_institution'' \<and> allows (au_role u) create_any_entry)"

definition can_upload_document :: "auth_user \<Rightarrow> string \<Rightarrow> string \<Rightarrow> bool" where
  "can_upload_document u category document =
     (if au_entity u = ''edu_institution'' then au_role u = ''curator'' \<and> document = ''outgoing_certificate''
      else if au_role u = ''super_admin'' \<or> au_role u = ''holding_admin'' \<or> au_role u = ''org_admin'' then True
      else if (category = ''internship'' \<or> category = ''employment_practice'')
         \<and> (document = ''labor_contract'' \<or> document = ''incoming_certificate'' \<or> document = ''mentor_order'')
        then au_role u = ''hr_specialist''
      else if document = ''outgoing_certificate'' then au_role u = ''curator''
      else if category = ''teachers'' \<and> document = ''payment_order'' then au_role u = ''financial_specialist''
      else au_role u = ''curator'')"

definition can_upload_any_document :: "auth_user \<Rightarrow> bool" where
  "can_upload_any_document u =
     (if au_entity u = ''edu_institution'' then au_role u = ''curator''
      else au_role u \<in> {''super_admin'', ''holding_admin'', ''org_admin'', ''curator'', ''hr_specialist'', ''financial_specialist''})"

definition is_education_representative :: "auth_user \<Rightarrow> bool" where
  "is_education_representative u =
     (au_entity u = ''edu_institution'' \<and> (case au_partner u of None \<Rightarrow> False | Some p \<Rightarrow> p \<noteq> []))"

definition can_review_report :: "auth_user \<Rightarrow> string \<Rightarrow> bool" where
  "can_review_report u period =
     (if period \<noteq> ''fact'' then can_prepare_reports u
      else is_education_representative u \<or> au_entity u \<noteq> ''edu_institution''
        \<and> (au_role u = ''super_admin'' \<or> au_role u = ''org_admin'' \<or> au_role u = ''legal_specialist''))"

definition can_approve_reports :: "auth_user \<Rightarrow> bool" where
  "can_approve_reports u = (au_entity u \<noteq> ''edu_institution'' \<and> allows (au_role u) approve_reports)"

definition can_manage_it_companies :: "auth_user \<Rightarrow> bool" where
  "can_manage_it_companies u = allows (au_role u) manage_it_companies"

definition can_view_it_companies :: "auth_user \<Rightarrow> bool" where
  "can_view_it_companies u = valid_role (au_role u)"

definition can_review_education_directory :: "auth_user \<Rightarrow> bool" where
  "can_review_education_directory u =
     (if au_entity u = ''organization'' then True else au_role u = ''curator'' \<and> au_entity u = ''edu_institution'')"

definition can_manage_partner_structure :: "auth_user \<Rightarrow> bool" where
  "can_manage_partner_structure u =
     (if au_role u = ''super_admin'' \<or> au_role u = ''holding_admin'' then True
      else if au_entity u = ''organization'' then au_role u = ''org_admin'' \<or> au_role u = ''curator''
      else au_entity u = ''edu_institution'' \<and> au_role u = ''curator'')"

definition can_propose_education_directory :: "auth_user \<Rightarrow> bool" where
  "can_propose_education_directory u = (au_entity u = ''organization'' \<and> allows (au_role u) propose_education_directory)"

definition can_approve_education_directory :: "auth_user \<Rightarrow> bool" where
  "can_approve_education_directory u = (au_entity u = ''organization'' \<and> allows (au_role u) approve_education_directory)"

section \<open>Reach\<close>

definition can_access_partner :: "auth_user \<Rightarrow> string \<Rightarrow> bool" where
  "can_access_partner u partner =
     (if au_entity u = ''edu_institution'' then au_partner u = Some partner \<and> partner \<noteq> []
      else if au_entity u = ''organization'' \<and> au_role u = ''curator'' then au_partner u = Some partner \<and> partner \<noteq> []
      else can_read_tenant_data u)"

definition require_partner :: "auth_user \<Rightarrow> string \<Rightarrow> status + unit" where
  "require_partner u partner = require (can_access_partner u partner) 403"

definition unassigned_operator :: "auth_user \<Rightarrow> bool" where
  "unassigned_operator u = (au_entity u = [] \<and> au_company u = None
     \<and> (au_role u = ''super_admin'' \<or> au_role u = ''holding_admin''))"

definition require_partner_tenant :: "tenant_db \<Rightarrow> auth_user \<Rightarrow> string \<Rightarrow> status + unit" where
  "require_partner_tenant db u partner =
     rbind (require_partner u partner) (\<lambda>_.
     if au_entity u = ''edu_institution'' \<or> unassigned_operator u then Inr ()
     else (case au_company u of
         None \<Rightarrow> Inl 403
       | Some c \<Rightarrow> require (map_of (td_partners db) partner = Some (Some c)) 403))"

definition require_entry :: "tenant_db \<Rightarrow> auth_user \<Rightarrow> string \<Rightarrow> status + unit" where
  "require_entry db u entry = (case map_of (td_entries db) entry of
     None \<Rightarrow> Inl 404
   | Some (_, partner) \<Rightarrow> require_partner_tenant db u (case partner of None \<Rightarrow> [] | Some p \<Rightarrow> p))"

definition partner_scope :: "auth_user \<Rightarrow> string \<Rightarrow> string" where
  "partner_scope u requested =
     (case au_partner u of
        Some p \<Rightarrow>
          if au_entity u = ''edu_institution'' then p
          else if au_entity u = ''organization'' \<and> au_role u = ''curator'' then (if p \<noteq> [] then p else ''unassigned'')
          else if can_read_tenant_data u then requested else ''unassigned''
      | None \<Rightarrow>
          if au_entity u = ''edu_institution'' then ''unassigned''
          else if au_entity u = ''organization'' \<and> au_role u = ''curator'' then ''unassigned''
          else if can_read_tenant_data u then requested else ''unassigned'')"

section \<open>Laws\<close>

lemma allows_rows:
  "allows r prepare_reports \<longleftrightarrow> r \<in> {''super_admin'', ''holding_admin'', ''org_admin'', ''curator''}"
  "allows r edit_any_entry \<longleftrightarrow> r \<in> {''super_admin'', ''holding_admin'', ''org_admin'', ''curator'', ''hr_specialist'', ''financial_specialist''}"
  "allows r create_any_entry \<longleftrightarrow> r \<in> {''super_admin'', ''holding_admin'', ''org_admin'', ''curator'', ''hr_specialist''}"
  "allows r approve_reports \<longleftrightarrow> r \<in> {''super_admin'', ''holding_admin'', ''org_admin''}"
  by (auto simp: allows_def roles_def permission_names)

text \<open>The reach of a user: the partners his queries may concern.\<close>

definition in_reach :: "tenant_db \<Rightarrow> auth_user \<Rightarrow> string \<Rightarrow> bool" where
  "in_reach db u partner =
     (if au_entity u = ''edu_institution'' then au_partner u = Some partner \<and> partner \<noteq> []
      else unassigned_operator u
        \<or> (\<exists>c. au_company u = Some c \<and> map_of (td_partners db) partner = Some (Some c)
            \<and> (au_entity u = ''organization'' \<and> au_role u = ''curator'' \<longrightarrow> au_partner u = Some partner)
            \<and> (au_entity u = ''organization'' \<or> au_role u = ''super_admin'' \<or> au_role u = ''holding_admin'')))"

lemma require_partner_tenant_reach:
  "require_partner_tenant db u partner = Inr () \<Longrightarrow> in_reach db u partner"
  by (auto simp: require_partner_tenant_def require_partner_def can_access_partner_def in_reach_def
      can_read_tenant_data_def is_staff_def result_simps split: option.splits if_splits)

lemma require_entry_reach:
  assumes "require_entry db u entry = Inr ()"
  obtains category partner where "map_of (td_entries db) entry = Some (category, partner)"
    "in_reach db u (case partner of None \<Rightarrow> [] | Some p \<Rightarrow> p)"
  using assms require_partner_tenant_reach unfolding require_entry_def by (cases "map_of (td_entries db) entry") auto


definition sample_tenants :: tenant_db where
  "sample_tenants = \<lparr>td_partners = [(''p1'', Some ''c1''), (''p2'', Some ''c2'')],
     td_entries = [(''e1'', ''it_clubs'', Some ''p1''), (''e2'', ''it_clubs'', Some ''p2'')]\<rparr>"

definition company_admin :: auth_user where
  "company_admin = \<lparr>au_id = ''u1'', au_role = ''org_admin'', au_entity = ''organization'', au_partner = None,
     au_company = Some ''c1''\<rparr>"

definition holding_operator :: auth_user where
  "holding_operator = \<lparr>au_id = ''u9'', au_role = ''holding_admin'', au_entity = ''holding'', au_partner = None,
     au_company = Some ''c1''\<rparr>"



lemma edit_any: "can_edit_any_entry u \<longleftrightarrow> can_edit_entry_category u ''internship'' \<or> can_edit_entry_category u ''teachers''"
  unfolding can_edit_any_entry_def can_edit_entry_category_def can_prepare_reports_def allows_rows insert_iff empty_iff
  by (cases "au_role u = ''hr_specialist''"; cases "au_role u = ''financial_specialist''") simp_all

lemma edit_one: "can_edit_entry_category u category \<Longrightarrow> can_edit_any_entry u"
  unfolding can_edit_any_entry_def can_edit_entry_category_def can_prepare_reports_def allows_rows insert_iff empty_iff
  by (simp split: if_splits; elim disjE; simp)

lemma create_any: "can_create_any_entry u \<longleftrightarrow> can_create_entry_category u ''internship''"
  unfolding can_create_any_entry_def can_create_entry_category_def can_prepare_reports_def allows_rows insert_iff empty_iff
  by (cases "au_role u = ''hr_specialist''") simp_all

lemma create_one: "can_create_entry_category u category \<Longrightarrow> can_create_any_entry u"
  unfolding can_create_any_entry_def can_create_entry_category_def can_prepare_reports_def allows_rows insert_iff empty_iff
  by (simp split: if_splits; elim disjE; simp)

lemma upload_any: "can_upload_any_document u \<longleftrightarrow> can_upload_document u ''internship'' ''labor_contract''
    \<or> can_upload_document u ''teachers'' ''payment_order'' \<or> can_upload_document u [] ''outgoing_certificate''"
  unfolding can_upload_any_document_def can_upload_document_def insert_iff empty_iff
  by (cases "au_role u = ''curator''"; cases "au_role u = ''hr_specialist''"; cases "au_role u = ''financial_specialist''") simp_all

lemma upload_one: "can_upload_document u category document \<Longrightarrow> can_upload_any_document u"
  unfolding can_upload_any_document_def can_upload_document_def insert_iff empty_iff
  by (simp split: if_splits; elim disjE; simp)

text \<open>
  The rights form one order: the coarse checks at the door of a handler let in exactly those whom
  a finer check may admit, for editing, creating and uploading; the educational counterparty authors,
  edits and approves nothing and uploads only the outgoing certificate; and whoever approves reports
  may prepare them.
\<close>

theorem coarse_rights_agree:
  "(can_edit_any_entry u \<longleftrightarrow> (\<exists>category. can_edit_entry_category u category))
    \<and> (can_create_any_entry u \<longleftrightarrow> (\<exists>category. can_create_entry_category u category))
    \<and> (can_upload_any_document u \<longleftrightarrow> (\<exists>category document. can_upload_document u category document))
    \<and> (\<forall>category. can_create_entry_category u category \<longrightarrow> can_edit_entry_category u category)
    \<and> (can_approve_reports u \<longrightarrow> can_prepare_reports u)
    \<and> (au_entity u = ''edu_institution'' \<longrightarrow> \<not> can_edit_any_entry u \<and> \<not> can_create_any_entry u \<and> \<not> can_approve_reports u
        \<and> (\<forall>category document. can_upload_document u category document \<longrightarrow> document = ''outgoing_certificate''))"
proof -
  have edit: "can_edit_any_entry u \<longleftrightarrow> (\<exists>category. can_edit_entry_category u category)"
    using edit_any edit_one by blast
  have create: "can_create_any_entry u \<longleftrightarrow> (\<exists>category. can_create_entry_category u category)"
    using create_any create_one by blast
  have upload: "can_upload_any_document u \<longleftrightarrow> (\<exists>category document. can_upload_document u category document)"
    using upload_any upload_one by blast
  have order: "can_edit_entry_category u category" if "can_create_entry_category u category" for category
    using that unfolding can_create_entry_category_def can_edit_entry_category_def by (simp split: if_splits)
  have approve: "can_prepare_reports u" if "can_approve_reports u"
    using that unfolding can_approve_reports_def can_prepare_reports_def allows_rows by simp (elim conjE disjE; simp)
  have counterparty: "\<not> can_edit_any_entry u \<and> \<not> can_create_any_entry u \<and> \<not> can_approve_reports u
        \<and> (\<forall>category document. can_upload_document u category document \<longrightarrow> document = ''outgoing_certificate'')"
    if "au_entity u = ''edu_institution''"
    using that unfolding can_edit_any_entry_def can_create_any_entry_def can_approve_reports_def can_upload_document_def by simp
  from edit create upload order approve counterparty show ?thesis by blast
qed

theorem coarse_rights_agree_witness:
  "can_create_entry_category company_admin ''teachers'' \<and> can_edit_entry_category company_admin ''teachers''"
proof -
  have "can_create_entry_category company_admin ''teachers''" by code_simp
  then show ?thesis using coarse_rights_agree [of company_admin] by blast
qed

end
