(* ===== verification/DocumentMetadata.thy ===== *)
theory DocumentMetadata
  imports Tasks
begin

text \<open>
  \<open>backend/internal/compliance/document_metadata.go\<close>: the requisites of a document with those of its
  signature, their normal form and the checks they pass before they are stored, with the constraints
  migration 0808 puts on the columns. A time read from a date is the number of its day.
\<close>

section \<open>Texts without spaces at their ends\<close>

lemma decode_rune_width:
  assumes "decode_rune (a # t) = (q, n)"
  shows "n = 1 \<and> (a < 128 \<longrightarrow> q = a) \<or> n \<in> {2, 3, 4} \<and> 128 \<le> a \<and> n - 1 \<le> length t \<and> 128 \<le> t ! (n - 2)"
  using assms by (auto simp: decode_rune.simps in_range_def second_ok_def nth_Cons split: if_splits list.splits)

lemma high_not_space: "128 \<le> byte x \<Longrightarrow> x \<noteq> CHR '' ''"
proof
  assume "128 \<le> byte x" "x = CHR '' ''"
  moreover have "byte (CHR '' '') = 32" by simp
  ultimately show False by simp
qed

lemma rune_edges:
  assumes "(r, b) \<in> set (runes s)"
  shows "b \<noteq> [] \<and> (hd b = CHR '' '' \<or> last b = CHR '' '' \<longrightarrow> r = 32)"
  using assms
proof (induction s rule: runes.induct)
  case (2 c s)
  obtain q n where d: "decode_rune (map byte (take 4 (c # s))) = (q, n)" by fastforce
  then have "decode_rune (byte c # map byte (take 3 s)) = (q, n)" by simp
  from decode_rune_width [OF this]
  have edges: "hd (c # take (n - 1) s) = CHR '' '' \<or> last (c # take (n - 1) s) = CHR '' '' \<longrightarrow> q = 32"
  proof
    assume w: "n \<in> {2, 3, 4} \<and> 128 \<le> byte c \<and> n - 1 \<le> length (map byte (take 3 s)) \<and> 128 \<le> map byte (take 3 s) ! (n - 2)"
    then have n: "n - 1 \<le> length s" "n - 2 < length (take 3 s)" "n - 2 < 3" "s \<noteq> []" "n \<noteq> 0" "n - 1 \<noteq> 0" "n - 1 - 1 = n - 2" by auto
    have "last (c # take (n - 1) s) = s ! (n - 2)" using n by (simp add: last_conv_nth)
    moreover have "128 \<le> byte (s ! (n - 2))" using w n(2) by simp
    moreover have "128 \<le> byte c" using w by blast
    ultimately show ?thesis using high_not_space by (metis list.sel(1))
  qed auto
  from 2(2) d have "r = q \<and> b = c # take (n - 1) s \<or> (r, b) \<in> set (runes (drop (n - 1) s))" by simp
  then show ?case
  proof
    assume "r = q \<and> b = c # take (n - 1) s"
    then show ?thesis using edges by blast
  qed (rule "2.IH" [OF d [symmetric] refl])
qed simp

definition edge_free :: "string \<Rightarrow> bool" where
  "edge_free s = (s = [] \<or> hd s \<noteq> CHR '' '' \<and> last s \<noteq> CHR '' '')"

lemma btrim_edge_free: "edge_free s \<Longrightarrow> btrim s = s"
proof -
  assume e: "edge_free s"
  have d: "dropWhile (\<lambda>c. c = CHR '' '') t = t" if "t = [] \<or> hd t \<noteq> CHR '' ''" for t using that by (cases t) auto
  show "btrim s = s"
    using d [of s] d [of "rev s"] e by (auto simp: btrim_def edge_free_def hd_rev)
qed

lemma concat_edges:
  assumes "xs \<noteq> []" "\<And>x. x \<in> set xs \<Longrightarrow> x \<noteq> []"
  shows "concat xs \<noteq> []" "hd (concat xs) = hd (hd xs)" "last (concat xs) = last (last xs)"
proof -
  show "concat xs \<noteq> []" "hd (concat xs) = hd (hd xs)" using assms by (cases xs; auto)+
  show "last (concat xs) = last (last xs)" using assms
  proof (induction xs)
    case (Cons x xs)
    then show ?case by (cases "xs = []") auto
  qed simp
qed

lemma runes_edge_free:
  assumes "set rs \<subseteq> set (runes s)" "rs = [] \<or> \<not> is_space_rune (fst (hd rs)) \<and> \<not> is_space_rune (fst (last rs))"
  shows "edge_free (concat (map snd rs))"
proof (cases "rs = []")
  case False
  have space: "is_space_rune 32" by (simp add: is_space_rune_def is_space_point_def)
  have ne: "x \<noteq> []" if "x \<in> set (map snd rs)" for x using that assms(1) rune_edges [of _ x s] by force
  have "hd rs \<in> set (runes s)" "last rs \<in> set (runes s)" using False assms(1) by auto
  then have "hd (snd (hd rs)) \<noteq> CHR '' ''" "last (snd (last rs)) \<noteq> CHR '' ''"
    using rune_edges [of "fst (hd rs)" "snd (hd rs)" s] rune_edges [of "fst (last rs)" "snd (last rs)" s] assms(2) False space by auto
  then show ?thesis using concat_edges [of "map snd rs"] ne False by (simp add: edge_free_def hd_map last_map)
qed (simp add: edge_free_def)

lemma trim_space_edge_free: "edge_free (trim_space s)"
proof -
  let ?left = "dropWhile (is_space_rune \<circ> fst) (runes s)"
  let ?rs = "rev (dropWhile (is_space_rune \<circ> fst) (rev ?left))"
  have sub: "set ?rs \<subseteq> set (runes s)" by (auto dest!: set_dropWhileD)
  have "?rs = [] \<or> \<not> is_space_rune (fst (hd ?rs)) \<and> \<not> is_space_rune (fst (last ?rs))"
  proof (cases "?rs = []")
    case False
    then have a: "\<not> is_space_rune (fst (last ?rs))"
      using hd_dropWhile [of "is_space_rune \<circ> fst" "rev ?left"] by (simp add: last_rev)
    obtain zs where "rev ?left = zs @ dropWhile (is_space_rune \<circ> fst) (rev ?left)"
      using takeWhile_dropWhile_id by metis
    then have "?left = ?rs @ rev zs" by (metis rev_append rev_rev_ident)
    then have "hd ?rs = hd ?left" "?left \<noteq> []" using False by (metis hd_append2, metis append_is_Nil_conv)
    then show ?thesis using a hd_dropWhile [of "is_space_rune \<circ> fst" "runes s"] by (simp del: dropWhile_eq_Nil_conv)
  qed simp
  from runes_edge_free [OF sub this] show ?thesis by (simp add: trim_space_def)
qed

lemma fields_edge_free: "f \<in> set (fields_aux rs cur) \<Longrightarrow> set rs \<subseteq> set (runes s) \<Longrightarrow> edge_free cur \<Longrightarrow> f \<noteq> [] \<and> edge_free f"
proof (induction rs cur rule: fields_aux.induct)
  case (2 r b rs cur)
  have space: "is_space_rune 32" by (simp add: is_space_rune_def is_space_point_def)
  have b: "b \<noteq> []" "r \<noteq> 32 \<Longrightarrow> hd b \<noteq> CHR '' '' \<and> last b \<noteq> CHR '' ''" using rune_edges [of r b s] "2.prems"(2) by auto
  show ?case
  proof (cases "is_space_rune r")
    case True
    then show ?thesis using 2 by (auto simp: edge_free_def split: if_splits)
  next
    case False
    then have "r \<noteq> 32" using space by auto
    then have "edge_free (cur @ b)" using b "2.prems"(3) by (cases cur) (auto simp: edge_free_def)
    then show ?thesis using 2 False by auto
  qed
qed (auto simp: edge_free_def split: if_splits)

lemma join_edge_free:
  assumes "\<And>f. f \<in> set fs \<Longrightarrow> f \<noteq> [] \<and> edge_free f"
  shows "edge_free (join sep fs) \<and> (join sep fs = [] \<longleftrightarrow> fs = [])"
  using assms
proof (induction sep fs rule: join.induct)
  case (3 sep x y xs)
  then have x: "x \<noteq> []" "hd x \<noteq> CHR '' ''" by (auto simp: edge_free_def)
  have "edge_free (join sep (y # xs))" "join sep (y # xs) \<noteq> []" using 3 by auto
  then show ?case using x by (auto simp: edge_free_def)
qed (auto simp: edge_free_def)

lemma squeeze_edge_free: "edge_free (squeeze s)"
  using join_edge_free [of "GoText.fields s" "'' ''"] fields_edge_free [of _ "runes s" "[]" s]
  by (auto simp: squeeze_def GoText.fields_def edge_free_def)

section \<open>Requisites\<close>

record document_metadata =
  dm_number :: string
  dm_date :: string
  dm_signer :: string
  dm_serial :: string
  dm_from :: string
  dm_until :: string

datatype metadata_error =
    NumberTooLong
  | DocumentDateUnreadable
  | DocumentBefore2000
  | DocumentInFuture
  | SignerMissing
  | SerialMissing
  | ValidityMissing
  | SignerLength
  | SerialFormat
  | ValidFromUnreadable
  | ValidUntilUnreadable
  | ValidityReversed
  | CertificateNotInForce

definition signed_document :: "document_metadata \<Rightarrow> bool" where
  "signed_document m = (dm_signer m \<noteq> [] \<or> dm_serial m \<noteq> [] \<or> dm_from m \<noteq> [] \<or> dm_until m \<noteq> [])"

text \<open>\<open>^[0-9A-F]{6,64}$\<close>.\<close>

definition certificate_serial_pattern :: "string \<Rightarrow> bool" where
  "certificate_serial_pattern s =
     (6 \<le> length s \<and> length s \<le> 64 \<and> list_all (\<lambda>c. is_digit c \<or> in_range 65 70 (byte c)) s)"

definition normalize_serial :: "string \<Rightarrow> string" where
  "normalize_serial s = concat (map (\<lambda>(r, _). encode_rune (upper_rune r))
     (filter (\<lambda>(r, _). \<not> (is_space_rune r \<or> r = 58 \<or> r = 45)) (runes s)))"

text \<open>The zero time is the first day of the year 1.\<close>

definition zero_date :: date where "zero_date = (1, 1, 1)"

definition optional_date :: "string \<Rightarrow> metadata_error \<Rightarrow> metadata_error + date" where
  "optional_date s e = (if s = [] then Inr zero_date else (case parse_date s of None \<Rightarrow> Inl e | Some d \<Rightarrow> Inr d))"

definition canonical_metadata :: "document_metadata \<Rightarrow> document_metadata" where
  "canonical_metadata m = \<lparr>dm_number = trim_space (dm_number m), dm_date = trim_space (dm_date m),
     dm_signer = squeeze (dm_signer m), dm_serial = normalize_serial (dm_serial m),
     dm_from = trim_space (dm_from m), dm_until = trim_space (dm_until m)\<rparr>"

definition check_document_date :: "date \<Rightarrow> int \<Rightarrow> metadata_error + unit" where
  "check_document_date d today =
     (if d = zero_date then Inr ()
      else if fst d < 2000 then Inl DocumentBefore2000
      else require (\<not> day_number d > today) DocumentInFuture)"

definition check_signature :: "document_metadata \<Rightarrow> date \<Rightarrow> metadata_error + unit" where
  "check_signature m d =
     (if dm_signer m = [] then Inl SignerMissing
      else if dm_serial m = [] then Inl SerialMissing
      else if dm_from m = [] \<or> dm_until m = [] then Inl ValidityMissing
      else if rune_count (dm_signer m) < 2 \<or> rune_count (dm_signer m) > 300 then Inl SignerLength
      else if \<not> certificate_serial_pattern (dm_serial m) then Inl SerialFormat
      else rbind (optional_date (dm_from m) ValidFromUnreadable) (\<lambda>from.
           rbind (optional_date (dm_until m) ValidUntilUnreadable) (\<lambda>until.
           if day_number until < day_number from then Inl ValidityReversed
           else require (\<not> (d \<noteq> zero_date \<and> (day_number d < day_number from \<or> day_number d > day_number until)))
             CertificateNotInForce)))"

definition normalize_metadata :: "document_metadata \<Rightarrow> int \<Rightarrow> metadata_error + document_metadata" where
  "normalize_metadata m today =
     (let out = canonical_metadata m in
      if rune_count (dm_number out) > 200 then Inl NumberTooLong
      else rbind (optional_date (dm_date out) DocumentDateUnreadable) (\<lambda>d.
           rbind (check_document_date d today) (\<lambda>_.
           if \<not> signed_document out then Inr out
           else rbind (check_signature out d) (\<lambda>_. Inr out))))"

section \<open>Columns\<close>

record metadata_columns =
  mc_number :: "string option"
  mc_date :: "date option"
  mc_signer :: "string option"
  mc_serial :: "string option"
  mc_from :: "date option"
  mc_until :: "date option"

text \<open>A cast to \<open>date\<close>; PostgreSQL knows no year 0.\<close>

definition date_column :: "string \<Rightarrow> unit + date option" where
  "date_column s = (if s = [] then Inr None else (case parse_date s of None \<Rightarrow> Inl ()
     | Some d \<Rightarrow> if fst d = 0 then Inl () else Inr (Some d)))"

definition to_columns :: "document_metadata \<Rightarrow> unit + metadata_columns" where
  "to_columns m =
     rbind (date_column (dm_date m)) (\<lambda>d.
     rbind (date_column (dm_from m)) (\<lambda>from.
     rbind (date_column (dm_until m)) (\<lambda>until.
       Inr \<lparr>mc_number = null_if_empty (dm_number m), mc_date = d, mc_signer = null_if_empty (dm_signer m),
            mc_serial = null_if_empty (dm_serial m), mc_from = from, mc_until = until\<rparr>)))"

definition optional_text_between :: "nat \<Rightarrow> nat \<Rightarrow> string option \<Rightarrow> bool" where
  "optional_text_between lo hi s = (case s of None \<Rightarrow> True | Some t \<Rightarrow> text_between lo hi t)"

definition metadata_checks :: "metadata_columns \<Rightarrow> bool" where
  "metadata_checks c =
     (optional_text_between 1 200 (mc_number c)
      \<and> optional_text_between 2 300 (mc_signer c)
      \<and> (case mc_serial c of None \<Rightarrow> True | Some s \<Rightarrow> certificate_serial_pattern s)
      \<and> (case (mc_signer c, mc_serial c, mc_from c, mc_until c) of
           (None, None, None, None) \<Rightarrow> True
         | (Some _, Some _, Some from, Some until) \<Rightarrow> day_number from \<le> day_number until
         | _ \<Rightarrow> False))"

section \<open>Accepted requisites\<close>

lemma optional_date_cases:
  "optional_date s e = Inr d \<longleftrightarrow> s = [] \<and> d = zero_date \<or> s \<noteq> [] \<and> parse_date s = Some d"
  by (auto simp: optional_date_def split: option.splits)

lemma parse_date_Nil [simp]: "parse_date [] = None"
  by (simp add: parse_date_def)

lemma normalize_metadata_accepted:
  assumes "normalize_metadata m today = Inr out"
  shows "\<exists>d. out = canonical_metadata m \<and> rune_count (dm_number out) \<le> 200
    \<and> optional_date (dm_date out) DocumentDateUnreadable = Inr d \<and> check_document_date d today = Inr ()
    \<and> (signed_document out \<longrightarrow> check_signature out d = Inr ())"
  using assms unfolding normalize_metadata_def Let_def
  by (auto simp: result_simps split: if_splits)

lemma check_signature_accepted:
  assumes "check_signature m d = Inr ()"
  obtains "from" until where "dm_signer m \<noteq> []" "2 \<le> rune_count (dm_signer m)" "rune_count (dm_signer m) \<le> 300"
    "certificate_serial_pattern (dm_serial m)" "dm_serial m \<noteq> []" "parse_date (dm_from m) = Some from" "parse_date (dm_until m) = Some until"
    "day_number from \<le> day_number until"
    "d \<noteq> zero_date \<Longrightarrow> day_number from \<le> day_number d \<and> day_number d \<le> day_number until"
  using assms unfolding check_signature_def
  by (auto simp: result_simps optional_date_cases split: if_splits)

lemma date_column_parse: "date_column s = Inr c \<Longrightarrow> c = parse_date s"
  by (auto simp: date_column_def split: if_splits option.splits)

lemma accepted_columns:
  assumes "normalize_metadata m today = Inr out" "to_columns out = Inr c"
  shows "metadata_checks c"
proof -
  from assms(1) obtain d where out: "out = canonical_metadata m" "rune_count (dm_number out) \<le> 200"
    and sign: "signed_document out \<Longrightarrow> check_signature out d = Inr ()" using normalize_metadata_accepted by blast
  from assms(2) have c: "mc_number c = null_if_empty (dm_number out)" "mc_signer c = null_if_empty (dm_signer out)"
      "mc_serial c = null_if_empty (dm_serial out)" "mc_from c = parse_date (dm_from out)" "mc_until c = parse_date (dm_until out)"
    unfolding to_columns_def by (auto simp: result_simps dest: date_column_parse)
  have number: "optional_text_between 1 200 (mc_number c)"
  proof (cases "dm_number out")
    case (Cons x xs)
    then have "runes (dm_number out) \<noteq> []" using concat_runes [of "dm_number out"] by (metis concat.simps(1) list.simps(3) list.simps(8))
    then show ?thesis using out Cons trim_space_edge_free [of "dm_number m"]
      by (simp add: c optional_text_between_def text_between_def null_if_empty_def canonical_metadata_def btrim_edge_free
          rune_count_def Suc_le_eq)
  qed (simp add: c optional_text_between_def null_if_empty_def)
  have signer: "btrim (dm_signer out) = dm_signer out"
    using squeeze_edge_free by (simp add: out(1) canonical_metadata_def btrim_edge_free)
  show ?thesis
  proof (cases "signed_document out")
    case True
    from sign [OF True] show ?thesis
      by (rule check_signature_accepted)
        (use number signer in \<open>simp add: metadata_checks_def c null_if_empty_def optional_text_between_def text_between_def\<close>)
  next
    case False
    then show ?thesis using number
      by (simp add: metadata_checks_def c signed_document_def null_if_empty_def optional_text_between_def)
  qed
qed

text \<open>
  C31: requisites that are accepted fit the constraints of their columns, so storing them cannot fail
  on one; a dated document is dated from 2000 to today; and a signature is accepted only whole, with
  a certificate in force on the date of the document. (The date of the zero time, 0001-01-01, counts
  as no date.)
\<close>

theorem accepted_metadata_is_lawful:
  assumes "normalize_metadata m today = Inr out"
  shows "(\<forall>c. to_columns out = Inr c \<longrightarrow> metadata_checks c)
    \<and> (dm_date out \<noteq> [] \<longrightarrow> (\<exists>d. parse_date (dm_date out) = Some d
        \<and> (d \<noteq> zero_date \<longrightarrow> 2000 \<le> fst d \<and> day_number d \<le> today)))
    \<and> (signed_document out \<longrightarrow> (\<exists>from until. parse_date (dm_from out) = Some from \<and> parse_date (dm_until out) = Some until
        \<and> (\<forall>d. parse_date (dm_date out) = Some d \<and> d \<noteq> zero_date \<longrightarrow>
            day_number from \<le> day_number d \<and> day_number d \<le> day_number until)))"
proof -
  from assms obtain d where d: "optional_date (dm_date out) DocumentDateUnreadable = Inr d" "check_document_date d today = Inr ()"
    and sign: "signed_document out \<Longrightarrow> check_signature out d = Inr ()" using normalize_metadata_accepted by blast
  have columns: "\<forall>c. to_columns out = Inr c \<longrightarrow> metadata_checks c" using accepted_columns [OF assms] by blast
  have dated: "\<exists>e. parse_date (dm_date out) = Some e \<and> (e \<noteq> zero_date \<longrightarrow> 2000 \<le> fst e \<and> day_number e \<le> today)"
    if "dm_date out \<noteq> []"
    using d that unfolding optional_date_cases check_document_date_def by (auto split: if_splits)
  have signature: "\<exists>from until. parse_date (dm_from out) = Some from \<and> parse_date (dm_until out) = Some until
        \<and> (\<forall>e. parse_date (dm_date out) = Some e \<and> e \<noteq> zero_date \<longrightarrow>
            day_number from \<le> day_number e \<and> day_number e \<le> day_number until)"
    if "signed_document out"
    using sign [OF that]
  proof (rule check_signature_accepted)
    fix "from" until
    assume "parse_date (dm_from out) = Some from" "parse_date (dm_until out) = Some until"
      "d \<noteq> zero_date \<Longrightarrow> day_number from \<le> day_number d \<and> day_number d \<le> day_number until"
    moreover have "e = d" if "parse_date (dm_date out) = Some e" for e
      using d(1) that unfolding optional_date_cases by auto
    ultimately show ?thesis by blast
  qed
  from columns dated signature show ?thesis by blast
qed

definition signed_sample :: document_metadata where
  "signed_sample = \<lparr>dm_number = '' 12-A '', dm_date = ''2025-03-01'', dm_signer = ''Ivanov  I.'', dm_serial = ''0a:1b:2c:3d'',
     dm_from = ''2024-05-01'', dm_until = ''2025-05-01''\<rparr>"

theorem accepted_metadata_is_lawful_witness:
  "\<exists>out c. normalize_metadata signed_sample (day_number (2025, 3, 2)) = Inr out \<and> to_columns out = Inr c \<and> metadata_checks c
    \<and> dm_serial out = ''0A1B2C3D'' \<and> dm_number out = ''12-A'' \<and> dm_signer out = ''Ivanov I.''"
proof -
  let ?out = "\<lparr>dm_number = ''12-A'', dm_date = ''2025-03-01'', dm_signer = ''Ivanov I.'', dm_serial = ''0A1B2C3D'',
     dm_from = ''2024-05-01'', dm_until = ''2025-05-01''\<rparr>"
  have "normalize_metadata signed_sample (day_number (2025, 3, 2)) = Inr ?out" by code_simp
  moreover have "to_columns ?out = Inr \<lparr>mc_number = Some ''12-A'', mc_date = Some (2025, 3, 1), mc_signer = Some ''Ivanov I.'',
      mc_serial = Some ''0A1B2C3D'', mc_from = Some (2024, 5, 1), mc_until = Some (2025, 5, 1)\<rparr>" by code_simp
  ultimately show ?thesis
    using accepted_metadata_is_lawful [of signed_sample "day_number (2025, 3, 2)" ?out] by force
qed

text \<open>A signature of 2024 with a document dated 0001-01-01 passes: the zero time stands for no date.\<close>

lemma zero_date_escapes:
  "succeeds (normalize_metadata (signed_sample\<lparr>dm_date := ''0001-01-01''\<rparr>) (day_number (2025, 3, 2)))"
  "\<not> succeeds (normalize_metadata (signed_sample\<lparr>dm_date := ''1999-12-31''\<rparr>) (day_number (2025, 3, 2)))"
  by code_simp+

end
