(* ===== verification/Documents.thy ===== *)
theory Documents
  imports BlobStore Access DocumentMetadata Readiness
begin

text \<open>
  The evidence of entries: \<open>backend/internal/handlers/attachments.go\<close> (upload, list, review, download),
  \<open>document_metadata.go\<close> (requisites, legal disputes), \<open>audit.go\<close>, and \<open>backend/internal/retention\<close> (the
  clean-up of expired documents and of their files), over the tables of migrations 0001, 0006, 0801,
  0803, 0808 and 0904. A request carries its time, its identifier and the identifiers the database
  generates. The result of a refused request is the status of the response; the decoding of requests
  and the page of a listing are left out. The retention period counts days of 24 hours (the code adds
  calendar days, which differ only in a server time zone that changes its offset).
\<close>

section \<open>Tables\<close>

record attachment =
  at_entry :: string
  at_name :: string
  at_path :: string
  at_size :: int
  at_uploader :: string
  at_uploaded :: instant
  at_expires :: instant
  at_type :: string
  at_sha :: "string option"
  at_scan :: string
  at_scan_signature :: "string option"
  at_scanned :: "instant option"
  at_status :: string
  at_reviewer :: "string option"
  at_reviewed :: "instant option"
  at_comment :: "string option"
  at_owner_role :: string
  at_owner_entity :: string
  at_meta :: metadata_columns
  at_verified :: "instant option"
  at_verifier :: "string option"

record dispute =
  ld_entry :: string
  ld_attachment :: "string option"
  ld_reason :: string
  ld_raised_by :: string
  ld_raised_at :: instant
  ld_lifted_by :: "string option"
  ld_lifted_at :: "instant option"
  ld_lifted_reason :: "string option"

text \<open>The files of a request, and what its handler holds of them before its transaction.\<close>

record upload_file =
  uf_name :: string
  uf_size :: int
  uf_content :: string

record staged_file =
  sf_name :: string
  sf_path :: string
  sf_sha :: string
  sf_size :: int
  sf_shared :: bool
  sf_scan :: string
  sf_signature :: string

record upload_config =
  uc_policy :: string
  uc_quota :: int

text \<open>
  An upload in progress: the local variables of the handler between its steps. Uploads in progress
  belong to no table, and no lock keeps other requests or the clean-up from running between their
  steps.
\<close>

record pending_upload =
  pu_user :: auth_user
  pu_config :: upload_config
  pu_entry :: string
  pu_category :: string
  pu_document :: string
  pu_todo :: "upload_file list"
  pu_staged :: "staged_file list"

record evidence_db =
  ev_users :: "(string \<times> user_row) list"
  ev_tenants :: tenant_db
  ev_retention :: "string option"
  ev_attachments :: "(string \<times> attachment) list"
  ev_disputes :: "(string \<times> dispute) list"
  ev_queue :: "string list"
  ev_files :: files
  ev_uploads :: "pending_upload list"
  ev_journal :: "unit audit_event list"

record request =
  rq_now :: instant
  rq_context :: string
  rq_random :: "nat \<Rightarrow> 8 word"

section \<open>Constraints\<close>

definition owner_checks :: "attachment \<Rightarrow> bool" where
  "owner_checks a = (at_owner_entity a = ''organization'' \<or> at_owner_entity a = ''edu_institution'')"

definition review_checks :: "attachment \<Rightarrow> bool" where
  "review_checks a =
     (at_status a = ''pending'' \<and> at_reviewer a = None \<and> at_reviewed a = None
      \<or> (at_status a = ''approved'' \<or> at_status a = ''rejected'') \<and> at_reviewer a \<noteq> None \<and> at_reviewed a \<noteq> None)"

definition verification_checks :: "attachment \<Rightarrow> bool" where
  "verification_checks a =
     ((at_verified a = None) = (at_verifier a = None) \<and> (at_verified a = None \<or> mc_signer (at_meta a) \<noteq> None))"

definition scan_checks :: "attachment \<Rightarrow> bool" where
  "scan_checks a =
     ((at_scan a = ''clean'' \<or> at_scan a = ''quarantined'' \<or> at_scan a = ''unscanned'')
      \<and> optional_text_between 1 200 (at_scan_signature a)
      \<and> (at_scan a \<noteq> ''quarantined'' \<or> at_scanned a \<noteq> None))"

definition content_checks :: "attachment \<Rightarrow> bool" where
  "content_checks a =
     (0 < at_size a \<and> at_size a \<le> 67108864 \<and> valid_document_type (at_type a)
      \<and> (case at_sha a of None \<Rightarrow> True | Some h \<Rightarrow> length h = 64 \<and> list_all is_lower_hex h))"

definition attachment_checks :: "attachment \<Rightarrow> bool" where
  "attachment_checks a =
     (owner_checks a \<and> review_checks a \<and> verification_checks a \<and> scan_checks a \<and> content_checks a \<and> metadata_checks (at_meta a))"

definition dispute_checks :: "dispute \<Rightarrow> bool" where
  "dispute_checks d =
     (text_between 1 2000 (ld_reason d) \<and> optional_text_between 1 2000 (ld_lifted_reason d)
      \<and> (ld_lifted_at d = None) = (ld_lifted_by d = None) \<and> (ld_lifted_at d = None) = (ld_lifted_reason d = None))"

definition active_in :: "string \<Rightarrow> dispute \<Rightarrow> bool" where
  "active_in entry d = (ld_entry d = entry \<and> ld_lifted_at d = None)"

section \<open>The journal\<close>

text \<open>\<open>logAudit\<close>, without the snapshots.\<close>

definition log_audit ::
  "request \<Rightarrow> string \<Rightarrow> string \<Rightarrow> string \<Rightarrow> string \<Rightarrow> string \<Rightarrow> evidence_db \<Rightarrow> status + evidence_db" where
  "log_audit rq entity_type entity action user comment db =
     (case write_audit (rq_context rq) (rq_random rq) \<lparr>ae_actor = user_actor user, ae_action = action,
        ae_entity_type = entity_type, ae_entity_id = entity, ae_before = None, ae_after = Some (), ae_request = [],
        ae_comment = comment\<rparr> (ev_journal db) of
        Inl _ \<Rightarrow> Inl 500
      | Inr journal \<Rightarrow> Inr (db\<lparr>ev_journal := journal\<rparr>))"

section \<open>Upload\<close>

definition max_attachment_size :: int where "max_attachment_size = 20 * 2 ^ 20"
definition max_attachment_count :: nat where "max_attachment_count = 20"

definition document_type_of :: "string \<Rightarrow> string" where
  "document_type_of raw = (if trim_space raw = [] then ''other'' else trim_space raw)"

text \<open>The checks of a request before any file is touched: the category of the entry.\<close>

definition check_upload :: "auth_user \<Rightarrow> string \<Rightarrow> string \<Rightarrow> upload_file list \<Rightarrow> evidence_db \<Rightarrow> status + string" where
  "check_upload u entry raw_type uploads db =
     (if \<not> can_upload_any_document u then Inl 403
      else rbind (require_entry (ev_tenants db) u entry) (\<lambda>_.
        if \<not> valid_document_type (document_type_of raw_type) then Inl 400
        else (case map_of (td_entries (ev_tenants db)) entry of
            None \<Rightarrow> Inl 404
          | Some (category, _) \<Rightarrow>
              if \<not> can_upload_document u category (document_type_of raw_type) then Inl 403
              else if uploads = [] \<or> length uploads > max_attachment_count then Inl 400
              else if list_ex (\<lambda>f. uf_size f \<le> 0 \<or> uf_size f > max_attachment_size \<or> rune_count (uf_name f) > 255) uploads
              then Inl 400
              else if sum_list (map uf_size uploads) > max_attachment_size then Inl 413
              else Inr category)))"

definition scan_outcome :: "upload_config \<Rightarrow> verdict \<Rightarrow> status + string" where
  "scan_outcome cfg v = (case v of
     VerdictInfected \<Rightarrow> Inl 422
   | VerdictUnavailable \<Rightarrow> if uc_policy cfg \<noteq> ''quarantine'' then Inl 422 else Inr ''quarantined''
   | VerdictSkipped \<Rightarrow> Inr ''unscanned''
   | VerdictClean \<Rightarrow> Inr ''clean'')"

text \<open>
  One turn of the loop over the uploaded files. The state is what was staged so far and the store; an
  error keeps it, for the clean-up.
\<close>

definition stage_file ::
  "store_env \<Rightarrow> upload_config \<Rightarrow> upload_file \<Rightarrow> staged_file list \<times> files \<Rightarrow>
   (status \<times> staged_file list \<times> files) + (staged_file list \<times> files)" where
  "stage_file env cfg f s = (case s of (staged, fs) \<Rightarrow>
     (case create_blob env (uf_content f) max_attachment_size fs of
        Inl _ \<Rightarrow> Inl (500, staged, fs)
      | Inr (b, fs1) \<Rightarrow>
          if bl_size b \<noteq> uf_size f then Inl (500, staged, if bl_shared b then fs1 else remove_file (bl_path b) fs1)
          else
            let entry = (\<lambda>scan signature. \<lparr>sf_name = uf_name f, sf_path = bl_path b, sf_sha = bl_sha b, sf_size = uf_size f,
                  sf_shared = bl_shared b, sf_scan = scan, sf_signature = signature\<rparr>) in
            (case open_file env fs1 (bl_path b) of
               None \<Rightarrow> Inl (400, staged @ [entry [] []], fs1)
             | Some content \<Rightarrow>
                 if \<not> succeeds (validate_file env (uf_name f) content) then Inl (400, staged @ [entry [] []], fs1)
                 else (case scan_outcome cfg (sc_verdict (inspect env content)) of
                     Inl st \<Rightarrow> Inl (st, staged @ [entry [] []], fs1)
                   | Inr scan \<Rightarrow> Inr (staged @ [entry scan (sc_signature (inspect env content))], fs1)))))"

text \<open>The deferred clean-up: blobs this upload created are removed, shared ones stay.\<close>

definition unstage :: "staged_file list \<Rightarrow> files \<Rightarrow> files" where
  "unstage staged fs = fold (\<lambda>s fs. if sf_shared s then fs else remove_file (sf_path s) fs) staged fs"

definition session_user :: "string \<Rightarrow> user_row \<Rightarrow> auth_user" where
  "session_user i r = \<lparr>au_id = i, au_role = ur_role r, au_entity = ur_entity r, au_partner = ur_partner r, au_company = ur_company r\<rparr>"

definition used_bytes :: "string \<Rightarrow> evidence_db \<Rightarrow> int" where
  "used_bytes user db = sum_list (map (at_size \<circ> snd) (filter (\<lambda>(_, a). at_uploader a = user) (ev_attachments db)))"

definition retention_days :: "evidence_db \<Rightarrow> status + int" where
  "retention_days db = (case ev_retention db of
     None \<Rightarrow> Inl 500
   | Some raw \<Rightarrow> (case atoi raw of
       None \<Rightarrow> Inl 500
     | Some v \<Rightarrow> if 0 < v \<and> v \<le> 3650 then Inr v else Inl 500))"

definition no_requisites :: metadata_columns where
  "no_requisites = \<lparr>mc_number = None, mc_date = None, mc_signer = None, mc_serial = None, mc_from = None, mc_until = None\<rparr>"

definition new_attachment ::
  "user_row \<Rightarrow> string \<Rightarrow> string \<Rightarrow> string \<Rightarrow> instant \<Rightarrow> instant \<Rightarrow> staged_file \<Rightarrow> attachment" where
  "new_attachment owner user entry document now expires s =
     \<lparr>at_entry = entry, at_name = sf_name s, at_path = sf_path s, at_size = sf_size s, at_uploader = user,
      at_uploaded = now, at_expires = expires, at_type = document, at_sha = Some (sf_sha s), at_scan = sf_scan s,
      at_scan_signature = null_if_empty (sf_signature s),
      at_scanned = (if sf_scan s = ''unscanned'' then None else Some now),
      at_status = ''pending'', at_reviewer = None, at_reviewed = None, at_comment = None,
      at_owner_role = ur_role owner, at_owner_entity = (if ur_entity owner = [] then ''organization'' else ur_entity owner),
      at_meta = no_requisites, at_verified = None, at_verifier = None\<rparr>"

definition upload_note :: "string \<Rightarrow> string" where
  "upload_note name = utf8 [1092, 1072, 1081, 1083, 32] @ name"

definition insert_staged ::
  "request \<Rightarrow> user_row \<Rightarrow> string \<Rightarrow> string \<Rightarrow> string \<Rightarrow> instant \<Rightarrow> string \<times> staged_file \<Rightarrow> evidence_db \<Rightarrow> status + evidence_db" where
  "insert_staged rq owner user entry document expires x db = (case x of (i, s) \<Rightarrow>
     (let a = new_attachment owner user entry document (rq_now rq) expires s in
      if \<not> attachment_checks a \<or> i \<in> set (map fst (ev_attachments db)) then Inl 500
      else log_audit rq ''attachment'' i ''upload'' user (upload_note (sf_name s))
             (db\<lparr>ev_attachments := ev_attachments db @ [(i, a)]\<rparr>)))"

text \<open>The transaction that publishes the staged files.\<close>

definition commit_upload ::
  "request \<Rightarrow> upload_config \<Rightarrow> string \<Rightarrow> string \<Rightarrow> string \<Rightarrow> string \<Rightarrow> staged_file list \<Rightarrow> string list \<Rightarrow> evidence_db \<Rightarrow>
   status + evidence_db" where
  "commit_upload rq cfg user entry category document staged fresh db = (case map_of (ev_users db) user of
     None \<Rightarrow> Inl 403
   | Some row \<Rightarrow>
       if \<not> ur_active row then Inl 403
       else if \<not> can_upload_document (session_user user row) category document then Inl 403
       else (case map_of (td_entries (ev_tenants db)) entry of
           None \<Rightarrow> Inl 404
         | Some (_, partner) \<Rightarrow>
             rbind (require_partner_tenant (ev_tenants db) (session_user user row) (case partner of None \<Rightarrow> [] | Some p \<Rightarrow> p)) (\<lambda>_.
             let quota = (if uc_quota cfg \<le> 0 then 2 ^ 30 else uc_quota cfg) in
             if used_bytes user db > quota - sum_list (map sf_size staged) then Inl 413
             else rbind (retention_days db) (\<lambda>days.
               fold_result (insert_staged rq row user entry document (rq_now rq + days * day_ns)) (zip fresh staged) db))))"

text \<open>
  \<open>Upload\<close> step by step: the checks, one turn of the loop over the files (a failure ends the request and
  runs its clean-up), and the transaction, which uses the files as they are by then.
\<close>

definition begin_upload :: "upload_config \<Rightarrow> auth_user \<Rightarrow> string \<Rightarrow> string \<Rightarrow> upload_file list \<Rightarrow> evidence_db \<Rightarrow> status + pending_upload" where
  "begin_upload cfg u entry raw_type uploads db =
     rbind (check_upload u entry raw_type uploads db) (\<lambda>category.
       Inr \<lparr>pu_user = u, pu_config = cfg, pu_entry = entry, pu_category = category, pu_document = document_type_of raw_type,
            pu_todo = uploads, pu_staged = []\<rparr>)"

definition stage_next :: "store_env \<Rightarrow> pending_upload \<Rightarrow> files \<Rightarrow> (status \<times> files) + (pending_upload \<times> files)" where
  "stage_next env p fs = (case pu_todo p of
     [] \<Rightarrow> Inr (p, fs)
   | f # rest \<Rightarrow> (case stage_file env (pu_config p) f (pu_staged p, fs) of
       Inl (st, staged, fs') \<Rightarrow> Inl (st, unstage staged fs')
     | Inr (staged, fs') \<Rightarrow> Inr (p\<lparr>pu_todo := rest, pu_staged := staged\<rparr>, fs')))"

definition publish_upload ::
  "request \<Rightarrow> pending_upload \<Rightarrow> (nat \<Rightarrow> string) \<Rightarrow> evidence_db \<Rightarrow> (status + string list) \<times> evidence_db" where
  "publish_upload rq p fresh db =
     (let ids = map fresh [0..<length (pu_staged p)] in
      (case commit_upload rq (pu_config p) (au_id (pu_user p)) (pu_entry p) (pu_category p) (pu_document p) (pu_staged p) ids db of
         Inl st \<Rightarrow> (Inl st, db\<lparr>ev_files := unstage (pu_staged p) (ev_files db)\<rparr>)
       | Inr db' \<Rightarrow> (Inr ids, db')))"

text \<open>The loop over all files.\<close>

fun stage_files :: "nat \<Rightarrow> store_env \<Rightarrow> pending_upload \<Rightarrow> files \<Rightarrow> (status \<times> files) + (pending_upload \<times> files)" where
  "stage_files 0 env p fs = Inr (p, fs)"
| "stage_files (Suc n) env p fs = rbind (stage_next env p fs) (\<lambda>(p', fs'). stage_files n env p' fs')"

text \<open>
  The whole handler when nothing else runs between its steps: the response, with the identifiers of the
  new attachments, and the database after it.
\<close>

definition upload ::
  "store_env \<Rightarrow> upload_config \<Rightarrow> request \<Rightarrow> auth_user \<Rightarrow> string \<Rightarrow> string \<Rightarrow> upload_file list \<Rightarrow> (nat \<Rightarrow> string) \<Rightarrow> evidence_db \<Rightarrow>
   (status + string list) \<times> evidence_db" where
  "upload env cfg rq u entry raw_type uploads fresh db =
     (case begin_upload cfg u entry raw_type uploads db of
        Inl st \<Rightarrow> (Inl st, db)
      | Inr p \<Rightarrow> (case stage_files (length uploads) env p (ev_files db) of
          Inl (st, fs) \<Rightarrow> (Inl st, db\<lparr>ev_files := fs\<rparr>)
        | Inr (p', fs) \<Rightarrow> publish_upload rq p' fresh (db\<lparr>ev_files := fs\<rparr>)))"

text \<open>
  The same steps between those of other requests: the uploads in progress wait in \<open>ev_uploads\<close>, a step
  names one of them by its place, and one that ended leaves the list.
\<close>

definition end_upload :: "nat \<Rightarrow> pending_upload list \<Rightarrow> pending_upload list" where
  "end_upload n ps = take n ps @ drop (Suc n) ps"

definition stage_step :: "store_env \<Rightarrow> nat \<Rightarrow> evidence_db \<Rightarrow> status + evidence_db" where
  "stage_step env n db =
     (if length (ev_uploads db) \<le> n then Inl 404
      else (case stage_next env (ev_uploads db ! n) (ev_files db) of
          Inl (st, fs) \<Rightarrow> Inr (db\<lparr>ev_files := fs, ev_uploads := end_upload n (ev_uploads db)\<rparr>)
        | Inr (p, fs) \<Rightarrow> Inr (db\<lparr>ev_files := fs, ev_uploads := (ev_uploads db)[n := p]\<rparr>)))"

text \<open>A request that is cancelled, or whose file or transaction cannot be opened, ends with the clean-up.\<close>

definition cancel_step :: "nat \<Rightarrow> evidence_db \<Rightarrow> status + evidence_db" where
  "cancel_step n db =
     (if length (ev_uploads db) \<le> n then Inl 404
      else Inr (db\<lparr>ev_files := unstage (pu_staged (ev_uploads db ! n)) (ev_files db), ev_uploads := end_upload n (ev_uploads db)\<rparr>))"

definition publish_step :: "nat \<Rightarrow> request \<Rightarrow> (nat \<Rightarrow> string) \<Rightarrow> evidence_db \<Rightarrow> status + evidence_db" where
  "publish_step n rq fresh db =
     (if length (ev_uploads db) \<le> n \<or> pu_todo (ev_uploads db ! n) \<noteq> [] then Inl 404
      else Inr (snd (publish_upload rq (ev_uploads db ! n) fresh (db\<lparr>ev_uploads := end_upload n (ev_uploads db)\<rparr>))))"

section \<open>Reading\<close>

definition live :: "instant \<Rightarrow> attachment \<Rightarrow> bool" where
  "live now a = (at_expires a > now)"

definition list_attachments :: "auth_user \<Rightarrow> string \<Rightarrow> instant \<Rightarrow> evidence_db \<Rightarrow> status + (string \<times> attachment) list" where
  "list_attachments u entry now db =
     rbind (require_entry (ev_tenants db) u entry) (\<lambda>_.
       Inr (sort_key (\<lambda>(i, a). (- at_uploaded a, i)) (filter (\<lambda>(_, a). at_entry a = entry \<and> live now a) (ev_attachments db))))"

definition download :: "store_env \<Rightarrow> auth_user \<Rightarrow> string \<Rightarrow> instant \<Rightarrow> evidence_db \<Rightarrow> status + string" where
  "download env u i now db = (case map_of (ev_attachments db) i of
     None \<Rightarrow> Inl 404
   | Some a \<Rightarrow>
       rbind (require_entry (ev_tenants db) u (at_entry a)) (\<lambda>_.
       if \<not> live now a then Inl 410
       else if at_scan a = ''quarantined'' then Inl 409
       else (case open_file env (ev_files db) (at_path a) of
           None \<Rightarrow> Inl 410
         | Some content \<Rightarrow> (case at_sha a of
             None \<Rightarrow> Inr content
           | Some h \<Rightarrow> if sha256_hex_of content \<noteq> h then Inl 410 else Inr content))))"

section \<open>Review\<close>

definition may_review :: "auth_user \<Rightarrow> bool" where
  "may_review u = (au_role u = ''super_admin'' \<or> au_role u = ''holding_admin'' \<or> au_role u = ''org_admin''
     \<or> au_role u = ''legal_specialist'')"

record review_request =
  rr_status :: string
  rr_comment :: string
  rr_verified :: "bool option"

definition put_attachment :: "string \<Rightarrow> attachment \<Rightarrow> evidence_db \<Rightarrow> status + evidence_db" where
  "put_attachment i a db =
     (if attachment_checks a then Inr (db\<lparr>ev_attachments := AList.update i a (ev_attachments db)\<rparr>) else Inl 500)"

definition review :: "request \<Rightarrow> auth_user \<Rightarrow> string \<Rightarrow> review_request \<Rightarrow> evidence_db \<Rightarrow> status + evidence_db" where
  "review rq u i r db =
     (if \<not> may_review u then Inl 403
      else (case map_of (ev_attachments db) i of
          None \<Rightarrow> Inl 404
        | Some a \<Rightarrow>
            if \<not> live (rq_now rq) a then Inl 404
            else rbind (require_entry (ev_tenants db) u (at_entry a)) (\<lambda>_.
              let comment = trim_space (rr_comment r); verify = (rr_verified r = Some True) in
              if rr_status r \<noteq> ''approved'' \<and> rr_status r \<noteq> ''rejected'' then Inl 400
              else if rr_status r = ''rejected'' \<and> comment = [] then Inl 400
              else if verify \<and> rr_status r \<noteq> ''approved'' then Inl 400
              else if verify \<and> mc_signer (at_meta a) = None then Inl 400
              else if au_id u \<notin> set (map fst (ev_users db)) then Inl 500
              else rbind (put_attachment i (a\<lparr>at_status := rr_status r, at_reviewer := Some (au_id u),
                     at_reviewed := Some (rq_now rq), at_comment := null_if_empty comment,
                     at_verified := (if verify then Some (rq_now rq) else None),
                     at_verifier := (if verify then Some (au_id u) else None)\<rparr>) db)
                   (log_audit rq ''attachment'' i ''review'' (au_id u) comment))))"

section \<open>Requisites\<close>

text \<open>
  \<open>UpdateMetadata\<close>: whether the requisites changed, which returns the document to its review, and
  the database.
\<close>

definition with_metadata :: "metadata_columns \<Rightarrow> attachment \<Rightarrow> attachment" where
  "with_metadata c a =
     (if at_meta a = c then a
      else a\<lparr>at_meta := c, at_status := ''pending'', at_reviewer := None, at_reviewed := None, at_comment := None,
             at_verified := None, at_verifier := None\<rparr>)"

definition update_metadata ::
  "request \<Rightarrow> auth_user \<Rightarrow> string \<Rightarrow> document_metadata \<Rightarrow> evidence_db \<Rightarrow> status + (bool \<times> evidence_db)" where
  "update_metadata rq u i m db = (case map_of (ev_attachments db) i of
     None \<Rightarrow> Inl 404
   | Some a \<Rightarrow>
       if \<not> live (rq_now rq) a then Inl 404
       else rbind (require_entry (ev_tenants db) u (at_entry a)) (\<lambda>_.
         case map_of (td_entries (ev_tenants db)) (at_entry a) of
           None \<Rightarrow> Inl 404
         | Some (category, _) \<Rightarrow>
             if au_entity u \<noteq> at_owner_entity a \<or> \<not> can_upload_document u category (at_type a) then Inl 403
             else (case normalize_metadata m (moscow_day (rq_now rq)) of
                 Inl _ \<Rightarrow> Inl 400
               | Inr out \<Rightarrow> (case to_columns out of
                   Inl _ \<Rightarrow> Inl 500
                 | Inr c \<Rightarrow>
                     rbind (put_attachment i (with_metadata c a) db) (\<lambda>db'.
                     rbind (log_audit rq ''attachment'' i ''metadata'' (au_id u) [] db') (\<lambda>db''.
                       Inr (at_meta a \<noteq> c, db''))))))) "

section \<open>Legal disputes\<close>

definition can_dispute_legally :: "auth_user \<Rightarrow> bool" where
  "can_dispute_legally u =
     (au_entity u = ''organization'' \<and> (au_role u = ''super_admin'' \<or> au_role u = ''holding_admin''
       \<or> au_role u = ''org_admin'' \<or> au_role u = ''legal_specialist''))"

record dispute_request =
  dr_action :: string
  dr_reason :: string
  dr_attachment :: string

definition list_disputes :: "auth_user \<Rightarrow> string \<Rightarrow> evidence_db \<Rightarrow> status + (string \<times> dispute) list" where
  "list_disputes u entry db =
     rbind (require_entry (ev_tenants db) u entry) (\<lambda>_.
       Inr (filter (\<lambda>(_, d). ld_entry d = entry) (ev_disputes db)))"

definition raise_dispute ::
  "request \<Rightarrow> auth_user \<Rightarrow> string \<Rightarrow> string \<Rightarrow> string \<Rightarrow> string \<Rightarrow> evidence_db \<Rightarrow> status + evidence_db" where
  "raise_dispute rq u entry reason att fresh db =
     (if att \<noteq> [] \<and> (case map_of (ev_attachments db) att of None \<Rightarrow> True | Some a \<Rightarrow> at_entry a \<noteq> entry) then Inl 400
      else let d = \<lparr>ld_entry = entry, ld_attachment = null_if_empty att, ld_reason = reason, ld_raised_by = au_id u,
                  ld_raised_at = rq_now rq, ld_lifted_by = None, ld_lifted_at = None, ld_lifted_reason = None\<rparr> in
        if \<not> dispute_checks d then Inl 500
        else if list_ex (\<lambda>(_, e). active_in entry e) (ev_disputes db) then Inl 409
        else if au_id u \<notin> set (map fst (ev_users db)) \<or> fresh \<in> set (map fst (ev_disputes db)) then Inl 500
        else Inr (db\<lparr>ev_disputes := ev_disputes db @ [(fresh, d)]\<rparr>))"

definition lift_one :: "request \<Rightarrow> string \<Rightarrow> string \<Rightarrow> dispute \<Rightarrow> dispute" where
  "lift_one rq user reason d =
     d\<lparr>ld_lifted_by := Some user, ld_lifted_at := Some (rq_now rq), ld_lifted_reason := Some reason\<rparr>"

definition lift_dispute :: "request \<Rightarrow> auth_user \<Rightarrow> string \<Rightarrow> string \<Rightarrow> evidence_db \<Rightarrow> status + evidence_db" where
  "lift_dispute rq u entry reason db =
     (if \<not> list_ex (\<lambda>(_, d). active_in entry d) (ev_disputes db) then Inl 409
      else if au_id u \<notin> set (map fst (ev_users db)) \<or> \<not> text_between 1 2000 reason then Inl 500
      else Inr (db\<lparr>ev_disputes := map (\<lambda>(i, d). (i, if active_in entry d then lift_one rq (au_id u) reason d else d))
             (ev_disputes db)\<rparr>))"

definition change_dispute ::
  "request \<Rightarrow> auth_user \<Rightarrow> string \<Rightarrow> dispute_request \<Rightarrow> string \<Rightarrow> evidence_db \<Rightarrow> status + evidence_db" where
  "change_dispute rq u entry r fresh db =
     (if \<not> can_dispute_legally u then Inl 403
      else rbind (require_entry (ev_tenants db) u entry) (\<lambda>_.
        let reason = trim_space (dr_reason r) in
        if reason = [] \<or> rune_count reason > 2000 then Inl 400
        else if dr_action r \<noteq> ''raise'' \<and> dr_action r \<noteq> ''lift'' then Inl 400
        else rbind (if dr_action r = ''raise'' then raise_dispute rq u entry reason (dr_attachment r) fresh db
                    else lift_dispute rq u entry reason db)
               (log_audit rq ''legal_dispute'' entry (''legal_dispute_'' @ dr_action r) (au_id u) reason)))"

section \<open>Retention\<close>

text \<open>
  Deleting an attachment queues its path (trigger) and clears the references of disputes to it. The
  statement takes 500 expired rows, any of them; the model takes the first.
\<close>

definition expired_ids :: "instant \<Rightarrow> evidence_db \<Rightarrow> string list" where
  "expired_ids now db = take 500 (map fst (filter (\<lambda>(_, a). at_expires a < now) (ev_attachments db)))"

definition forget_attachments :: "string list \<Rightarrow> dispute \<Rightarrow> dispute" where
  "forget_attachments gone d = (case ld_attachment d of
     Some a \<Rightarrow> if a \<in> set gone then d\<lparr>ld_attachment := None\<rparr> else d | None \<Rightarrow> d)"

definition delete_attachments :: "string list \<Rightarrow> evidence_db \<Rightarrow> evidence_db" where
  "delete_attachments gone db =
     db\<lparr>ev_attachments := filter (\<lambda>(i, _). i \<notin> set gone) (ev_attachments db),
        ev_queue := ev_queue db @ map (at_path \<circ> snd) (filter (\<lambda>(i, _). i \<in> set gone) (ev_attachments db)),
        ev_disputes := map (\<lambda>(i, d). (i, forget_attachments gone d)) (ev_disputes db)\<rparr>"

definition referenced :: "string \<Rightarrow> evidence_db \<Rightarrow> bool" where
  "referenced path db = list_ex (\<lambda>(_, a). at_path a = path) (ev_attachments db)"

fun drain_deletion_queue :: "nat \<Rightarrow> evidence_db \<Rightarrow> evidence_db" where
  "drain_deletion_queue 0 db = db"
| "drain_deletion_queue (Suc n) db = (case ev_queue db of
     [] \<Rightarrow> db
   | path # rest \<Rightarrow> drain_deletion_queue n
       (db\<lparr>ev_files := (if referenced path db then ev_files db else remove_file path (ev_files db)), ev_queue := rest\<rparr>))"

definition purge_expired_attachments :: "instant \<Rightarrow> evidence_db \<Rightarrow> evidence_db" where
  "purge_expired_attachments now db = drain_deletion_queue 500 (delete_attachments (expired_ids now db) db)"

section \<open>The evidence of an entry\<close>

text \<open>What the query of the projection reads: the documents with their review, the active dispute.\<close>

definition entry_documents :: "string \<Rightarrow> instant \<Rightarrow> evidence_db \<Rightarrow> string list" where
  "entry_documents entry now db =
     remdups (map (\<lambda>(_, a). at_type a @ '':'' @ at_status a) (filter (\<lambda>(_, a). at_entry a = entry \<and> live now a) (ev_attachments db)))"

definition dispute_reason :: "string \<Rightarrow> evidence_db \<Rightarrow> string" where
  "dispute_reason entry db = (case find (\<lambda>(_, d). active_in entry d) (ev_disputes db) of None \<Rightarrow> [] | Some (_, d) \<Rightarrow> ld_reason d)"

section \<open>Commands\<close>

datatype evidence_command =
    BeginUpload upload_config auth_user string string "upload_file list"
  | StageFile nat
  | CancelUpload nat
  | PublishUpload nat request "nat \<Rightarrow> string"
  | Upload request upload_config auth_user string string "upload_file list" "nat \<Rightarrow> string"
  | Review request auth_user string review_request
  | UpdateMetadata request auth_user string document_metadata
  | ChangeDispute request auth_user string dispute_request string
  | Purge instant

text \<open>
  The steps of uploads in any order with everything else; \<open>Upload\<close> is a whole upload that nothing
  interrupts. A refused upload leaves the clean-up of its files behind, any other refusal leaves nothing.
\<close>

definition evidence_step :: "store_env \<Rightarrow> evidence_command \<Rightarrow> evidence_db \<Rightarrow> status + evidence_db" where
  "evidence_step env c db = (case c of
     BeginUpload cfg u entry raw_type uploads \<Rightarrow>
       rbind (begin_upload cfg u entry raw_type uploads db) (\<lambda>p. Inr (db\<lparr>ev_uploads := ev_uploads db @ [p]\<rparr>))
   | StageFile n \<Rightarrow> stage_step env n db
   | CancelUpload n \<Rightarrow> cancel_step n db
   | PublishUpload n rq fresh \<Rightarrow> publish_step n rq fresh db
   | Upload rq cfg u entry raw_type uploads fresh \<Rightarrow> Inr (snd (upload env cfg rq u entry raw_type uploads fresh db))
   | Review rq u i r \<Rightarrow> review rq u i r db
   | UpdateMetadata rq u i m \<Rightarrow> rbind (update_metadata rq u i m db) (\<lambda>(_, db'). Inr db')
   | ChangeDispute rq u entry r fresh \<Rightarrow> change_dispute rq u entry r fresh db
   | Purge now \<Rightarrow> Inr (purge_expired_attachments now db))"

end
