(* ===== verification/DocumentLaws.thy ===== *)
theory DocumentLaws
  imports Documents
begin

text \<open>
  The laws of the evidence store: the constraints of its rows, the files that rows refer to, the
  review that belongs to the requisites it was made for, and disputes. The store is a machine over
  the commands of theory \<open>Documents\<close>; one lemma per operation says what it keeps: the tables in any
  order of steps, the files when no upload is interrupted.
\<close>

section \<open>Files in use\<close>

definition kept :: "store_env \<Rightarrow> files \<Rightarrow> files \<Rightarrow> bool" where
  "kept env old new = (\<forall>p. map_of old p \<noteq> None \<longrightarrow> map_of new p \<noteq> None \<and> open_file env new p = open_file env old p)"

lemma kept_refl [simp]: "kept env fs fs" by (simp add: kept_def)

lemma kept_trans: "kept env a b \<Longrightarrow> kept env b c \<Longrightarrow> kept env a c" by (simp add: kept_def)

lemma open_Some_dom: "open_file env fs p = Some c \<Longrightarrow> map_of fs p \<noteq> None"
  by (auto simp: open_file_def split: option.splits)

lemma kept_open: "kept env old new \<Longrightarrow> open_file env old p = Some c \<Longrightarrow> open_file env new p = Some c"
  using open_Some_dom [of env old p c] by (simp add: kept_def)

lemma kept_remove: "kept env old new \<Longrightarrow> map_of old p = None \<Longrightarrow> kept env old (remove_file p new)"
  unfolding kept_def remove_file_def [symmetric]
  by (metis open_remove map_of_delete_file remove_file_def)

definition intact :: "store_env \<Rightarrow> files \<Rightarrow> attachment \<Rightarrow> bool" where
  "intact env fs a = (case at_sha a of None \<Rightarrow> True
     | Some h \<Rightarrow> (\<exists>content. open_file env fs (at_path a) = Some content \<and> sha256_hex_of content = h))"

lemma intact_kept: "kept env old new \<Longrightarrow> intact env old a \<Longrightarrow> intact env new a"
  using kept_open by (auto simp: intact_def split: option.splits)

section \<open>Staging\<close>

definition mine :: "files \<Rightarrow> staged_file \<Rightarrow> bool" where
  "mine old s = (sf_shared s \<or> map_of old (sf_path s) = None)"

definition stages :: "upload_file \<Rightarrow> blob \<Rightarrow> staged_file \<Rightarrow> bool" where
  "stages f b s = (sf_name s = uf_name f \<and> sf_size s = uf_size f \<and> sf_path s = bl_path b \<and> sf_sha s = bl_sha b
     \<and> sf_shared s = bl_shared b)"

definition scanned :: "staged_file \<Rightarrow> bool" where
  "scanned s = (sf_scan s = ''clean'' \<or> sf_scan s = ''quarantined'' \<or> sf_scan s = ''unscanned'')"

lemma scan_outcome_scanned: "scan_outcome cfg v = Inr scan \<Longrightarrow> scan = ''clean'' \<or> scan = ''quarantined'' \<or> scan = ''unscanned''"
  unfolding scan_outcome_def by (simp split: verdict.splits if_splits)

lemma scan_outcome_held: "scan_outcome cfg v = Inr scan \<Longrightarrow> (scan = ''quarantined'') = (v = VerdictUnavailable)"
  unfolding scan_outcome_def by (auto split: verdict.splits if_splits)

lemma stage_file_cases:
  obtains (unwritten) "stage_file env cfg f (staged, fs) = Inl (500, staged, fs)"
  | (other_size) b fs1 where "create_blob env (uf_content f) max_attachment_size fs = Inr (b, fs1)"
      "stage_file env cfg f (staged, fs) = Inl (500, staged, if bl_shared b then fs1 else remove_file (bl_path b) fs1)"
  | (refused) b fs1 s st where "create_blob env (uf_content f) max_attachment_size fs = Inr (b, fs1)" "stages f b s"
      "stage_file env cfg f (staged, fs) = Inl (st, staged @ [s], fs1)"
  | (accepted) b fs1 s where "create_blob env (uf_content f) max_attachment_size fs = Inr (b, fs1)" "stages f b s" "scanned s"
      "\<exists>content. open_file env fs1 (bl_path b) = Some content
         \<and> (sf_scan s = ''quarantined'') = (sc_verdict (inspect env content) = VerdictUnavailable)"
      "stage_file env cfg f (staged, fs) = Inr (staged @ [s], fs1)"
proof (cases "create_blob env (uf_content f) max_attachment_size fs")
  case (Inl e)
  show ?thesis by (rule unwritten) (simp add: stage_file_def Inl)
next
  case (Inr r)
  obtain b fs1 where r: "r = (b, fs1)" by fastforce
  note created = Inr [unfolded r]
  let ?entry = "\<lambda>scan signature. \<lparr>sf_name = uf_name f, sf_path = bl_path b, sf_sha = bl_sha b, sf_size = uf_size f,
                  sf_shared = bl_shared b, sf_scan = scan, sf_signature = signature\<rparr>"
  have entry: "stages f b (?entry scan signature)" for scan signature by (simp add: stages_def)
  show ?thesis
  proof (cases "bl_size b = uf_size f")
    case False
    show ?thesis by (rule other_size [OF created]) (simp add: stage_file_def created False)
  next
    case True
    show ?thesis
    proof (cases "open_file env fs1 (bl_path b)")
      case None
      show ?thesis by (rule refused [OF created entry]) (simp add: stage_file_def created True None)
    next
      case (Some content)
      show ?thesis
      proof (cases "succeeds (validate_file env (uf_name f) content)")
        case False
        show ?thesis by (rule refused [OF created entry]) (simp add: stage_file_def created True Some False)
      next
        case valid: True
        show ?thesis
        proof (cases "scan_outcome cfg (sc_verdict (inspect env content))")
          case (Inl st)
          show ?thesis by (rule refused [OF created entry]) (simp add: stage_file_def created True Some valid Inl)
        next
          case (Inr scan)
          have "scanned (?entry scan (sc_signature (inspect env content)))"
            using scan_outcome_scanned [OF Inr] by (simp add: scanned_def)
          then show ?thesis
            by (rule accepted [OF created entry]) (use Some scan_outcome_held [OF Inr] in \<open>simp_all add: stage_file_def created True valid Inr\<close>)
        qed
      qed
    qed
  qed
qed

lemma created_blob:
  assumes "create_blob env src max_attachment_size fs = Inr (b, fs1)" "faithful env"
  shows "kept env fs fs1" "bl_sha b = sha256_hex_of src" "bl_shared b \<or> map_of fs (bl_path b) = None"
    "\<exists>content. open_file env fs1 (bl_path b) = Some content \<and> sha256_hex_of content = bl_sha b"
proof -
  have "max_attachment_size \<le> max_decoded_blob_size" by (simp add: max_attachment_size_def max_decoded_blob_size_def)
  note r = create_blob_result [OF assms this]
  show "kept env fs fs1" using r(5) by (simp add: kept_def)
  show "bl_sha b = sha256_hex_of src" by (rule r(1))
  show "bl_shared b \<or> map_of fs (bl_path b) = None" using r(7) by (cases "bl_shared b") simp_all
  show "\<exists>content. open_file env fs1 (bl_path b) = Some content \<and> sha256_hex_of content = bl_sha b"
    using r(4) unfolding r(1) .
qed

text \<open>
  A staged file is in the store with its digest, and it is held in quarantine exactly when the scanner
  could not be asked about it.
\<close>

definition stored :: "store_env \<Rightarrow> files \<Rightarrow> staged_file \<Rightarrow> bool" where
  "stored env fs s = (scanned s \<and> (\<exists>content. open_file env fs (sf_path s) = Some content \<and> sha256_hex_of content = sf_sha s
     \<and> (sf_scan s = ''quarantined'') = (sc_verdict (inspect env content) = VerdictUnavailable)))"

definition for_upload :: "upload_file \<Rightarrow> staged_file \<Rightarrow> bool" where
  "for_upload f s = (sf_name s = uf_name f \<and> sf_size s = uf_size f \<and> sf_sha s = sha256_hex_of (uf_content f))"

lemma stored_kept: "kept env old new \<Longrightarrow> stored env old s \<Longrightarrow> stored env new s"
  using kept_open by (auto simp: stored_def)

text \<open>What every turn keeps, whether it ends the loop or not.\<close>

lemma stage_file_accepted:
  assumes "stage_file env cfg f (staged, fs) = Inr r" "faithful env" "kept env old fs" "list_all (mine old) staged"
  obtains s fs1 where "r = (staged @ [s], fs1)" "for_upload f s" "kept env fs fs1" "mine old s" "stored env fs1 s"
proof (cases env cfg f staged fs rule: stage_file_cases)
  case (accepted b fs1 s)
  note c = created_blob [OF accepted(1) assms(2)]
  have "map_of fs p = None \<Longrightarrow> map_of old p = None" for p using assms(3) by (auto simp: kept_def)
  then have "mine old s" using c(3) accepted(2) by (auto simp: mine_def stages_def)
  moreover have "stored env fs1 s" "for_upload f s" using c accepted(2-4) by (auto simp: stored_def stages_def for_upload_def)
  moreover have "r = (staged @ [s], fs1)" using accepted(5) assms(1) by simp
  ultimately show ?thesis using that c(1) by blast
qed (use assms(1) in simp_all)

lemma stage_file_failed:
  assumes "stage_file env cfg f (staged, fs) = Inl (st, staged', fs')" "faithful env" "kept env old fs" "list_all (mine old) staged"
  shows "kept env old fs' \<and> list_all (mine old) staged'"
proof -
  have old: "map_of fs p = None \<Longrightarrow> map_of old p = None" for p using assms(3) by (auto simp: kept_def)
  show ?thesis
  proof (cases env cfg f staged fs rule: stage_file_cases)
    case unwritten
    then show ?thesis using assms by simp
  next
    case (other_size b fs1)
    note c = created_blob [OF other_size(1) assms(2)]
    have "kept env old fs1" using kept_trans [OF assms(3) c(1)] .
    then have "kept env old (if bl_shared b then fs1 else remove_file (bl_path b) fs1)" using c(3) old kept_remove by auto
    then show ?thesis using other_size(2) assms(1,4) by simp
  next
    case (refused b fs1 s st)
    note c = created_blob [OF refused(1) assms(2)]
    have "mine old s" using c(3) old refused(2) by (auto simp: mine_def stages_def)
    then show ?thesis using refused(3) assms(1,4) kept_trans [OF assms(3) c(1)] by simp
  next
    case (accepted b fs1 s)
    then show ?thesis using assms(1) by simp
  qed
qed

lemma stage_all:
  assumes "faithful env" "kept env old fs" "list_all (mine old) staged" "list_all (stored env fs) staged"
  shows "(\<forall>st staged' fs'. fold_result (stage_file env cfg) uploads (staged, fs) = Inl (st, staged', fs') \<longrightarrow>
        kept env old fs' \<and> list_all (mine old) staged')
    \<and> (\<forall>staged' fs'. fold_result (stage_file env cfg) uploads (staged, fs) = Inr (staged', fs') \<longrightarrow>
        kept env old fs' \<and> list_all (mine old) staged' \<and> list_all (stored env fs') staged'
        \<and> (\<exists>new. staged' = staged @ new \<and> list_all2 for_upload uploads new))"
  using assms
proof (induction uploads arbitrary: staged fs)
  case (Cons f uploads)
  show ?case
  proof (cases "stage_file env cfg f (staged, fs)")
    case (Inl e)
    obtain st staged' fs' where e: "e = (st, staged', fs')" by (metis prod_cases3)
    show ?thesis using stage_file_failed [OF Inl [unfolded e] Cons.prems(1-3)] by (simp add: Inl e)
  next
    case (Inr r)
    obtain s fs1 where r: "r = (staged @ [s], fs1)" "for_upload f s" "kept env fs fs1" "mine old s" "stored env fs1 s"
      using stage_file_accepted [OF Inr Cons.prems(1-3)] by blast
    have "list_all (stored env fs1) (staged @ [s])" using Cons.prems(4) r(3,5) stored_kept by (auto simp: list_all_iff)
    from Cons.IH [OF Cons.prems(1) kept_trans [OF Cons.prems(2) r(3)] _ this]
    show ?thesis using Cons.prems(3) r by (simp add: Inr) (metis append.assoc append_Cons append_Nil list.rel_intros(2))
  qed
qed simp

lemma unstage_keeps: "kept env old fs \<Longrightarrow> list_all (mine old) staged \<Longrightarrow> kept env old (unstage staged fs)"
  unfolding unstage_def
proof (induction staged arbitrary: fs)
  case (Cons s staged)
  then show ?case using kept_remove by (auto simp: mine_def)
qed simp

section \<open>Rows\<close>

definition rows_ok :: "store_env \<Rightarrow> files \<Rightarrow> (string \<times> attachment) list \<Rightarrow> bool" where
  "rows_ok env fs rows = (distinct (map fst rows) \<and> (\<forall>(i, a) \<in> set rows. attachment_checks a \<and> intact env fs a))"

definition disputes_ok :: "(string \<times> dispute) list \<Rightarrow> bool" where
  "disputes_ok ds = (distinct (map fst ds) \<and> (\<forall>(i, d) \<in> set ds. dispute_checks d)
     \<and> (\<forall>entry. length (filter (\<lambda>(_, d). active_in entry d) ds) \<le> 1))"

definition evidence_ok :: "store_env \<Rightarrow> evidence_db \<Rightarrow> bool" where
  "evidence_ok env db = (rows_ok env (ev_files db) (ev_attachments db) \<and> disputes_ok (ev_disputes db))"

definition tables_ok :: "evidence_db \<Rightarrow> bool" where
  "tables_ok db = (distinct (map fst (ev_attachments db)) \<and> (\<forall>(i, a) \<in> set (ev_attachments db). attachment_checks a)
     \<and> disputes_ok (ev_disputes db))"

definition files_ok :: "store_env \<Rightarrow> evidence_db \<Rightarrow> bool" where
  "files_ok env db = (\<forall>(i, a) \<in> set (ev_attachments db). intact env (ev_files db) a)"

lemma evidence_ok_split: "evidence_ok env db \<longleftrightarrow> tables_ok db \<and> files_ok env db"
  by (auto simp: evidence_ok_def rows_ok_def tables_ok_def files_ok_def)

lemma log_audit_frame:
  "log_audit rq et e act user note db = Inr db' \<Longrightarrow> \<exists>j. db' = db\<lparr>ev_journal := j\<rparr>"
  by (auto simp: log_audit_def split: sum.splits)

lemma rows_kept: "kept env old new \<Longrightarrow> rows_ok env old rows \<Longrightarrow> rows_ok env new rows"
  using intact_kept by (auto simp: rows_ok_def)

lemma rows_append:
  assumes "rows_ok env fs xs" "\<And>i a. (i, a) \<in> set ys \<Longrightarrow> attachment_checks a \<and> intact env fs a" "distinct (map fst (xs @ ys))"
  shows "rows_ok env fs (xs @ ys)"
  using assms by (auto simp: rows_ok_def)

text \<open>The columns that tie a row to its file, which no operation changes.\<close>

definition file_columns :: "attachment \<Rightarrow> string \<times> string \<times> int \<times> string option \<times> instant \<times> string" where
  "file_columns a = (at_entry a, at_path a, at_size a, at_sha a, at_expires a, at_scan a)"

lemma rows_update:
  assumes "rows_ok env fs rows" "map_of rows i = Some a" "file_columns b = file_columns a" "attachment_checks b"
  shows "rows_ok env fs (AList.update i b rows)"
proof -
  have "intact env fs a" using assms(1) map_of_SomeD [OF assms(2)] by (auto simp: rows_ok_def)
  then have "intact env fs b" using assms(3) by (auto simp: intact_def file_columns_def split: option.splits)
  moreover have "set (AList.update i b rows) \<subseteq> insert (i, b) (set rows)" by (induction rows) auto
  ultimately show ?thesis using assms(1,4) by (auto simp: rows_ok_def distinct_update)
qed

subsection \<open>Publishing an upload\<close>

lemma insert_staged_frame:
  assumes "insert_staged rq row user entry document expires (i, s) db = Inr db'"
  shows "\<exists>j. db' = db\<lparr>ev_attachments := ev_attachments db @ [(i, new_attachment row user entry document (rq_now rq) expires s)],
      ev_journal := j\<rparr>"
    "attachment_checks (new_attachment row user entry document (rq_now rq) expires s)" "i \<notin> set (map fst (ev_attachments db))"
  using assms by (auto simp: insert_staged_def Let_def split: if_splits dest!: log_audit_frame)

lemma insert_all_frame:
  assumes "fold_result (insert_staged rq row user entry document expires) xs db = Inr db'"
  shows "(\<exists>j. db' = db\<lparr>ev_attachments := ev_attachments db @ map (\<lambda>(i, s). (i, new_attachment row user entry document (rq_now rq) expires s)) xs,
      ev_journal := j\<rparr>) \<and> (distinct (map fst (ev_attachments db)) \<longrightarrow> distinct (map fst (ev_attachments db'))) \<and>
    (\<forall>(i, s) \<in> set xs. attachment_checks (new_attachment row user entry document (rq_now rq) expires s))"
  using assms
proof (induction xs arbitrary: db)
  case Nil
  then have "db' = db" by simp
  then have "db' = db\<lparr>ev_attachments := ev_attachments db @ [], ev_journal := ev_journal db\<rparr>" by simp
  then show ?case by (metis list.simps(8) list.set(1) empty_iff \<open>db' = db\<close>)
next
  case (Cons x xs)
  obtain i s where x: "x = (i, s)" by fastforce
  from Cons.prems obtain db1 where one: "insert_staged rq row user entry document expires (i, s) db = Inr db1"
    and rest: "fold_result (insert_staged rq row user entry document expires) xs db1 = Inr db'" unfolding x by (auto simp: result_simps)
  note f = insert_staged_frame [OF one]
  from Cons.IH [OF rest] f show ?case unfolding x by auto
qed

lemma commit_upload_frame:
  assumes "commit_upload rq cfg user entry category document staged ids db = Inr db'"
  obtains row days j where "map_of (ev_users db) user = Some row" "ur_active row" "retention_days db = Inr days"
    "db' = db\<lparr>ev_attachments := ev_attachments db @ map (\<lambda>(i, s). (i, new_attachment row user entry document (rq_now rq)
         (rq_now rq + days * day_ns) s)) (zip ids staged), ev_journal := j\<rparr>"
    "distinct (map fst (ev_attachments db)) \<Longrightarrow> distinct (map fst (ev_attachments db'))"
    "\<forall>(i, s) \<in> set (zip ids staged). attachment_checks (new_attachment row user entry document (rq_now rq) (rq_now rq + days * day_ns) s)"
proof -
  obtain row where row: "map_of (ev_users db) user = Some row" "ur_active row"
    using assms by (auto simp: commit_upload_def split: option.splits if_splits)
  obtain days where days: "retention_days db = Inr days"
    and all: "fold_result (insert_staged rq row user entry document (rq_now rq + days * day_ns)) (zip ids staged) db = Inr db'"
    using assms row by (auto simp: commit_upload_def Let_def result_simps split: option.splits if_splits)
  from insert_all_frame [OF all] row days that show ?thesis by blast
qed

text \<open>The loop over the files of an upload, and the handler, when nothing else runs in between.\<close>

lemma stage_files_fold:
  "length (pu_todo p) = n \<Longrightarrow> stage_files n env p fs =
    (case fold_result (stage_file env (pu_config p)) (pu_todo p) (pu_staged p, fs) of
       Inl (st, staged, fs') \<Rightarrow> Inl (st, unstage staged fs')
     | Inr (staged, fs') \<Rightarrow> Inr (p\<lparr>pu_todo := [], pu_staged := staged\<rparr>, fs'))"
proof (induction n arbitrary: p fs)
  case (Suc n)
  then obtain f rest where todo: "pu_todo p = f # rest" "length rest = n" by (auto simp: length_Suc_conv)
  have same: "p\<lparr>pu_todo := rest, pu_staged := a, pu_todo := [], pu_staged := b\<rparr> = p\<lparr>pu_todo := [], pu_staged := b\<rparr>" for a b
    by (cases p) simp
  show ?case using Suc.IH [of "p\<lparr>pu_todo := rest, pu_staged := staged\<rparr>" for staged] todo
    by (cases "stage_file env (pu_config p) f (pu_staged p, fs)") (auto simp: stage_next_def same split: prod.splits sum.splits)
qed simp

lemma upload_unfold:
  "upload env cfg rq u entry raw_type uploads fresh db =
     (case check_upload u entry raw_type uploads db of
        Inl st \<Rightarrow> (Inl st, db)
      | Inr category \<Rightarrow>
          (case fold_result (stage_file env cfg) uploads ([], ev_files db) of
             Inl (st, staged, fs) \<Rightarrow> (Inl st, db\<lparr>ev_files := unstage staged fs\<rparr>)
           | Inr (staged, fs) \<Rightarrow>
               (case commit_upload rq cfg (au_id u) entry category (document_type_of raw_type) staged
                       (map fresh [0..<length staged]) (db\<lparr>ev_files := fs\<rparr>) of
                  Inl st \<Rightarrow> (Inl st, db\<lparr>ev_files := unstage staged fs\<rparr>)
                | Inr db' \<Rightarrow> (Inr (map fresh [0..<length staged]), db'))))"
proof (cases "check_upload u entry raw_type uploads db")
  case (Inr category)
  let ?p = "\<lparr>pu_user = u, pu_config = cfg, pu_entry = entry, pu_category = category, pu_document = document_type_of raw_type,
      pu_todo = uploads, pu_staged = []\<rparr>"
  show ?thesis using stage_files_fold [of ?p "length uploads" env "ev_files db"]
    by (cases "fold_result (stage_file env cfg) uploads ([], ev_files db)")
      (auto simp: upload_def begin_upload_def Inr publish_upload_def Let_def split: sum.splits)
qed (simp add: upload_def begin_upload_def)

lemma upload_cases:
  obtains (refused) st fs where "upload env cfg rq u entry t uploads fresh db = (Inl st, db\<lparr>ev_files := fs\<rparr>)"
      "faithful env \<Longrightarrow> kept env (ev_files db) fs"
  | (published) category staged fs db' where
      "upload env cfg rq u entry t uploads fresh db = (Inr (map fresh [0..<length staged]), db')"
      "check_upload u entry t uploads db = Inr category"
      "commit_upload rq cfg (au_id u) entry category (document_type_of t) staged (map fresh [0..<length staged])
         (db\<lparr>ev_files := fs\<rparr>) = Inr db'"
      "faithful env \<Longrightarrow> kept env (ev_files db) fs \<and> list_all (stored env fs) staged \<and> list_all2 for_upload uploads staged"
proof (cases "check_upload u entry t uploads db")
  case (Inl st)
  show ?thesis by (rule refused [of st "ev_files db"]) (simp_all add: upload_unfold Inl)
next
  case (Inr category)
  note ok = Inr
  have all: "faithful env \<Longrightarrow> (\<forall>st staged' fs'. fold_result (stage_file env cfg) uploads ([], ev_files db) = Inl (st, staged', fs') \<longrightarrow>
        kept env (ev_files db) fs' \<and> list_all (mine (ev_files db)) staged')
    \<and> (\<forall>staged' fs'. fold_result (stage_file env cfg) uploads ([], ev_files db) = Inr (staged', fs') \<longrightarrow>
        kept env (ev_files db) fs' \<and> list_all (mine (ev_files db)) staged' \<and> list_all (stored env fs') staged'
        \<and> list_all2 for_upload uploads staged')"
    using stage_all [of env "ev_files db" "ev_files db" "[]" cfg uploads] by simp
  show ?thesis
  proof (cases "fold_result (stage_file env cfg) uploads ([], ev_files db)")
    case (Inl e)
    obtain st staged fs where e: "e = (st, staged, fs)" by (metis prod_cases3)
    show ?thesis
    proof (rule refused)
      show "upload env cfg rq u entry t uploads fresh db = (Inl st, db\<lparr>ev_files := unstage staged fs\<rparr>)"
        by (simp add: upload_unfold ok Inl e)
    qed (use all Inl e unstage_keeps in simp)
  next
    case (Inr r)
    obtain staged fs where r: "r = (staged, fs)" by fastforce
    show ?thesis
    proof (cases "commit_upload rq cfg (au_id u) entry category (document_type_of t) staged (map fresh [0..<length staged]) (db\<lparr>ev_files := fs\<rparr>)")
      case (Inl st)
      show ?thesis
      proof (rule refused)
        show "upload env cfg rq u entry t uploads fresh db = (Inl st, db\<lparr>ev_files := unstage staged fs\<rparr>)"
          by (simp add: upload_unfold ok Inr r Inl)
      qed (use all Inr r unstage_keeps in simp)
    next
      case committed: (Inr db')
      show ?thesis by (rule published [OF _ ok committed]) (use all Inr r committed ok in \<open>simp_all add: upload_unfold\<close>)
    qed
  qed
qed

subsection \<open>Review and requisites\<close>

lemma put_attachment_frame:
  "put_attachment i a db = Inr db' \<longleftrightarrow> attachment_checks a \<and> db' = db\<lparr>ev_attachments := AList.update i a (ev_attachments db)\<rparr>"
  by (auto simp: put_attachment_def)

definition changed_row :: "string \<Rightarrow> attachment \<Rightarrow> attachment \<Rightarrow> evidence_db \<Rightarrow> evidence_db \<Rightarrow> bool" where
  "changed_row i a b db db' = (map_of (ev_attachments db) i = Some a \<and> file_columns b = file_columns a \<and> attachment_checks b
     \<and> (\<exists>j. db' = db\<lparr>ev_attachments := AList.update i b (ev_attachments db), ev_journal := j\<rparr>))"

lemma review_frame:
  assumes "review rq u i r db = Inr db'"
  shows "\<exists>a b. changed_row i a b db db' \<and> at_meta b = at_meta a \<and> may_review u \<and> at_reviewer b = Some (au_id u)
    \<and> at_status b = rr_status r \<and> (at_verified b \<noteq> None \<longrightarrow> at_verifier b = Some (au_id u))"
proof -
  obtain a where a: "map_of (ev_attachments db) i = Some a" "may_review u"
    using assms by (auto simp: review_def split: option.splits if_splits)
  let ?b = "a\<lparr>at_status := rr_status r, at_reviewer := Some (au_id u), at_reviewed := Some (rq_now rq),
      at_comment := null_if_empty (trim_space (rr_comment r)), at_verified := (if rr_verified r = Some True then Some (rq_now rq) else None),
      at_verifier := (if rr_verified r = Some True then Some (au_id u) else None)\<rparr>"
  obtain db1 where "put_attachment i ?b db = Inr db1"
      "log_audit rq ''attachment'' i ''review'' (au_id u) (trim_space (rr_comment r)) db1 = Inr db'"
    using assms a by (auto simp: review_def Let_def result_simps split: if_splits)
  then have "changed_row i a ?b db db'"
    using a log_audit_frame by (fastforce simp: changed_row_def put_attachment_frame file_columns_def)
  then show ?thesis using a(2) by (intro exI [of _ a] exI [of _ ?b]) simp
qed

lemma update_metadata_frame:
  assumes "update_metadata rq u i m db = Inr (changed, db')"
  shows "\<exists>a c. changed_row i a (with_metadata c a) db db' \<and> changed = (at_meta a \<noteq> c)"
proof -
  obtain a where a: "map_of (ev_attachments db) i = Some a"
    using assms by (auto simp: update_metadata_def split: option.splits)
  obtain c db1 where c: "put_attachment i (with_metadata c a) db = Inr db1"
      "log_audit rq ''attachment'' i ''metadata'' (au_id u) [] db1 = Inr db'" "changed = (at_meta a \<noteq> c)"
    using assms a by (auto simp: update_metadata_def result_simps split: if_splits option.splits sum.splits)
  have "file_columns (with_metadata c a) = file_columns a" by (simp add: with_metadata_def file_columns_def)
  then have "changed_row i a (with_metadata c a) db db'"
    using a c log_audit_frame by (fastforce simp: changed_row_def put_attachment_frame)
  then show ?thesis using c(3) by blast
qed

lemma changed_row_tables:
  assumes "changed_row i a b db db'" "tables_ok db"
  shows "tables_ok db'"
proof -
  have "set (AList.update i b rows) \<subseteq> insert (i, b) (set rows)" for rows :: "(string \<times> attachment) list" by (induction rows) auto
  then show ?thesis using assms by (fastforce simp: changed_row_def tables_ok_def distinct_update)
qed

lemma changed_row_ok:
  assumes "changed_row i a b db db'" "evidence_ok env db"
  shows "evidence_ok env db'"
proof -
  have "rows_ok env (ev_files db) (AList.update i b (ev_attachments db))"
    using assms rows_update by (auto simp: changed_row_def evidence_ok_def)
  then show ?thesis using assms by (auto simp: changed_row_def evidence_ok_def)
qed

subsection \<open>Disputes\<close>

lemma raise_dispute_ok:
  assumes "raise_dispute rq u entry reason att fresh db = Inr db'" "disputes_ok (ev_disputes db)"
  shows "\<exists>d. db' = db\<lparr>ev_disputes := ev_disputes db @ [(fresh, d)]\<rparr> \<and> active_in entry d \<and> ld_reason d = reason
    \<and> disputes_ok (ev_disputes db') \<and> \<not> list_ex (\<lambda>(_, e). active_in entry e) (ev_disputes db)"
proof -
  let ?d = "\<lparr>ld_entry = entry, ld_attachment = null_if_empty att, ld_reason = reason, ld_raised_by = au_id u,
      ld_raised_at = rq_now rq, ld_lifted_by = None, ld_lifted_at = None, ld_lifted_reason = None\<rparr>"
  have r: "db' = db\<lparr>ev_disputes := ev_disputes db @ [(fresh, ?d)]\<rparr>" "dispute_checks ?d" "fresh \<notin> set (map fst (ev_disputes db))"
      "\<not> list_ex (\<lambda>(_, e). active_in entry e) (ev_disputes db)"
    using assms(1) by (auto simp: raise_dispute_def Let_def split: if_splits)
  have "filter (\<lambda>(_, d). active_in entry d) (ev_disputes db) = []"
    using r(4) by (auto simp: filter_empty_conv list_ex_iff)
  moreover have "\<not> active_in other ?d" if "other \<noteq> entry" for other using that by (simp add: active_in_def)
  ultimately have "length (filter (\<lambda>(_, d). active_in other d) (ev_disputes db @ [(fresh, ?d)])) \<le> 1" for other
    using assms(2) by (cases "other = entry") (simp_all add: disputes_ok_def)
  then have "disputes_ok (ev_disputes db @ [(fresh, ?d)])" using assms(2) r(2,3) by (auto simp: disputes_ok_def)
  then show ?thesis using r(1,4) by (intro exI [of _ ?d]) (simp add: active_in_def)
qed

lemma disputes_map:
  assumes "disputes_ok ds" "\<And>i d. (i, d) \<in> set ds \<Longrightarrow> dispute_checks (f d) \<and> ld_entry (f d) = ld_entry d \<and> (ld_lifted_at (f d) = None \<longrightarrow> ld_lifted_at d = None)"
  shows "disputes_ok (map (\<lambda>(i, d). (i, f d)) ds)"
proof -
  have "length (filter (\<lambda>(_, d). active_in entry d) (map (\<lambda>(i, d). (i, f d)) es)) \<le> length (filter (\<lambda>(_, d). active_in entry d) es)"
    if "set es \<subseteq> set ds" for es entry
    using that
  proof (induction es)
    case (Cons e es)
    then show ?case using assms(2) [of "fst e" "snd e"] by (auto simp: active_in_def split: prod.splits)
  qed simp
  then have "length (filter (\<lambda>(_, d). active_in entry d) (map (\<lambda>(i, d). (i, f d)) ds)) \<le> 1" for entry
    using assms(1) order_trans [of _ "length (filter (\<lambda>(_, d). active_in entry d) ds)" 1] by (simp add: disputes_ok_def)
  moreover have "map fst (map (\<lambda>(i, d). (i, f d)) ds) = map fst ds" by (induction ds) auto
  then have "distinct (map fst (map (\<lambda>(i, d). (i, f d)) ds))" using assms(1) by (simp only: disputes_ok_def)
  moreover have "\<forall>(i, d) \<in> set (map (\<lambda>(i, d). (i, f d)) ds). dispute_checks d" using assms(2) by auto
  ultimately show ?thesis unfolding disputes_ok_def by blast
qed

lemma change_dispute_frame:
  assumes "change_dispute rq u entry r fresh db = Inr db'"
  shows "\<exists>j db1. db' = db1\<lparr>ev_journal := j\<rparr> \<and> can_dispute_legally u \<and> require_entry (ev_tenants db) u entry = Inr ()
    \<and> (dr_action r = ''raise'' \<and> raise_dispute rq u entry (trim_space (dr_reason r)) (dr_attachment r) fresh db = Inr db1
     \<or> dr_action r = ''lift'' \<and> lift_dispute rq u entry (trim_space (dr_reason r)) db = Inr db1)"
proof -
  obtain db1 where act: "(if dr_action r = ''raise'' then raise_dispute rq u entry (trim_space (dr_reason r)) (dr_attachment r) fresh db
         else lift_dispute rq u entry (trim_space (dr_reason r)) db) = Inr db1"
      "log_audit rq ''legal_dispute'' entry (''legal_dispute_'' @ dr_action r) (au_id u) (trim_space (dr_reason r)) db1 = Inr db'"
      "dr_action r = ''raise'' \<or> dr_action r = ''lift''" "can_dispute_legally u" "require_entry (ev_tenants db) u entry = Inr ()"
    using assms unfolding change_dispute_def Let_def by (auto simp: result_simps split: if_splits)
  from log_audit_frame [OF act(2)] obtain j where "db' = db1\<lparr>ev_journal := j\<rparr>" by blast
  moreover have "dr_action r = ''raise'' \<and> raise_dispute rq u entry (trim_space (dr_reason r)) (dr_attachment r) fresh db = Inr db1
     \<or> dr_action r = ''lift'' \<and> lift_dispute rq u entry (trim_space (dr_reason r)) db = Inr db1"
    using act(1,3) by (cases "dr_action r = ''raise''") simp_all
  ultimately show ?thesis using act(4,5) by (intro exI [of _ j] exI [of _ db1] conjI)
qed

lemma lift_dispute_frame:
  assumes "lift_dispute rq u entry reason db = Inr db'"
  shows "db' = db\<lparr>ev_disputes := map (\<lambda>(i, d). (i, if active_in entry d then lift_one rq (au_id u) reason d else d)) (ev_disputes db)\<rparr>
    \<and> text_between 1 2000 reason"
  using assms by (auto simp: lift_dispute_def split: if_splits)

lemma lift_dispute_ok:
  assumes "lift_dispute rq u entry reason db = Inr db'" "disputes_ok (ev_disputes db)"
  shows "disputes_ok (ev_disputes db')"
proof -
  have "disputes_ok (map (\<lambda>(i, d). (i, if active_in entry d then lift_one rq (au_id u) reason d else d)) (ev_disputes db))"
    by (rule disputes_map [OF assms(2)])
      (use assms(2) lift_dispute_frame [OF assms(1)] in
        \<open>auto simp: lift_one_def dispute_checks_def disputes_ok_def optional_text_between_def\<close>)
  then show ?thesis using lift_dispute_frame [OF assms(1)] by simp
qed

lemma change_dispute_rows:
  assumes "change_dispute rq u entry r fresh db = Inr db'"
  shows "\<exists>ds j. db' = db\<lparr>ev_disputes := ds, ev_journal := j\<rparr>"
proof -
  from change_dispute_frame [OF assms] obtain j db1 where j: "db' = db1\<lparr>ev_journal := j\<rparr>"
    and act: "raise_dispute rq u entry (trim_space (dr_reason r)) (dr_attachment r) fresh db = Inr db1
       \<or> lift_dispute rq u entry (trim_space (dr_reason r)) db = Inr db1" by blast
  have "\<exists>ds. db1 = db\<lparr>ev_disputes := ds\<rparr>" using act
  proof
    assume "raise_dispute rq u entry (trim_space (dr_reason r)) (dr_attachment r) fresh db = Inr db1"
    then show ?thesis unfolding raise_dispute_def Let_def by (simp split: if_splits) blast
  next
    assume "lift_dispute rq u entry (trim_space (dr_reason r)) db = Inr db1"
    from lift_dispute_frame [OF this] show ?thesis by blast
  qed
  then obtain ds where "db1 = db\<lparr>ev_disputes := ds\<rparr>" by blast
  then have "db' = db\<lparr>ev_disputes := ds, ev_journal := j\<rparr>" using j by simp
  then show ?thesis by blast
qed

lemma change_dispute_tables:
  assumes "change_dispute rq u entry r fresh db = Inr db'" "tables_ok db"
  shows "tables_ok db'"
proof -
  have d: "disputes_ok (ev_disputes db)" using assms(2) by (simp add: tables_ok_def)
  from change_dispute_frame [OF assms(1)] obtain j db1 where j: "db' = db1\<lparr>ev_journal := j\<rparr>"
    and act: "raise_dispute rq u entry (trim_space (dr_reason r)) (dr_attachment r) fresh db = Inr db1
       \<or> lift_dispute rq u entry (trim_space (dr_reason r)) db = Inr db1" by blast
  have "ev_attachments db1 = ev_attachments db \<and> disputes_ok (ev_disputes db1)"
    using act raise_dispute_ok [OF _ d] lift_dispute_ok [OF _ d] lift_dispute_frame by fastforce
  then show ?thesis using assms(2) by (simp add: tables_ok_def j)
qed

lemma change_dispute_ok:
  assumes "change_dispute rq u entry r fresh db = Inr db'" "evidence_ok env db"
  shows "evidence_ok env db'"
  using change_dispute_tables [OF assms(1)] change_dispute_rows [OF assms(1)] assms(2)
  by (auto simp: evidence_ok_split files_ok_def)

subsection \<open>Retention\<close>

lemma drain_frame:
  "ev_attachments (drain_deletion_queue n db) = ev_attachments db \<and> ev_disputes (drain_deletion_queue n db) = ev_disputes db
    \<and> ev_users (drain_deletion_queue n db) = ev_users db \<and> ev_tenants (drain_deletion_queue n db) = ev_tenants db"
  by (induction n arbitrary: db) (simp_all split: list.splits)

text \<open>A file some row refers to outlives the queue, whatever else the queue holds.\<close>

lemma drain_keeps_referenced:
  "referenced path db \<Longrightarrow> open_file env (ev_files (drain_deletion_queue n db)) path = open_file env (ev_files db) path"
proof (induction n arbitrary: db)
  case (Suc n)
  show ?case
  proof (cases "ev_queue db")
    case (Cons q rest)
    let ?db = "db\<lparr>ev_files := (if referenced q db then ev_files db else remove_file q (ev_files db)), ev_queue := rest\<rparr>"
    have "referenced path ?db" using Suc.prems by (simp add: referenced_def)
    moreover have "open_file env (ev_files ?db) path = open_file env (ev_files db) path"
      using Suc.prems open_remove [of q path env "ev_files db"] by (cases "q = path") auto
    ultimately show ?thesis using Suc.IH [of ?db] Cons by simp
  qed simp
qed simp

lemma purge_frame:
  "ev_attachments (purge_expired_attachments now db) = filter (\<lambda>(i, _). i \<notin> set (expired_ids now db)) (ev_attachments db)"
  "ev_disputes (purge_expired_attachments now db) = map (\<lambda>(i, d). (i, forget_attachments (expired_ids now db) d)) (ev_disputes db)"
  "ev_users (purge_expired_attachments now db) = ev_users db" "ev_tenants (purge_expired_attachments now db) = ev_tenants db"
  using drain_frame [of 500 "delete_attachments (expired_ids now db) db"]
  by (simp_all add: purge_expired_attachments_def delete_attachments_def)

lemma purge_intact:
  assumes "intact env (ev_files db) a" "(i, a) \<in> set (ev_attachments (purge_expired_attachments now db))"
  shows "intact env (ev_files (purge_expired_attachments now db)) a"
proof -
  let ?db = "delete_attachments (expired_ids now db) db"
  have "ev_attachments (purge_expired_attachments now db) = ev_attachments ?db"
    using drain_frame by (simp add: purge_expired_attachments_def)
  then have "referenced (at_path a) ?db" using assms(2) by (auto simp: referenced_def list_ex_iff)
  from drain_keeps_referenced [OF this, of env 500]
  have "open_file env (ev_files (purge_expired_attachments now db)) (at_path a) = open_file env (ev_files db) (at_path a)"
    by (simp add: purge_expired_attachments_def delete_attachments_def)
  then show ?thesis using assms(1) by (cases "at_sha a") (simp_all add: intact_def)
qed

lemma forget_facts:
  "dispute_checks (forget_attachments gone d) = dispute_checks d" "ld_entry (forget_attachments gone d) = ld_entry d"
  "ld_lifted_at (forget_attachments gone d) = ld_lifted_at d" "ld_reason (forget_attachments gone d) = ld_reason d"
  by (simp_all add: forget_attachments_def dispute_checks_def split: option.splits)

lemma purge_tables:
  assumes "tables_ok db"
  shows "tables_ok (purge_expired_attachments now db)"
proof -
  have d: "disputes_ok (ev_disputes db)" using assms by (simp add: tables_ok_def)
  have "disputes_ok (ev_disputes (purge_expired_attachments now db))"
    unfolding purge_frame(2) by (rule disputes_map [OF d]) (use d in \<open>auto simp: forget_facts disputes_ok_def\<close>)
  moreover have "distinct (map fst (ev_attachments (purge_expired_attachments now db)))"
    using assms unfolding purge_frame(1) tables_ok_def by (simp add: distinct_map_filter)
  ultimately show ?thesis using assms by (auto simp: tables_ok_def purge_frame(1))
qed

lemma purge_ok:
  assumes "evidence_ok env db"
  shows "evidence_ok env (purge_expired_attachments now db)"
proof -
  have "intact env (ev_files (purge_expired_attachments now db)) a"
    if "(i, a) \<in> set (ev_attachments (purge_expired_attachments now db))" for i a
    using assms that purge_intact [OF _ that] unfolding purge_frame(1) evidence_ok_split files_ok_def by auto
  then show ?thesis using assms purge_tables by (auto simp: evidence_ok_split files_ok_def)
qed

section \<open>What the steps of uploads do\<close>

definition same_review :: "attachment \<Rightarrow> attachment \<Rightarrow> bool" where
  "same_review a b = (at_meta b = at_meta a \<and> at_status b = at_status a \<and> at_reviewer b = at_reviewer a
     \<and> at_verified b = at_verified a \<and> at_verifier b = at_verifier a)"

definition unreviewed :: "attachment \<Rightarrow> bool" where
  "unreviewed a = (at_status a = ''pending'' \<and> at_reviewer a = None \<and> at_verified a = None)"

text \<open>What any step of an upload may change: files, the uploads in progress, new rows at the end, the journal.\<close>

definition appends :: "evidence_db \<Rightarrow> evidence_db \<Rightarrow> bool" where
  "appends db db' = (\<exists>fs us new j. db' = db\<lparr>ev_files := fs, ev_uploads := us, ev_attachments := ev_attachments db @ new, ev_journal := j\<rparr>
     \<and> (\<forall>(i, a) \<in> set new. unreviewed a \<and> attachment_checks a)
     \<and> (distinct (map fst (ev_attachments db)) \<longrightarrow> distinct (map fst (ev_attachments db'))))"

lemma appends_nothing: "appends db (db\<lparr>ev_files := fs, ev_uploads := us\<rparr>)"
  unfolding appends_def by (intro exI [of _ fs] exI [of _ us] exI [of _ "[]"] exI [of _ "ev_journal db"]) simp

lemma appends_files: "appends db (db\<lparr>ev_files := fs\<rparr>)"
  using appends_nothing [where db = db and fs = fs and us = "ev_uploads db"] by simp

lemma commit_appends:
  assumes "commit_upload rq cfg user entry category document staged ids (db\<lparr>ev_files := fs, ev_uploads := us\<rparr>) = Inr db'"
  shows "appends db db'"
proof (rule commit_upload_frame [OF assms])
  fix row days j
  let ?db = "db\<lparr>ev_files := fs, ev_uploads := us\<rparr>"
  let ?new = "map (\<lambda>(i, s). (i, new_attachment row user entry document (rq_now rq) (rq_now rq + days * day_ns) s)) (zip ids staged)"
  assume db': "db' = ?db\<lparr>ev_attachments := ev_attachments ?db @ ?new, ev_journal := j\<rparr>"
    and dist: "distinct (map fst (ev_attachments ?db)) \<Longrightarrow> distinct (map fst (ev_attachments db'))"
    and checks: "\<forall>(i, s) \<in> set (zip ids staged). attachment_checks (new_attachment row user entry document (rq_now rq) (rq_now rq + days * day_ns) s)"
  have "\<forall>(i, a) \<in> set ?new. unreviewed a \<and> attachment_checks a" using checks by (auto simp: unreviewed_def new_attachment_def)
  moreover have "db' = db\<lparr>ev_files := fs, ev_uploads := us, ev_attachments := ev_attachments db @ ?new, ev_journal := j\<rparr>" using db' by simp
  ultimately show ?thesis unfolding appends_def
    by (intro exI [of _ fs] exI [of _ us] exI [of _ ?new] exI [of _ j] conjI) (use dist in simp_all)
qed

lemma publish_appends: "appends db (snd (publish_upload rq p fresh (db\<lparr>ev_files := fs, ev_uploads := us\<rparr>)))"
proof -
  have "db\<lparr>ev_uploads := us, ev_files := gs\<rparr> = db\<lparr>ev_files := gs, ev_uploads := us\<rparr>" for gs by simp
  then have "appends db (db\<lparr>ev_uploads := us, ev_files := gs\<rparr>)" for gs
    using appends_nothing [where db = db and us = us and fs = gs] by (simp only:)
  then show ?thesis using commit_appends by (auto simp: publish_upload_def Let_def split: sum.splits)
qed

definition upload_command :: "evidence_command \<Rightarrow> bool" where
  "upload_command c = (case c of Upload _ _ _ _ _ _ _ \<Rightarrow> True | BeginUpload _ _ _ _ _ \<Rightarrow> True | StageFile _ \<Rightarrow> True
     | CancelUpload _ \<Rightarrow> True
     | PublishUpload _ _ _ \<Rightarrow> True | _ \<Rightarrow> False)"

lemma upload_appends: "appends db (snd (upload env cfg rq u entry t uploads fresh db))"
proof -
  have "appends db (snd (publish_upload rq p fresh (db\<lparr>ev_files := fs\<rparr>)))" for p fs
    using publish_appends [where db = db and rq = rq and p = p and fresh = fresh and fs = fs and us = "ev_uploads db"] by simp
  moreover have "appends db db" using appends_files [where db = db and fs = "ev_files db"] by simp
  ultimately show ?thesis using appends_files by (auto simp: upload_def split: sum.splits)
qed

lemma upload_frame:
  assumes "upload_command c" "evidence_step env c db = Inr db'"
  shows "appends db db'"
proof (cases c)
  case (BeginUpload cfg u entry t uploads)
  then show ?thesis using assms(2) appends_nothing [where db = db and fs = "ev_files db"] by (auto simp: evidence_step_def result_simps)
next
  case (StageFile n)
  then show ?thesis using assms(2) appends_nothing
    by (auto simp: evidence_step_def stage_step_def split: if_splits sum.splits)
next
  case (CancelUpload n)
  then show ?thesis using assms(2) appends_nothing by (auto simp: evidence_step_def cancel_step_def split: if_splits)
next
  case (PublishUpload n rq fresh)
  then show ?thesis using assms(2) publish_appends [where db = db and rq = rq and p = "ev_uploads db ! n" and fresh = fresh and fs = "ev_files db"]
    by (auto simp: evidence_step_def publish_step_def split: if_splits)
next
  case (Upload rq cfg u entry t uploads fresh)
  then show ?thesis using assms(2) upload_appends by (auto simp: evidence_step_def)
qed (use assms(1) in \<open>simp_all add: upload_command_def\<close>)

text \<open>
  A whole upload is the sequence of its steps: when no other command comes between its beginning, its
  turns and its transaction, they leave the database that \<open>upload\<close> describes.
\<close>

lemma stage_keeps_todo: "stage_next env p fs = Inr (p', fs') \<Longrightarrow> pu_todo p' = tl (pu_todo p)"
  by (auto simp: stage_next_def split: list.splits sum.splits)

lemma staged_todo: "stage_files n env p fs = Inr (p', fs') \<Longrightarrow> pu_todo p' = drop n (pu_todo p)"
  by (induction n arbitrary: p fs) (auto simp: result_simps drop_Suc dest: stage_keeps_todo)

lemma end_last: "end_upload (length us) (us @ [p]) = us" by (simp add: end_upload_def)

lemma stage_refused: "length us \<le> n \<Longrightarrow>
    run_machine (evidence_step env) (replicate k (StageFile n)) (db\<lparr>ev_uploads := us\<rparr>) = db\<lparr>ev_uploads := us\<rparr>"
  by (induction k) (simp_all add: evidence_step_def stage_step_def)

lemma stage_turns:
  "run_machine (evidence_step env) (replicate k (StageFile (length us))) (db\<lparr>ev_files := fs, ev_uploads := us @ [p]\<rparr>)
    = (case stage_files k env p fs of
        Inl (st, fs') \<Rightarrow> db\<lparr>ev_files := fs', ev_uploads := us\<rparr>
      | Inr (p', fs') \<Rightarrow> db\<lparr>ev_files := fs', ev_uploads := us @ [p']\<rparr>)"
proof (induction k arbitrary: p fs)
  case (Suc k)
  have step: "evidence_step env (StageFile (length us)) (db\<lparr>ev_files := fs, ev_uploads := us @ [p]\<rparr>) =
      (case stage_next env p fs of Inl (st, fs') \<Rightarrow> Inr (db\<lparr>ev_files := fs', ev_uploads := us\<rparr>)
       | Inr (p', fs') \<Rightarrow> Inr (db\<lparr>ev_files := fs', ev_uploads := us @ [p']\<rparr>))"
    by (simp add: evidence_step_def stage_step_def end_last split: sum.splits)
  show ?case
  proof (cases "stage_next env p fs")
    case (Inl e)
    obtain st fs' where e: "e = (st, fs')" by fastforce
    show ?thesis using stage_refused [where us = us and n = "length us" and env = env and k = k and db = "db\<lparr>ev_files := fs'\<rparr>"] by (simp add: step Inl e)
  next
    case (Inr r)
    then show ?thesis using Suc.IH by (cases r) (simp add: step)
  qed
qed simp

lemma run_append: "run_machine step (xs @ ys) s = run_machine step ys (run_machine step xs s)"
  by (induction xs arbitrary: s) simp_all

lemma upload_steps:
  assumes "n = length (ev_uploads db)"
  shows "run_machine (evidence_step env)
      (BeginUpload cfg u entry t uploads # replicate (length uploads) (StageFile n) @ [PublishUpload n rq fresh]) db
    = snd (upload env cfg rq u entry t uploads fresh db)"
proof (cases "begin_upload cfg u entry t uploads db")
  case (Inl st)
  have "run_machine (evidence_step env) (replicate (length uploads) (StageFile n)) db = db"
    using stage_refused [where us = "ev_uploads db" and n = n and env = env and k = "length uploads" and db = db] assms by simp
  then show ?thesis using assms Inl
    by (simp add: run_append upload_def) (simp add: evidence_step_def Inl publish_step_def)
next
  case (Inr p)
  have todo: "pu_todo p = uploads" using Inr by (auto simp: begin_upload_def result_simps)
  have turns: "run_machine (evidence_step env) (replicate (length uploads) (StageFile n)) (db\<lparr>ev_uploads := ev_uploads db @ [p]\<rparr>)
    = (case stage_files (length uploads) env p (ev_files db) of
        Inl (st, fs') \<Rightarrow> db\<lparr>ev_files := fs', ev_uploads := ev_uploads db\<rparr>
      | Inr (p', fs') \<Rightarrow> db\<lparr>ev_files := fs', ev_uploads := ev_uploads db @ [p']\<rparr>)"
    using stage_turns [where env = env and k = "length uploads" and us = "ev_uploads db" and db = db and fs = "ev_files db" and p = p] assms by simp
  have begun: "evidence_step env (BeginUpload cfg u entry t uploads) db = Inr (db\<lparr>ev_uploads := ev_uploads db @ [p]\<rparr>)"
    by (simp add: evidence_step_def Inr)
  show ?thesis
  proof (cases "stage_files (length uploads) env p (ev_files db)")
    case (Inl e)
    then show ?thesis
      by (cases e) (simp add: begun run_append turns upload_def Inr, simp add: evidence_step_def publish_step_def assms)
  next
    case staged: (Inr r)
    obtain p' fs where r: "r = (p', fs)" by fastforce
    have "pu_todo p' = []" using staged_todo [OF staged [unfolded r]] todo by simp
    then show ?thesis
      by (simp add: begun run_append turns upload_def Inr staged r, simp add: evidence_step_def publish_step_def end_last assms)
  qed
qed

section \<open>The machine\<close>

lemma new_attachment_intact:
  "stored env fs s \<Longrightarrow> intact env fs (new_attachment row user entry document now expires s)"
  by (auto simp: stored_def intact_def new_attachment_def)

lemma upload_ok:
  assumes "faithful env" "evidence_ok env db"
  shows "evidence_ok env (snd (upload env cfg rq u entry t uploads fresh db))"
proof (rule upload_cases [where env = env and cfg = cfg and rq = rq and u = u and entry = entry and t = t and uploads = uploads and fresh = fresh and db = db])
  fix st fs
  assume "upload env cfg rq u entry t uploads fresh db = (Inl st, db\<lparr>ev_files := fs\<rparr>)"
    "faithful env \<Longrightarrow> kept env (ev_files db) fs"
  then show ?thesis using assms rows_kept by (simp add: evidence_ok_def)
next
  fix category staged fs db'
  assume published: "upload env cfg rq u entry t uploads fresh db = (Inr (map fresh [0..<length staged]), db')"
      "check_upload u entry t uploads db = Inr category"
      "commit_upload rq cfg (au_id u) entry category (document_type_of t) staged (map fresh [0..<length staged])
         (db\<lparr>ev_files := fs\<rparr>) = Inr db'"
      "faithful env \<Longrightarrow> kept env (ev_files db) fs \<and> list_all (stored env fs) staged \<and> list_all2 for_upload uploads staged"
  note k = published(4) [OF assms(1)]
  show ?thesis
  proof (rule commit_upload_frame [OF published(3)])
    fix row days j
    let ?new = "map (\<lambda>(i, s). (i, new_attachment row (au_id u) entry (document_type_of t) (rq_now rq) (rq_now rq + days * day_ns) s))
        (zip (map fresh [0..<length staged]) staged)"
    assume db': "db' = db\<lparr>ev_files := fs\<rparr>\<lparr>ev_attachments := ev_attachments (db\<lparr>ev_files := fs\<rparr>) @ ?new, ev_journal := j\<rparr>"
      and dist: "distinct (map fst (ev_attachments (db\<lparr>ev_files := fs\<rparr>))) \<Longrightarrow> distinct (map fst (ev_attachments db'))"
      and checks: "\<forall>(i, s) \<in> set (zip (map fresh [0..<length staged]) staged). attachment_checks
        (new_attachment row (au_id u) entry (document_type_of t) (rq_now rq) (rq_now rq + days * day_ns) s)"
    have old: "rows_ok env fs (ev_attachments db)" using assms(2) k rows_kept by (auto simp: evidence_ok_def)
    have "attachment_checks a \<and> intact env fs a" if "(i, a) \<in> set ?new" for i a
    proof -
      from that obtain s where s: "(i, s) \<in> set (zip (map fresh [0..<length staged]) staged)"
        "a = new_attachment row (au_id u) entry (document_type_of t) (rq_now rq) (rq_now rq + days * day_ns) s" by auto
      have "stored env fs s" using k set_zip_rightD [OF s(1)] by (auto simp: list_all_iff)
      then show ?thesis using s checks new_attachment_intact by fastforce
    qed
    moreover have "distinct (map fst (ev_attachments db @ ?new))" using dist old by (simp add: rows_ok_def db')
    ultimately have "rows_ok env fs (ev_attachments db @ ?new)" using rows_append [OF old] by blast
    then show ?thesis using assms(2) published(1) by (simp add: evidence_ok_def db')
  qed
qed

text \<open>The tables are sound whatever the order of the steps.\<close>

lemma appends_tables: "appends db db' \<Longrightarrow> tables_ok db \<Longrightarrow> tables_ok db'"
  by (fastforce simp: appends_def tables_ok_def)

lemma evidence_step_tables:
  assumes "tables_ok db" "evidence_step env c db = Inr db'"
  shows "tables_ok db'"
proof (cases "upload_command c")
  case True
  then show ?thesis using upload_frame [OF _ assms(2)] appends_tables assms(1) by blast
next
  case False
  then show ?thesis
  proof (cases c)
    case (Review rq u i r)
    then show ?thesis using assms review_frame changed_row_tables by (fastforce simp: evidence_step_def)
  next
    case (UpdateMetadata rq u i m)
    then obtain ch where "update_metadata rq u i m db = Inr (ch, db')" using assms(2) by (auto simp: evidence_step_def result_simps)
    then show ?thesis using assms(1) update_metadata_frame changed_row_tables by blast
  next
    case (ChangeDispute rq u entry r fresh)
    then show ?thesis using assms change_dispute_tables by (simp add: evidence_step_def)
  next
    case (Purge now)
    then show ?thesis using assms purge_tables by (auto simp: evidence_step_def)
  qed (simp_all add: upload_command_def)
qed

interpretation tables: guarded_machine "evidence_step env" tables_ok for env
  by unfold_locales (rule evidence_step_tables)

text \<open>The files of documents are kept as well when no upload is interrupted.\<close>

definition uninterrupted :: "evidence_command \<Rightarrow> bool" where
  "uninterrupted c = (case c of BeginUpload _ _ _ _ _ \<Rightarrow> False | StageFile _ \<Rightarrow> False
     | CancelUpload _ \<Rightarrow> False | PublishUpload _ _ _ \<Rightarrow> False | _ \<Rightarrow> True)"

lemma evidence_step_ok:
  assumes "faithful env" "evidence_ok env db" "uninterrupted c" "evidence_step env c db = Inr db'"
  shows "evidence_ok env db'"
proof (cases c)
  case (Upload rq cfg u entry raw_type uploads fresh)
  then show ?thesis using assms(4) upload_ok [OF assms(1,2)] by (auto simp: evidence_step_def)
next
  case (Review rq u i r)
  then show ?thesis using assms review_frame changed_row_ok by (fastforce simp: evidence_step_def)
next
  case (UpdateMetadata rq u i m)
  then obtain ch where "update_metadata rq u i m db = Inr (ch, db')" using assms(4) by (auto simp: evidence_step_def result_simps)
  then show ?thesis using assms(2) update_metadata_frame changed_row_ok by blast
next
  case (ChangeDispute rq u entry r fresh)
  then show ?thesis using assms change_dispute_ok by (simp add: evidence_step_def)
next
  case (Purge now)
  then show ?thesis using assms(2,4) purge_ok by (auto simp: evidence_step_def)
qed (use assms(3) in \<open>simp_all add: uninterrupted_def\<close>)

text \<open>The content behind a document that stays is the same content.\<close>

lemma step_keeps_content:
  assumes "faithful env" "uninterrupted c" "evidence_step env c db = Inr db'"
    "map_of (ev_attachments db') i = Some b" "open_file env (ev_files db) (at_path b) = Some content"
  shows "open_file env (ev_files db') (at_path b) = Some content"
proof (cases c)
  case (Upload rq cfg u entry t uploads fresh)
  then have db': "db' = snd (upload env cfg rq u entry t uploads fresh db)" using assms(3) by (simp add: evidence_step_def)
  show ?thesis
  proof (rule upload_cases [where env = env and cfg = cfg and rq = rq and u = u and entry = entry and t = t and uploads = uploads and fresh = fresh and db = db])
    fix st fs
    assume "upload env cfg rq u entry t uploads fresh db = (Inl st, db\<lparr>ev_files := fs\<rparr>)" "faithful env \<Longrightarrow> kept env (ev_files db) fs"
    then show ?thesis using db' assms(1,5) kept_open by auto
  next
    fix category staged fs db1
    assume up: "upload env cfg rq u entry t uploads fresh db = (Inr (map fresh [0..<length staged]), db1)"
      "commit_upload rq cfg (au_id u) entry category (document_type_of t) staged (map fresh [0..<length staged]) (db\<lparr>ev_files := fs\<rparr>) = Inr db1"
      "faithful env \<Longrightarrow> kept env (ev_files db) fs \<and> list_all (stored env fs) staged \<and> list_all2 for_upload uploads staged"
    have "ev_files db1 = fs" using up(2) by (rule commit_upload_frame) simp
    then show ?thesis using up db' assms(1,5) kept_open by auto
  qed
next
  case (Review rq u j r)
  then have "review rq u j r db = Inr db'" using assms(3) by (simp add: evidence_step_def)
  from review_frame [OF this] show ?thesis using assms(5) by (auto simp: changed_row_def)
next
  case (UpdateMetadata rq u j m)
  then obtain ch where "update_metadata rq u j m db = Inr (ch, db')" using assms(3) by (auto simp: evidence_step_def result_simps)
  from update_metadata_frame [OF this] show ?thesis using assms(5) by (auto simp: changed_row_def)
next
  case (ChangeDispute rq u entry r fresh)
  then have "change_dispute rq u entry r fresh db = Inr db'" using assms(3) by (simp add: evidence_step_def)
  from change_dispute_rows [OF this] show ?thesis using assms(5) by auto
next
  case (Purge now)
  then have db': "db' = purge_expired_attachments now db" using assms(3) by (simp add: evidence_step_def)
  then have "referenced (at_path b) (delete_attachments (expired_ids now db) db)"
    using map_of_SomeD [OF assms(4)] drain_frame by (auto simp: referenced_def list_ex_iff purge_expired_attachments_def)
  from drain_keeps_referenced [OF this, of env 500] show ?thesis
    using assms(5) by (simp add: db' purge_expired_attachments_def delete_attachments_def)
qed (use assms(2) in \<open>simp_all add: uninterrupted_def\<close>)

section \<open>What one command does to a row\<close>

text \<open>
  How a row may change in one command: its file never; its requisites and review together, by a new
  review or by new requisites, which end the review.
\<close>

definition reviews_of :: "evidence_command \<Rightarrow> string option" where
  "reviews_of c = (case c of Review _ _ i _ \<Rightarrow> Some i | _ \<Rightarrow> None)"

definition row_step :: "evidence_command \<Rightarrow> string \<Rightarrow> attachment \<Rightarrow> attachment \<Rightarrow> bool" where
  "row_step c i a b = (file_columns b = file_columns a
     \<and> (reviews_of c = Some i \<or> same_review a b \<or> unreviewed b))"

lemma map_of_filter_key: "map_of (filter (\<lambda>(i, _). P i) xs) k = (if P k then map_of xs k else None)"
  by (induction xs) auto

lemma changed_row_lookup:
  "changed_row j x y db db' \<Longrightarrow> map_of (ev_attachments db) i = Some a \<Longrightarrow>
    map_of (ev_attachments db') i = Some (if i = j then y else a) \<and> (i = j \<longrightarrow> a = x)"
  by (auto simp: changed_row_def map_of_update_other)

lemma row_step_refl [simp]: "row_step c i a a" by (simp add: row_step_def same_review_def)

lemma step_row:
  assumes "distinct (map fst (ev_attachments db))" "evidence_step env c db = Inr db'" "map_of (ev_attachments db) i = Some a"
  shows "(\<exists>b. map_of (ev_attachments db') i = Some b \<and> row_step c i a b)
    \<or> map_of (ev_attachments db') i = None \<and> (\<exists>now. c = Purge now \<and> at_expires a < now)"
proof (cases "upload_command c")
  case True
  from upload_frame [OF this assms(2)] show ?thesis using assms(3) by (auto simp: appends_def)
next
  case other: False
  then show ?thesis
  proof (cases c)
    case (Review rq u j r)
    then have "review rq u j r db = Inr db'" using assms(2) by (simp add: evidence_step_def)
    from review_frame [OF this] obtain x y where row: "changed_row j x y db db'" by blast
    have "file_columns y = file_columns x" using row by (simp add: changed_row_def)
    then have "row_step c i a (if i = j then y else a)"
      using changed_row_lookup [OF row assms(3)] by (simp add: row_step_def Review reviews_of_def same_review_def)
    then show ?thesis using changed_row_lookup [OF row assms(3)] by blast
  next
    case (UpdateMetadata rq u j m)
    then obtain ch where "update_metadata rq u j m db = Inr (ch, db')" using assms(2) by (auto simp: evidence_step_def result_simps)
    from update_metadata_frame [OF this] obtain x d where row: "changed_row j x (with_metadata d x) db db'" by blast
    have "file_columns (with_metadata d x) = file_columns x" using row by (simp add: changed_row_def)
    moreover have "same_review x (with_metadata d x) \<or> unreviewed (with_metadata d x)"
      by (simp add: with_metadata_def same_review_def unreviewed_def)
    ultimately have "row_step c i a (if i = j then with_metadata d x else a)"
      using changed_row_lookup [OF row assms(3)] by (simp add: row_step_def same_review_def)
    then show ?thesis using changed_row_lookup [OF row assms(3)] by blast
  next
    case (ChangeDispute rq u entry r fresh)
    then have "change_dispute rq u entry r fresh db = Inr db'" using assms(2) by (simp add: evidence_step_def)
    from change_dispute_rows [OF this] show ?thesis using assms(3) row_step_refl by auto
  next
    case (Purge now)
    then have db': "db' = purge_expired_attachments now db" using assms(2) by (simp add: evidence_step_def)
    show ?thesis
    proof (cases "i \<in> set (expired_ids now db)")
      case True
      then obtain x where "(i, x) \<in> set (ev_attachments db)" "at_expires x < now"
        by (auto simp: expired_ids_def dest!: in_set_takeD)
      then have "at_expires a < now" using assms(1,3) by (metis map_of_eq_Some_iff option.inject)
      then show ?thesis using True unfolding db' purge_frame(1) map_of_filter_key by (simp add: Purge)
    next
      case False
      then show ?thesis using assms(3) row_step_refl unfolding db' purge_frame(1) map_of_filter_key by auto
    qed
  qed (simp_all add: upload_command_def)
qed

end
