(* ===== verification/DocumentProperties.thy ===== *)
theory DocumentProperties
  imports DocumentLaws ProjectionLaws
begin

text \<open>
  What the evidence store promises over any sequence of commands: sound rows, documents that stay
  readable as long as they are kept, reviews that belong to the requisites they were made for, and
  disputed entries that do not count.
\<close>

section \<open>Sequences of commands\<close>

abbreviation run :: "store_env \<Rightarrow> evidence_command list \<Rightarrow> evidence_db \<Rightarrow> evidence_db" where
  "run env \<equiv> run_machine (evidence_step env)"

text \<open>A relation between the states before and after a command carries over to sequences.\<close>

lemma run_induct:
  assumes "tables_ok db" "P db" "\<forall>c \<in> set cs. Q c"
    and "\<And>c s t. Q c \<Longrightarrow> tables_ok s \<Longrightarrow> evidence_step env c s = Inr t \<Longrightarrow> P s \<Longrightarrow> P t"
  shows "P (run env cs db) \<and> tables_ok (run env cs db)"
  using assms(1-3)
proof (induction cs arbitrary: db)
  case (Cons c cs)
  show ?case
  proof (cases "evidence_step env c db")
    case (Inl e)
    then show ?thesis using Cons by simp
  next
    case (Inr t)
    then have "P t" "tables_ok t" using Cons.prems assms(4) evidence_step_tables [OF _ Inr] by auto
    then show ?thesis using Cons Inr by simp
  qed
qed simp

lemma run_keeps_files:
  assumes "faithful env" "evidence_ok env db" "\<forall>c \<in> set cs. uninterrupted c"
  shows "evidence_ok env (run env cs db)"
proof -
  have "evidence_ok env (run env cs db) \<and> tables_ok (run env cs db)"
  proof (rule run_induct [where P = "evidence_ok env", OF _ assms(2,3)])
    show "tables_ok db" using assms(2) by (simp add: evidence_ok_split)
  next
    fix c s t
    assume "uninterrupted c" "tables_ok s" "evidence_step env c s = Inr t" "evidence_ok env s"
    then show "evidence_ok env t" using evidence_step_ok [OF assms(1)] by blast
  qed
  then show ?thesis by blast
qed

section \<open>Examples\<close>

definition plain_env :: store_env where
  "plain_env = \<lparr>se_pack = (\<lambda>s. s), se_unpack = Some, se_detect = (\<lambda>_. ''text/plain''), se_zip = (\<lambda>_. None), se_scanner = None\<rparr>"

lemma plain_env_faithful: "faithful plain_env"
  by (simp add: faithful_def plain_env_def)

definition office_admin :: user_row where
  "office_admin = \<lparr>ur_role = ''org_admin'', ur_active = True, ur_entity = ''organization'', ur_company = Some ''c1'', ur_partner = None\<rparr>"

definition empty_evidence :: evidence_db where
  "empty_evidence = \<lparr>ev_users = [(''u1'', office_admin)], ev_tenants = sample_tenants, ev_retention = Some ''365'', ev_attachments = [],
     ev_disputes = [], ev_queue = [], ev_files = [], ev_uploads = [], ev_journal = []\<rparr>"

lemma empty_evidence_ok: "evidence_ok env empty_evidence"
  by (simp add: evidence_ok_def rows_ok_def disputes_ok_def empty_evidence_def)

lemma empty_tables_ok: "tables_ok empty_evidence"
  using empty_evidence_ok by (simp add: evidence_ok_split)

definition at_noon :: request where
  "at_noon = \<lparr>rq_now = 1700000000 * 10 ^ 9, rq_context = ''r1'', rq_random = (\<lambda>_. 0)\<rparr>"

definition act_file :: upload_file where
  "act_file = \<lparr>uf_name = ''act.txt'', uf_size = 5, uf_content = ''hello''\<rparr>"

definition lenient :: upload_config where "lenient = \<lparr>uc_policy = ''reject'', uc_quota = 0\<rparr>"

definition upload_act :: evidence_command where
  "upload_act = Upload at_noon lenient company_admin ''e1'' ''school_agreement'' [act_file] (\<lambda>_. ''a1'')"

section \<open>Soundness\<close>


section \<open>Documents stay readable\<close>

lemma step_frame:
  assumes "evidence_step env c db = Inr db'"
  shows "ev_tenants db' = ev_tenants db \<and> ev_users db' = ev_users db"
proof (cases "upload_command c")
  case True
  from upload_frame [OF this assms] show ?thesis by (auto simp: appends_def)
next
  case False
  then show ?thesis
  proof (cases c)
    case (Review rq u j r)
    then have "review rq u j r db = Inr db'" using assms by (simp add: evidence_step_def)
    from review_frame [OF this] show ?thesis by (auto simp: changed_row_def)
  next
    case (UpdateMetadata rq u j m)
    then obtain ch where "update_metadata rq u j m db = Inr (ch, db')" using assms by (auto simp: evidence_step_def result_simps)
    from update_metadata_frame [OF this] show ?thesis by (auto simp: changed_row_def)
  next
    case (ChangeDispute rq u entry r fresh)
    then have "change_dispute rq u entry r fresh db = Inr db'" using assms by (simp add: evidence_step_def)
    from change_dispute_rows [OF this] show ?thesis by auto
  next
    case (Purge now)
    then show ?thesis using assms purge_frame(3,4) by (auto simp: evidence_step_def)
  qed (simp_all add: upload_command_def)
qed

text \<open>What a published upload leaves behind for each of its files.\<close>

lemma published_row:
  assumes "faithful env" "evidence_ok env db" "upload env cfg rq u entry t uploads fresh db = (Inr ids, db1)"
    "retention_days db = Inr days" "k < length uploads"
  shows "\<exists>a. map_of (ev_attachments db1) (ids ! k) = Some a \<and> at_entry a = entry \<and> at_expires a = rq_now rq + days * day_ns
    \<and> (\<exists>content. at_sha a = Some (sha256_hex_of content) \<and> sha256_hex_of content = sha256_hex_of (uf_content (uploads ! k))
        \<and> open_file env (ev_files db1) (at_path a) = Some content
        \<and> (at_scan a = ''quarantined'') = (sc_verdict (inspect env content) = VerdictUnavailable))"
proof (rule upload_cases [where env = env and cfg = cfg and rq = rq and u = u and entry = entry and t = t and uploads = uploads and fresh = fresh and db = db])
  fix st fs
  assume "upload env cfg rq u entry t uploads fresh db = (Inl st, db\<lparr>ev_files := fs\<rparr>)"
  then show ?thesis using assms(3) by simp
next
  fix category staged fs db'
  assume published: "upload env cfg rq u entry t uploads fresh db = (Inr (map fresh [0..<length staged]), db')"
    "commit_upload rq cfg (au_id u) entry category (document_type_of t) staged (map fresh [0..<length staged])
         (db\<lparr>ev_files := fs\<rparr>) = Inr db'"
    "faithful env \<Longrightarrow> kept env (ev_files db) fs \<and> list_all (stored env fs) staged \<and> list_all2 for_upload uploads staged"
  have ids: "ids = map fresh [0..<length staged]" "db1 = db'" using assms(3) published(1) by simp_all
  have match: "list_all2 for_upload uploads staged" using published(3) assms(1) by blast
  then have k: "k < length staged" "for_upload (uploads ! k) (staged ! k)"
    using assms(5) by (simp_all add: list_all2_conv_all_nth)
  have "stored env fs (staged ! k)" using published(3) assms(1) k(1) by (simp add: list_all_length)
  show ?thesis
  proof (rule commit_upload_frame [OF published(2)])
    fix row d j
    let ?row = "\<lambda>s. new_attachment row (au_id u) entry (document_type_of t) (rq_now rq) (rq_now rq + d * day_ns) s"
    let ?new = "map (\<lambda>(i, s). (i, ?row s)) (zip (map fresh [0..<length staged]) staged)"
    assume d: "retention_days (db\<lparr>ev_files := fs\<rparr>) = Inr d"
      and db': "db' = db\<lparr>ev_files := fs\<rparr>\<lparr>ev_attachments := ev_attachments (db\<lparr>ev_files := fs\<rparr>) @ ?new, ev_journal := j\<rparr>"
      and dist: "distinct (map fst (ev_attachments (db\<lparr>ev_files := fs\<rparr>))) \<Longrightarrow> distinct (map fst (ev_attachments db'))"
    have days: "d = days" using d assms(4) by (simp add: retention_days_def)
    have "?new ! k = (ids ! k, ?row (staged ! k))" using k ids by simp
    moreover have "length ?new = length staged" by simp
    ultimately have "(ids ! k, ?row (staged ! k)) \<in> set ?new" using k(1) by (metis nth_mem)
    then have "(ids ! k, ?row (staged ! k)) \<in> set (ev_attachments db')" by (simp add: db')
    moreover have "distinct (map fst (ev_attachments db'))" using dist assms(2) by (simp add: evidence_ok_def rows_ok_def)
    ultimately have "map_of (ev_attachments db1) (ids ! k) = Some (?row (staged ! k))" using ids(2) by simp
    moreover have "ev_files db1 = fs" by (simp add: ids(2) db')
    ultimately show ?thesis using k(2) days \<open>stored env fs (staged ! k)\<close> by (auto simp: new_attachment_def for_upload_def stored_def)
  qed
qed

lemma row_persists:
  assumes "tables_ok db" "map_of (ev_attachments db) i = Some a" "\<forall>now. Purge now \<in> set cs \<longrightarrow> now \<le> at_expires a"
  shows "(\<exists>b. map_of (ev_attachments (run env cs db)) i = Some b \<and> file_columns b = file_columns a)
    \<and> ev_tenants (run env cs db) = ev_tenants db"
proof -
  let ?P = "\<lambda>s. (\<exists>b. map_of (ev_attachments s) i = Some b \<and> file_columns b = file_columns a) \<and> ev_tenants s = ev_tenants db"
  let ?Q = "\<lambda>c. \<forall>now. c = Purge now \<longrightarrow> now \<le> at_expires a"
  have "?P (run env cs db) \<and> tables_ok (run env cs db)"
  proof (rule run_induct [where P = ?P and Q = ?Q, OF assms(1)])
    fix c s t
    assume c: "?Q c" "tables_ok s" "evidence_step env c s = Inr t" "?P s"
    then obtain b where b: "map_of (ev_attachments s) i = Some b" "file_columns b = file_columns a" by blast
    have "at_expires b = at_expires a" using b(2) by (simp add: file_columns_def)
    then have "\<not> (\<exists>now. c = Purge now \<and> at_expires b < now)" using c(1) by auto
    moreover have "distinct (map fst (ev_attachments s))" using c(2) by (simp add: tables_ok_def)
    ultimately show "?P t" using step_row [OF _ c(3) b(1)] step_frame [OF c(3)] c(4) b(2) by (auto simp: row_step_def)
  qed (use assms(2,3) in auto)
  then show ?thesis by blast
qed

lemma content_persists:
  assumes "faithful env" "tables_ok db" "map_of (ev_attachments db) i = Some a" "\<forall>now. Purge now \<in> set cs \<longrightarrow> now \<le> at_expires a"
    "\<forall>c \<in> set cs. uninterrupted c" "open_file env (ev_files db) (at_path a) = Some content"
  shows "open_file env (ev_files (run env cs db)) (at_path a) = Some content"
proof -
  let ?P = "\<lambda>s. (\<exists>b. map_of (ev_attachments s) i = Some b \<and> file_columns b = file_columns a)
    \<and> open_file env (ev_files s) (at_path a) = Some content"
  let ?Q = "\<lambda>c. uninterrupted c \<and> (\<forall>now. c = Purge now \<longrightarrow> now \<le> at_expires a)"
  have "?P (run env cs db) \<and> tables_ok (run env cs db)"
  proof (rule run_induct [where P = ?P and Q = ?Q, OF assms(2)])
    fix c s t
    assume c: "?Q c" "tables_ok s" "evidence_step env c s = Inr t" "?P s"
    then obtain b where b: "map_of (ev_attachments s) i = Some b" "file_columns b = file_columns a" by blast
    have "at_expires b = at_expires a" using b(2) by (simp add: file_columns_def)
    then have "\<not> (\<exists>now. c = Purge now \<and> at_expires b < now)" using c(1) by auto
    moreover have "distinct (map fst (ev_attachments s))" using c(2) by (simp add: tables_ok_def)
    ultimately obtain b' where b': "map_of (ev_attachments t) i = Some b'" "file_columns b' = file_columns a"
      using step_row [OF _ c(3) b(1)] b(2) by (auto simp: row_step_def)
    moreover have "at_path b' = at_path a" using b'(2) by (simp add: file_columns_def)
    ultimately show "?P t" using step_keeps_content [OF assms(1) _ c(3) b'(1)] c(1,4) by auto
  qed (use assms(3-6) in auto)
  then show ?thesis by blast
qed


text \<open>The upload of the example, without its digest: the store is empty, so the file becomes a blob.\<close>

definition act_blob :: blob where
  "act_blob = \<lparr>bl_path = compressed_blob_location (sha256_hex_of ''hello''), bl_sha = sha256_hex_of ''hello'', bl_size = 5, bl_shared = False\<rparr>"

definition act_staged :: staged_file where
  "act_staged = \<lparr>sf_name = ''act.txt'', sf_path = bl_path act_blob, sf_sha = bl_sha act_blob, sf_size = 5, sf_shared = False,
     sf_scan = ''unscanned'', sf_signature = []\<rparr>"

lemma act_created: "create_blob plain_env ''hello'' max_attachment_size [] = Inr (act_blob, [(bl_path act_blob, ''hello'')])"
  by (simp add: create_blob_def max_attachment_size_def act_blob_def Let_def plain_env_def)

lemma act_opened: "open_file plain_env [(bl_path act_blob, ''hello'')] (bl_path act_blob) = Some ''hello''"
  by (simp add: open_file_def plain_env_def max_decoded_blob_size_def)

lemma act_staging: "stage_file plain_env lenient act_file ([], []) = Inr ([act_staged], [(bl_path act_blob, ''hello'')])"
proof -
  have "validate_file plain_env ''act.txt'' ''hello'' = Inr ()" by code_simp
  moreover have "scan_outcome lenient (sc_verdict (inspect plain_env ''hello'')) = Inr ''unscanned'' \<and> sc_signature (inspect plain_env ''hello'') = []"
    by code_simp
  moreover have "bl_size act_blob = 5" "bl_shared act_blob = False" by (simp_all add: act_blob_def)
  ultimately show ?thesis
    by (simp add: stage_file_def act_file_def act_created act_opened act_staged_def)
qed

lemma act_lawful:
  "attachment_checks (new_attachment office_admin ''u1'' ''e1'' ''school_agreement'' now expires act_staged)"
proof -
  have "valid_document_type ''school_agreement''" "metadata_checks no_requisites" by code_simp+
  then show ?thesis
    using sha256_form [of "''hello''"]
    by (simp add: attachment_checks_def owner_checks_def review_checks_def verification_checks_def scan_checks_def content_checks_def
        new_attachment_def act_staged_def act_blob_def office_admin_def optional_text_between_def null_if_empty_def)
qed

lemma act_checked: "check_upload company_admin ''e1'' ''school_agreement'' [act_file] empty_evidence = Inr ''it_clubs''"
  by code_simp

lemma act_days: "retention_days empty_evidence = Inr 365" by code_simp

lemma act_logged: "\<exists>db1. log_audit at_noon ''attachment'' ''a1'' ''upload'' ''u1'' (upload_note ''act.txt'') db = Inr db1"
  if "ev_journal db = []"
proof -
  have "succeeds (write_audit ''r1'' (\<lambda>_. 0) \<lparr>ae_actor = user_actor ''u1'', ae_action = ''upload'',
        ae_entity_type = ''attachment'', ae_entity_id = ''a1'', ae_before = None, ae_after = Some (), ae_request = [],
        ae_comment = upload_note ''act.txt''\<rparr> [])" by code_simp
  then show ?thesis using that unfolding log_audit_def by (auto simp: at_noon_def succeeds_def split: sum.splits)
qed

definition published_act :: attachment where
  "published_act = new_attachment office_admin ''u1'' ''e1'' ''school_agreement'' (rq_now at_noon) (rq_now at_noon + 365 * day_ns) act_staged"

lemma act_commits:
  "\<exists>j. commit_upload at_noon lenient ''u1'' ''e1'' ''it_clubs'' ''school_agreement'' [act_staged\<lparr>sf_shared := shared\<rparr>] [''a1'']
      (empty_evidence\<lparr>ev_files := fs\<rparr>)
    = Inr (empty_evidence\<lparr>ev_files := fs, ev_attachments := [(''a1'', published_act)], ev_journal := j\<rparr>)"
proof -
  let ?db = "empty_evidence\<lparr>ev_files := fs\<rparr>" and ?s = "act_staged\<lparr>sf_shared := shared\<rparr>"
  let ?expires = "rq_now at_noon + 365 * day_ns"
  have facts: "can_upload_document (session_user ''u1'' office_admin) ''it_clubs'' ''school_agreement''"
    "require_partner_tenant sample_tenants (session_user ''u1'' office_admin) ''p1'' = Inr ()"
    "map_of (td_entries sample_tenants) ''e1'' = Some (''it_clubs'', Some ''p1'')" "ur_active office_admin" by code_simp+
  have row: "new_attachment office_admin ''u1'' ''e1'' ''school_agreement'' (rq_now at_noon) ?expires ?s = published_act"
    by (simp add: new_attachment_def published_act_def)
  obtain db1 where logged: "log_audit at_noon ''attachment'' ''a1'' ''upload'' ''u1'' (upload_note ''act.txt'')
      (?db\<lparr>ev_attachments := [(''a1'', published_act)]\<rparr>) = Inr db1"
    using act_logged [of "?db\<lparr>ev_attachments := [(''a1'', published_act)]\<rparr>"] by (auto simp: empty_evidence_def)
  obtain j where j: "db1 = ?db\<lparr>ev_attachments := [(''a1'', published_act)], ev_journal := j\<rparr>" using log_audit_frame [OF logged] by blast
  have "insert_staged at_noon office_admin ''u1'' ''e1'' ''school_agreement'' ?expires (''a1'', ?s) ?db = Inr db1"
    using act_lawful logged by (simp add: insert_staged_def Let_def row) (simp add: published_act_def empty_evidence_def act_staged_def)
  note inserted = this
  have days: "retention_days ?db = Inr 365" using act_days by (simp add: retention_days_def)
  have "commit_upload at_noon lenient ''u1'' ''e1'' ''it_clubs'' ''school_agreement'' [?s] [''a1''] ?db = Inr db1"
    using facts days inserted
    by (simp add: commit_upload_def empty_evidence_def used_bytes_def lenient_def act_staged_def Let_def)
  then show ?thesis unfolding j by blast
qed

lemma act_uploaded:
  "\<exists>db1. upload plain_env lenient at_noon company_admin ''e1'' ''school_agreement'' [act_file] (\<lambda>_. ''a1'') empty_evidence
    = (Inr [''a1''], db1)"
proof -
  have "document_type_of ''school_agreement'' = ''school_agreement''" "au_id company_admin = ''u1''" by code_simp+
  moreover have "ev_files empty_evidence = []" by (simp add: empty_evidence_def)
  moreover have "act_staged\<lparr>sf_shared := False\<rparr> = act_staged" by (simp add: act_staged_def)
  ultimately show ?thesis
    using act_commits [of False "[(bl_path act_blob, ''hello'')]"] by (auto simp: upload_unfold act_checked act_staging)
qed

lemma act_run:
  obtains db1 where "upload plain_env lenient at_noon company_admin ''e1'' ''school_agreement'' [act_file] (\<lambda>_. ''a1'') empty_evidence = (Inr [''a1''], db1)"
    "evidence_step plain_env upload_act empty_evidence = Inr db1" "ev_tenants db1 = sample_tenants"
proof -
  obtain db1 where up: "upload plain_env lenient at_noon company_admin ''e1'' ''school_agreement'' [act_file] (\<lambda>_. ''a1'') empty_evidence
    = (Inr [''a1''], db1)" using act_uploaded by blast
  then have step: "evidence_step plain_env upload_act empty_evidence = Inr db1" by (simp add: evidence_step_def upload_act_def)
  then have "ev_tenants db1 = sample_tenants" using step_frame [OF step] by (simp add: empty_evidence_def)
  with up step show ?thesis by (rule that)
qed

lemma plain_verdict: "sc_verdict (inspect plain_env content) = VerdictSkipped"
  by (simp add: inspect_def plain_env_def)


section \<open>Reviews belong to their requisites\<close>

lemma step_new_row:
  assumes "evidence_step env c db = Inr db'" "map_of (ev_attachments db) i = None" "map_of (ev_attachments db') i = Some b"
  shows "unreviewed b"
proof (cases "upload_command c")
  case True
  from upload_frame [OF this assms(1)] obtain new where
    "ev_attachments db' = ev_attachments db @ new" "\<forall>(i, a) \<in> set new. unreviewed a" by (fastforce simp: appends_def)
  moreover from this(1) have "map_of new i = Some b" using assms(2,3) by (simp add: map_add_Some_iff)
  ultimately show ?thesis using map_of_SomeD by fastforce
next
  case False
  then show ?thesis
  proof (cases c)
    case (Review rq u j r)
    then have "review rq u j r db = Inr db'" using assms(1) by (simp add: evidence_step_def)
    from review_frame [OF this] show ?thesis using assms(2,3) by (cases "i = j") (auto simp: changed_row_def map_of_update_other)
  next
    case (UpdateMetadata rq u j m)
    then obtain ch where "update_metadata rq u j m db = Inr (ch, db')" using assms by (auto simp: evidence_step_def result_simps)
    from update_metadata_frame [OF this] show ?thesis
      using assms(2,3) by (cases "i = j") (auto simp: changed_row_def map_of_update_other)
  next
    case (ChangeDispute rq u entry r fresh)
    then have "change_dispute rq u entry r fresh db = Inr db'" using assms by (simp add: evidence_step_def)
    from change_dispute_rows [OF this] show ?thesis using assms(2,3) by auto
  next
    case (Purge now)
    then show ?thesis using assms by (auto simp: evidence_step_def purge_frame(1) map_of_filter_key split: if_splits)
  qed (simp_all add: upload_command_def)
qed

text \<open>
  C34: a review belongs to the requisites it was made for: as long as nobody reviews a document again, it
  keeps the requisites, the verdict, the reviewer and the verification it had, or it waits for its
  review, unverified, whatever else happens.
\<close>

theorem review_covers_requisites:
  assumes "tables_ok db" "map_of (ev_attachments db) i = Some a" "\<forall>c \<in> set cs. reviews_of c \<noteq> Some i"
    "map_of (ev_attachments (run env cs db)) i = Some b"
  shows "(at_meta b = at_meta a \<and> at_status b = at_status a \<and> at_reviewer b = at_reviewer a \<and> at_verified b = at_verified a
      \<and> at_verifier b = at_verifier a)
    \<or> (at_status b = ''pending'' \<and> at_reviewer b = None \<and> at_verified b = None)"
proof -
  let ?P = "\<lambda>s. \<forall>b. map_of (ev_attachments s) i = Some b \<longrightarrow> same_review a b \<or> unreviewed b"
  have "?P (run env cs db) \<and> tables_ok (run env cs db)"
  proof (rule run_induct [where P = ?P, OF assms(1) _ assms(3)])
    fix c s t
    assume c: "reviews_of c \<noteq> Some i" "tables_ok s" "evidence_step env c s = Inr t" "?P s"
    have distinct: "distinct (map fst (ev_attachments s))" using c(2) by (simp add: tables_ok_def)
    show "?P t"
    proof (intro allI impI)
      fix y
      assume y: "map_of (ev_attachments t) i = Some y"
      show "same_review a y \<or> unreviewed y"
      proof (cases "map_of (ev_attachments s) i")
        case None
        then show ?thesis using step_new_row [OF c(3) _ y] by blast
      next
        case (Some x)
        then have "row_step c i x y" using step_row [OF distinct c(3)] y by fastforce
        then have "same_review x y \<or> unreviewed y" using c(1) by (simp add: row_step_def)
        moreover have "same_review a x \<or> unreviewed x" using c(4) Some by blast
        ultimately show ?thesis by (auto simp: same_review_def unreviewed_def)
      qed
    qed
  qed (use assms(2) in \<open>simp add: same_review_def\<close>)
  then show ?thesis using assms(4) by (auto simp: same_review_def unreviewed_def)
qed

section \<open>Disputed entries do not count\<close>

definition lifts :: "string \<Rightarrow> evidence_command \<Rightarrow> bool" where
  "lifts entry c = (case c of ChangeDispute _ _ e r _ \<Rightarrow> e = entry \<and> dr_action r = ''lift'' | _ \<Rightarrow> False)"

definition disputed_for :: "string \<Rightarrow> string \<Rightarrow> evidence_db \<Rightarrow> bool" where
  "disputed_for entry reason db = (\<exists>j d. (j, d) \<in> set (ev_disputes db) \<and> active_in entry d \<and> ld_reason d = reason)"

lemma disputed_for_same: "ev_disputes t = ev_disputes s \<Longrightarrow> disputed_for entry reason s \<Longrightarrow> disputed_for entry reason t"
  by (simp add: disputed_for_def)

lemma disputed_for_grows: "set (ev_disputes s) \<subseteq> set (ev_disputes t) \<Longrightarrow> disputed_for entry reason s \<Longrightarrow> disputed_for entry reason t"
  unfolding disputed_for_def by blast

lemma disputed_for_raised: "active_in entry d \<Longrightarrow> ld_reason d = reason \<Longrightarrow> disputed_for entry reason (db\<lparr>ev_disputes := ds @ [(i, d)]\<rparr>)"
  unfolding disputed_for_def by (intro exI [of _ i] exI [of _ d]) simp

lemma lift_keeps_others:
  assumes "lift_dispute rq u other reason' db = Inr db'" "other \<noteq> entry" "disputed_for entry reason db"
  shows "disputed_for entry reason db'"
proof -
  obtain j d where d: "(j, d) \<in> set (ev_disputes db)" "active_in entry d" "ld_reason d = reason"
    using assms(3) by (auto simp: disputed_for_def)
  have "\<not> active_in other d" using d(2) assms(2) by (simp add: active_in_def)
  then have "(j, d) \<in> set (ev_disputes db')" using lift_dispute_frame [OF assms(1)] d(1) by force
  then show ?thesis using d(2,3) by (auto simp: disputed_for_def)
qed

lemma step_keeps_dispute:
  assumes "evidence_step env c s = Inr t" "\<not> lifts entry c" "tables_ok s" "disputed_for entry reason s"
  shows "disputed_for entry reason t"
proof (cases "upload_command c")
  case True
  from upload_frame [OF this assms(1)] show ?thesis using disputed_for_same [OF _ assms(4)] by (auto simp: appends_def)
next
  case False
  then show ?thesis
  proof (cases c)
    case (Review rq u j r)
    then have "review rq u j r s = Inr t" using assms(1) by (simp add: evidence_step_def)
    from review_frame [OF this] show ?thesis using disputed_for_same [OF _ assms(4)] by (auto simp: changed_row_def)
  next
    case (UpdateMetadata rq u j m)
    then obtain ch where "update_metadata rq u j m s = Inr (ch, t)" using assms(1) by (auto simp: evidence_step_def result_simps)
    from update_metadata_frame [OF this] show ?thesis using disputed_for_same [OF _ assms(4)] by (auto simp: changed_row_def)
  next
    case (ChangeDispute rq u e r fresh)
    then have "change_dispute rq u e r fresh s = Inr t" using assms(1) by (simp add: evidence_step_def)
    from change_dispute_frame [OF this] obtain j s1 where t: "t = s1\<lparr>ev_journal := j\<rparr>"
      and act: "raise_dispute rq u e (trim_space (dr_reason r)) (dr_attachment r) fresh s = Inr s1
        \<or> dr_action r = ''lift'' \<and> lift_dispute rq u e (trim_space (dr_reason r)) s = Inr s1" by blast
    have "disputed_for entry reason s1" using act
    proof
      assume raised: "raise_dispute rq u e (trim_space (dr_reason r)) (dr_attachment r) fresh s = Inr s1"
      have "disputes_ok (ev_disputes s)" using assms(3) by (simp add: tables_ok_def)
      from raise_dispute_ok [OF raised this] have "set (ev_disputes s) \<subseteq> set (ev_disputes s1)" by auto
      then show ?thesis using disputed_for_grows assms(4) by blast
    next
      assume lifted: "dr_action r = ''lift'' \<and> lift_dispute rq u e (trim_space (dr_reason r)) s = Inr s1"
      then have "e \<noteq> entry" using assms(2) ChangeDispute by (simp add: lifts_def)
      then show ?thesis using lift_keeps_others lifted assms(4) by blast
    qed
    then show ?thesis by (simp add: t disputed_for_def)
  next
    case (Purge now)
    then have t: "ev_disputes t = map (\<lambda>(i, d). (i, forget_attachments (expired_ids now s) d)) (ev_disputes s)"
      using assms(1) purge_frame(2) by (auto simp: evidence_step_def)
    obtain j d where d: "(j, d) \<in> set (ev_disputes s)" "active_in entry d" "ld_reason d = reason"
      using assms(4) by (auto simp: disputed_for_def)
    then have "(j, forget_attachments (expired_ids now s) d) \<in> set (ev_disputes t)" by (auto simp: t intro!: image_eqI [of _ _ "(j, d)"])
    then show ?thesis using d(2,3) unfolding disputed_for_def by (metis active_in_def forget_facts(2-4))
  qed (simp_all add: upload_command_def)
qed

lemma find_unique: "length (filter P xs) \<le> 1 \<Longrightarrow> x \<in> set xs \<Longrightarrow> P x \<Longrightarrow> find P xs = Some x"
proof (induction xs)
  case (Cons y xs)
  then show ?case by (cases "P y") (auto simp: filter_empty_conv)
qed simp

lemma disputed_reason:
  assumes "tables_ok db" "disputed_for entry reason db"
  shows "dispute_reason entry db = reason"
proof -
  obtain j d where d: "(j, d) \<in> set (ev_disputes db)" "active_in entry d" "ld_reason d = reason"
    using assms(2) by (auto simp: disputed_for_def)
  have "length (filter (\<lambda>(_, d). active_in entry d) (ev_disputes db)) \<le> 1" using assms(1) by (simp add: tables_ok_def disputes_ok_def)
  from find_unique [OF this d(1)] show ?thesis using d(2,3) by (simp add: dispute_reason_def)
qed

text \<open>
  C33: a disputed entry does not count: from the moment a lawyer raises a dispute about an entry until
  somebody lifts it, whatever else happens, the projection of the entry counts nothing, shows the
  reason of the dispute and puts the entry at risk, whatever its documents, amount and report are.
\<close>

theorem disputed_entry_not_counted:
  assumes "tables_ok db" "change_dispute rq u entry r fresh db = Inr db1" "dr_action r = ''raise''"
    "\<forall>c \<in> set cs. \<not> lifts entry c" "ar_dispute row = dispute_reason entry (run env cs db1)"
  shows "ct_counted (project_row row now) = 0 \<and> ax_state (ct_dispute (project_row row now)) = ''disputed''
    \<and> ax_reasons (ct_dispute (project_row row now)) = [dispute_prefix @ trim_space (dr_reason r)]
    \<and> \<not> ax_passed (ct_risk (project_row row now))"
proof -
  have reason: "trim_space (dr_reason r) \<noteq> []" using assms(2) by (auto simp: change_dispute_def Let_def result_simps split: if_splits)
  have "disputes_ok (ev_disputes db)" using assms(1) by (simp add: tables_ok_def)
  moreover obtain j db' where db1: "db1 = db'\<lparr>ev_journal := j\<rparr>"
    and raised: "raise_dispute rq u entry (trim_space (dr_reason r)) (dr_attachment r) fresh db = Inr db'"
    using change_dispute_frame [OF assms(2)] assms(3) by auto
  ultimately obtain d where "db' = db\<lparr>ev_disputes := ev_disputes db @ [(fresh, d)]\<rparr>" "active_in entry d"
    "ld_reason d = trim_space (dr_reason r)" using raise_dispute_ok [OF raised] by blast
  then have "disputed_for entry (trim_space (dr_reason r)) db'" using disputed_for_raised by blast
  then have "disputed_for entry (trim_space (dr_reason r)) db1" by (rule disputed_for_same [rotated]) (simp add: db1)
  note raised_for = this
  have "disputed_for entry (trim_space (dr_reason r)) (run env cs db1) \<and> tables_ok (run env cs db1)"
    by (rule run_induct [where P = "disputed_for entry (trim_space (dr_reason r))" and Q = "\<lambda>c. \<not> lifts entry c",
          OF change_dispute_tables [OF assms(2,1)] raised_for assms(4)])
      (rule step_keeps_dispute)
  then have "ar_dispute row = trim_space (dr_reason r)" using disputed_reason [of "run env cs db1" entry "trim_space (dr_reason r)"] assms(5) by simp
  then show ?thesis using reason row_risk_ready [of row] by (simp add: project_row_def Let_def legal_dispute_axis_def)
qed

definition legal_claim :: dispute_request where
  "legal_claim = \<lparr>dr_action = ''raise'', dr_reason = ''no act'', dr_attachment = []\<rparr>"

definition disputed_db :: evidence_db where
  "disputed_db = (case change_dispute at_noon company_admin ''e1'' legal_claim ''d1'' empty_evidence of Inl _ \<Rightarrow> empty_evidence | Inr db \<Rightarrow> db)"

lemma claim_raised: "change_dispute at_noon company_admin ''e1'' legal_claim ''d1'' empty_evidence = Inr disputed_db"
proof -
  have "succeeds (change_dispute at_noon company_admin ''e1'' legal_claim ''d1'' empty_evidence)" by code_simp
  then show ?thesis by (auto simp: disputed_db_def succeeds_def split: sum.splits)
qed

theorem disputed_entry_not_counted_witness:
  "ct_counted (project_row (club_row\<lparr>ar_dispute := dispute_reason ''e1'' (run plain_env [upload_act] disputed_db)\<rparr>) 0) = 0"
  using disputed_entry_not_counted [OF empty_tables_ok claim_raised, where cs = "[upload_act]" and env = plain_env
      and row = "club_row\<lparr>ar_dispute := dispute_reason ''e1'' (run plain_env [upload_act] disputed_db)\<rparr>" and now = 0]
  by (simp add: legal_claim_def lifts_def upload_act_def)

text \<open>An approved document from before digests were stored.\<close>

definition old_act :: attachment where
  "old_act = \<lparr>at_entry = ''e1'', at_name = ''act.txt'', at_path = ''2025/act.txt'', at_size = 5, at_uploader = ''u1'',
      at_uploaded = 0, at_expires = 2000000000 * 10 ^ 9, at_type = ''school_agreement'', at_sha = None, at_scan = ''clean'',
      at_scan_signature = None, at_scanned = Some 0, at_status = ''approved'', at_reviewer = Some ''u1'', at_reviewed = Some 0,
      at_comment = None, at_owner_role = ''org_admin'', at_owner_entity = ''organization'', at_meta = no_requisites,
      at_verified = None, at_verifier = None\<rparr>"

definition one_document :: evidence_db where
  "one_document = empty_evidence\<lparr>ev_attachments := [(''a0'', old_act)]\<rparr>"

lemma one_document_ok: "evidence_ok env one_document"
proof -
  have "attachment_checks old_act" by code_simp
  moreover have "at_sha old_act = None" by (simp add: old_act_def)
  ultimately show ?thesis
    by (simp add: evidence_ok_def rows_ok_def disputes_ok_def one_document_def empty_evidence_def intact_def)
qed

definition describe_act :: evidence_command where
  "describe_act = UpdateMetadata at_noon company_admin ''a0'' \<lparr>dm_number = ''7'', dm_date = [], dm_signer = [], dm_serial = [],
     dm_from = [], dm_until = []\<rparr>"

theorem review_covers_requisites_witness:
  "\<exists>b. map_of (ev_attachments (run plain_env [upload_act, describe_act, Purge 0] one_document)) ''a0'' = Some b
    \<and> (at_meta b = no_requisites \<and> at_status b = ''approved'' \<or> at_status b = ''pending'')"
proof -
  let ?cs = "[upload_act, describe_act, Purge 0]"
  have a: "map_of (ev_attachments one_document) ''a0'' = Some old_act" by (simp add: one_document_def)
  have ok: "tables_ok one_document" using one_document_ok by (simp add: evidence_ok_split)
  have "\<forall>now. Purge now \<in> set ?cs \<longrightarrow> now \<le> at_expires old_act"
    by (simp add: upload_act_def describe_act_def old_act_def)
  from row_persists [OF ok a this] obtain b where
    b: "map_of (ev_attachments (run plain_env ?cs one_document)) ''a0'' = Some b" by blast
  have "\<forall>c \<in> set ?cs. reviews_of c \<noteq> Some ''a0''" by (simp add: reviews_of_def upload_act_def describe_act_def)
  from review_covers_requisites [OF ok a this b] show ?thesis
    using b by (auto simp: old_act_def)
qed

section \<open>Interleaved uploads\<close>

text \<open>
  The files of an upload are staged before its transaction, and no lock is held in between. When the
  file is the blob of a document that the clean-up deletes in that time, the upload still commits,
  and its row refers to a file that is gone: what \<open>evidence_stays_sound\<close> says of the files of
  uninterrupted uploads does not hold of interrupted ones. The same happens when two uploads share a blob and the one that created
  it is refused after the other has staged it.
\<close>

definition hello_path :: string where "hello_path = compressed_blob_location (sha256_hex_of ''hello'')"

definition expired_act :: attachment where
  "expired_act = old_act\<lparr>at_path := hello_path, at_expires := 0\<rparr>"

definition shared_db :: evidence_db where
  "shared_db = empty_evidence\<lparr>ev_attachments := [(''a0'', expired_act)], ev_files := [(hello_path, ''hello'')]\<rparr>"

definition shared_staged :: staged_file where "shared_staged = act_staged\<lparr>sf_shared := True\<rparr>"

lemma shared_staging: "stage_file plain_env lenient act_file ([], ev_files shared_db) = Inr ([shared_staged], ev_files shared_db)"
proof -
  have v: "validate_file plain_env ''act.txt'' ''hello'' = Inr ()" by code_simp
  have sc: "scan_outcome lenient (sc_verdict (inspect plain_env ''hello'')) = Inr ''unscanned'' \<and> sc_signature (inspect plain_env ''hello'') = []"
    by code_simp
  have opened: "open_file plain_env [(hello_path, ''hello'')] hello_path = Some ''hello''"
    by (simp add: open_file_def plain_env_def max_decoded_blob_size_def)
  then have "verify_blob plain_env [(hello_path, ''hello'')] hello_path"
    by (simp add: verify_blob_def hello_path_def compressed_location)
  then have "create_blob plain_env ''hello'' max_attachment_size [(hello_path, ''hello'')]
    = Inr (act_blob\<lparr>bl_shared := True\<rparr>, [(hello_path, ''hello'')])"
    by (simp add: create_blob_def max_attachment_size_def act_blob_def Let_def hello_path_def)
  moreover have "bl_path act_blob = hello_path" "bl_size act_blob = 5" by (simp_all add: act_blob_def hello_path_def)
  ultimately show ?thesis
    using v sc by (simp add: stage_file_def act_file_def opened act_staged_def shared_staged_def shared_db_def)
qed

definition staged_act :: pending_upload where
  "staged_act = \<lparr>pu_user = company_admin, pu_config = lenient, pu_entry = ''e1'', pu_category = ''it_clubs'', pu_document = ''school_agreement'',
     pu_todo = [], pu_staged = [shared_staged]\<rparr>"

lemma purge_between:
  "purge_expired_attachments 1 (shared_db\<lparr>ev_uploads := us\<rparr>) = empty_evidence\<lparr>ev_files := [], ev_uploads := us\<rparr>"
  by (simp add: purge_expired_attachments_def expired_ids_def delete_attachments_def shared_db_def empty_evidence_def expired_act_def
      referenced_def remove_file_def eval_nat_numeral)

lemma staged_between:
  "run plain_env [BeginUpload lenient company_admin ''e1'' ''school_agreement'' [act_file], StageFile 0] shared_db
    = shared_db\<lparr>ev_uploads := [staged_act]\<rparr>"
proof -
  have "check_upload company_admin ''e1'' ''school_agreement'' [act_file] shared_db = Inr ''it_clubs''"
  proof -
    have "ev_tenants shared_db = ev_tenants empty_evidence" by (simp add: shared_db_def)
    then have "check_upload company_admin ''e1'' t fs shared_db = check_upload company_admin ''e1'' t fs empty_evidence" for t fs
      unfolding check_upload_def by (simp only:)
    then show ?thesis using act_checked by simp
  qed
  moreover have "document_type_of ''school_agreement'' = ''school_agreement''" by code_simp
  moreover have "ev_uploads shared_db = []" "shared_db\<lparr>ev_files := ev_files shared_db\<rparr> = shared_db"
    by (simp_all add: shared_db_def empty_evidence_def)
  ultimately show ?thesis
    using shared_staging by (simp add: evidence_step_def begin_upload_def stage_step_def stage_next_def staged_act_def)
qed

lemma interleaved_upload_loses_file:
  "download plain_env company_admin ''a1'' (rq_now at_noon)
    (run plain_env [BeginUpload lenient company_admin ''e1'' ''school_agreement'' [act_file], StageFile 0, Purge 1,
       PublishUpload 0 at_noon (\<lambda>_. ''a1'')] shared_db) = Inl 410"
proof -
  have row: "at_entry published_act = ''e1''" "at_expires published_act = rq_now at_noon + 365 * day_ns"
    "at_scan published_act = ''unscanned''" by (simp_all add: published_act_def new_attachment_def act_staged_def)
  have "require_entry sample_tenants company_admin ''e1'' = Inr ()" by code_simp
  then have lost: "download plain_env company_admin ''a1'' (rq_now at_noon)
      (empty_evidence\<lparr>ev_files := [], ev_attachments := [(''a1'', published_act)], ev_journal := j\<rparr>) = Inl 410" for j
    by (simp add: download_def row live_def day_ns_def empty_evidence_def open_file_def)
  obtain j where "commit_upload at_noon lenient ''u1'' ''e1'' ''it_clubs'' ''school_agreement'' [shared_staged] [''a1'']
      (empty_evidence\<lparr>ev_files := []\<rparr>) = Inr (empty_evidence\<lparr>ev_files := [], ev_attachments := [(''a1'', published_act)], ev_journal := j\<rparr>)"
    using act_commits [of True "[]"] unfolding shared_staged_def by blast
  then have "snd (publish_upload at_noon staged_act (\<lambda>_. ''a1'') (empty_evidence\<lparr>ev_files := []\<rparr>))
      = empty_evidence\<lparr>ev_files := [], ev_attachments := [(''a1'', published_act)], ev_journal := j\<rparr>"
    by (simp add: publish_upload_def staged_act_def company_admin_def)
  moreover have "run plain_env [BeginUpload lenient company_admin ''e1'' ''school_agreement'' [act_file], StageFile 0, Purge 1,
       PublishUpload 0 at_noon (\<lambda>_. ''a1'')] shared_db =
     run plain_env [Purge 1, PublishUpload 0 at_noon (\<lambda>_. ''a1'')] (shared_db\<lparr>ev_uploads := [staged_act]\<rparr>)"
    unfolding staged_between [symmetric] run_append [symmetric] by simp
  moreover have "empty_evidence\<lparr>ev_files := [], ev_uploads := []\<rparr> = empty_evidence\<lparr>ev_files := []\<rparr>" by (simp add: empty_evidence_def)
  moreover have "pu_todo staged_act = []" by (simp add: staged_act_def)
  ultimately show ?thesis
    using lost [of j] by (simp add: evidence_step_def publish_step_def purge_between end_upload_def)
qed

text \<open>
  What is sound in any order, and in files when nothing is interrupted: an upload, and an entry whose
  dispute is raised twice (the second is refused).
\<close>

definition raise_claim :: evidence_command where
  "raise_claim = ChangeDispute at_noon company_admin ''e1'' legal_claim ''d1''"


end
