(* ===== verification/Ledger.thy ===== *)
theory Ledger
  imports Tasks Regulatory Documents
begin

text \<open>
  The tables around the entries (migrations 0001, 0011, 0013, 0014, 0019, 0811): agreements with their
  partners, responsible people and lists of activities, the entries themselves, and the report of an
  agreement for a year and a period. The triggers that return a report to its draft when something
  it rests on changes, and the view that says which entries count. A ledger also holds the evidence
  of entries and the tasks, so that one transaction may change them all.
\<close>

section \<open>Tables\<close>

record partner_row =
  pt_name :: string
  pt_kind :: string

record agreement =
  am_kind :: string
  am_number :: string
  am_status :: string
  am_from :: int
  am_until :: int
  am_company :: "string option"
  am_authority :: "string option"

record category_row =
  cg_name :: string
  cg_audiences :: "string list"

record entry =
  en_category :: string
  en_partner :: string
  en_agreement :: string
  en_period :: string
  en_year :: int
  en_audience :: string
  en_payload :: payload
  en_amount :: amount
  en_formula :: amount
  en_actual :: "amount option"
  en_method :: string
  en_company :: string
  en_staff :: string
  en_created_by :: string
  en_updated_by :: "string option"
  en_top_legacy :: bool
  en_tariffs :: "int list"
  en_copied_from :: string

type_synonym report_key = "string \<times> int \<times> string"

text \<open>Who made a step of a report and when; the code sets and clears both together.\<close>

type_synonym stamp = "(string \<times> instant) option"

record report =
  rp_status :: string
  rp_scope :: bool
  rp_conditions :: bool
  rp_evidence :: bool
  rp_counterparty :: bool
  rp_costs :: bool
  rp_auditor :: string
  rp_comment :: string
  rp_ready :: stamp
  rp_verified :: stamp
  rp_approved :: stamp
  rp_updated :: "string option"

record report_event =
  re_key :: report_key
  re_from :: string
  re_to :: string
  re_comment :: string
  re_by :: string
  re_at :: instant

record ledger =
  lg_evidence :: evidence_db
  lg_tasks :: task_db
  lg_partners :: "(string \<times> partner_row) list"
  lg_authorities :: "(string \<times> string) list"
  lg_agreements :: "(string \<times> agreement) list"
  lg_members :: "(string \<times> string \<times> bool) list"
  lg_people :: "(string \<times> string) list"
  lg_scope :: "(string \<times> string) list"
  lg_categories :: "(string \<times> category_row) list"
  lg_entries :: "(string \<times> entry) list"
  lg_reports :: "(report_key \<times> report) list"
  lg_history :: "report_event list"

definition context_of :: "entry \<Rightarrow> report_key" where
  "context_of e = (en_agreement e, en_year e, en_period e)"

definition draft_report :: "string \<Rightarrow> report" where
  "draft_report who = \<lparr>rp_status = ''draft'', rp_scope = False, rp_conditions = False, rp_evidence = False,
     rp_counterparty = False, rp_costs = False, rp_auditor = [], rp_comment = [], rp_ready = None, rp_verified = None,
     rp_approved = None, rp_updated = Some who\<rparr>"

section \<open>Reports return to their draft\<close>

text \<open>What every trigger does to the row of a report that is not a draft.\<close>

definition reset_report :: "report \<Rightarrow> report" where
  "reset_report r = r\<lparr>rp_status := ''draft'', rp_scope := False, rp_conditions := False, rp_evidence := False,
     rp_counterparty := False, rp_ready := None, rp_verified := None, rp_approved := None\<rparr>"

definition not_draft :: "(report_key \<Rightarrow> bool) \<Rightarrow> report_key \<times> report \<Rightarrow> bool" where
  "not_draft P x = (case x of (k, r) \<Rightarrow> P k \<and> rp_status r \<noteq> ''draft'')"

definition reset_event :: "string \<Rightarrow> string \<Rightarrow> instant \<Rightarrow> report_key \<times> report \<Rightarrow> report_event" where
  "reset_event comment who now x = (case x of (k, r) \<Rightarrow>
     \<lparr>re_key = k, re_from = rp_status r, re_to = ''draft'', re_comment = comment, re_by = who, re_at = now\<rparr>)"

definition reset_rows :: "(report_key \<Rightarrow> bool) \<Rightarrow> ledger \<Rightarrow> ledger" where
  "reset_rows P db = db\<lparr>lg_reports := map (\<lambda>(k, r). (k, if not_draft P (k, r) then reset_report r else r)) (lg_reports db)\<rparr>"

definition reset_logged :: "(report_key \<Rightarrow> bool) \<Rightarrow> string \<Rightarrow> string \<Rightarrow> instant \<Rightarrow> ledger \<Rightarrow> ledger" where
  "reset_logged P comment who now db =
     reset_rows P (db\<lparr>lg_history := lg_history db @ map (reset_event comment who now) (filter (not_draft P) (lg_reports db))\<rparr>)"

definition entry_changed_text :: string where
  "entry_changed_text = utf8 [1040, 1074, 1090, 1086, 1084, 1072, 1090, 1080, 1095, 1077, 1089, 1082, 1080, 58, 32, 1080,
    1079, 1084, 1077, 1085, 1077, 1085, 1072, 32, 1079, 1072, 1087, 1080, 1089, 1100, 32, 1087, 1083, 1072, 1085, 1072, 47,
    1092, 1072, 1082, 1090, 1072]"

definition entry_added_text :: string where
  "entry_added_text = utf8 [1040, 1074, 1090, 1086, 1084, 1072, 1090, 1080, 1095, 1077, 1089, 1082, 1080, 58, 32, 1076,
    1086, 1073, 1072, 1074, 1083, 1077, 1085, 1072, 32, 1080, 1083, 1080, 32, 1087, 1077, 1088, 1077, 1085, 1077, 1089, 1077,
    1085, 1072, 32, 1079, 1072, 1087, 1080, 1089, 1100, 32, 1087, 1083, 1072, 1085, 1072, 47, 1092, 1072, 1082, 1090, 1072]"

definition scope_changed_text :: string where
  "scope_changed_text = utf8 [1040, 1074, 1090, 1086, 1084, 1072, 1090, 1080, 1095, 1077, 1089, 1082, 1080, 58, 32, 1080,
    1079, 1084, 1077, 1085, 1105, 1085, 32, 1087, 1077, 1088, 1077, 1095, 1077, 1085, 1100, 32, 1084, 1077, 1088, 1086, 1087,
    1088, 1080, 1103, 1090, 1080, 1081, 32, 1089, 1086, 1075, 1083, 1072, 1096, 1077, 1085, 1080, 1103]"

definition authority_changed_text :: string where
  "authority_changed_text = utf8 [1040, 1074, 1090, 1086, 1084, 1072, 1090, 1080, 1095, 1077, 1089, 1082, 1080, 58, 32, 1080,
    1079, 1084, 1077, 1085, 1105, 1085, 32, 1089, 1090, 1072, 1090, 1091, 1089, 32, 1056, 1054, 1048, 1042]"

definition entry_actor :: "entry \<Rightarrow> string" where
  "entry_actor e = (case en_updated_by e of Some u \<Rightarrow> u | None \<Rightarrow> en_created_by e)"

text \<open>
  \<open>reset_agreement_report_on_entry_change\<close>: the row before the statement (none for an insertion) and
  after it (none for a deletion).
\<close>

definition reset_on_entry_change :: "entry option \<Rightarrow> entry option \<Rightarrow> instant \<Rightarrow> ledger \<Rightarrow> ledger" where
  "reset_on_entry_change old new now db =
     (let actor = (case new of Some e \<Rightarrow> entry_actor e | None \<Rightarrow> (case old of Some e \<Rightarrow> entry_actor e | None \<Rightarrow> []));
          db1 = (case old of None \<Rightarrow> db | Some was \<Rightarrow> reset_logged (\<lambda>k. k = context_of was) entry_changed_text actor now db)
      in (case new of None \<Rightarrow> db1
          | Some n \<Rightarrow> (case old of
              None \<Rightarrow> reset_logged (\<lambda>k. k = context_of n) entry_added_text actor now db1
            | Some was \<Rightarrow> if context_of was \<noteq> context_of n
                then reset_logged (\<lambda>k. k = context_of n) entry_added_text actor now db1 else db1)))"

definition reset_auditor :: "report_key \<Rightarrow> ledger \<Rightarrow> ledger" where
  "reset_auditor key db = db\<lparr>lg_reports := map (\<lambda>(k, r). (k, if k = key then r\<lparr>rp_costs := False, rp_auditor := []\<rparr> else r))
     (lg_reports db)\<rparr>"

definition reset_auditor_on_entry_change :: "entry option \<Rightarrow> entry option \<Rightarrow> ledger \<Rightarrow> ledger" where
  "reset_auditor_on_entry_change old new db =
     (case new of Some e \<Rightarrow> reset_auditor (context_of e) db
      | None \<Rightarrow> (case old of Some e \<Rightarrow> reset_auditor (context_of e) db | None \<Rightarrow> db))"

definition entry_triggers :: "entry option \<Rightarrow> entry option \<Rightarrow> instant \<Rightarrow> ledger \<Rightarrow> ledger" where
  "entry_triggers old new now db = reset_on_entry_change old new now (reset_auditor_on_entry_change old new db)"

text \<open>The category and the partner of entries, as the checks of reach read them.\<close>

definition index_entry :: "string \<Rightarrow> entry \<Rightarrow> evidence_db \<Rightarrow> evidence_db" where
  "index_entry i e ev = ev\<lparr>ev_tenants := (ev_tenants ev)\<lparr>td_entries := AList.update i (en_category e, Some (en_partner e))
     (td_entries (ev_tenants ev))\<rparr>\<rparr>"

definition partner_company :: "string \<Rightarrow> ledger \<Rightarrow> string option" where
  "partner_company p db = (case map_of (td_partners (ev_tenants (lg_evidence db))) p of None \<Rightarrow> None | Some c \<Rightarrow> c)"

definition agreement_company :: "string \<Rightarrow> ledger \<Rightarrow> string option" where
  "agreement_company a db = (case map_of (lg_agreements db) a of None \<Rightarrow> None | Some x \<Rightarrow> am_company x)"

text \<open>\<open>enforce_entry_tenant\<close>, the CHECK constraints and the foreign keys of an entry.\<close>

definition enforce_entry_tenant :: "entry \<Rightarrow> ledger \<Rightarrow> bool" where
  "enforce_entry_tenant e db = (agreement_company (en_agreement e) db = Some (en_company e)
     \<and> partner_company (en_partner e) db = Some (en_company e))"

definition cost_checks :: "entry \<Rightarrow> bool" where
  "cost_checks e =
     (en_method e = ''average'' \<and> en_actual e = None \<and> en_amount e = en_formula e
      \<or> en_method e = ''actual'' \<and> en_period e = ''fact'' \<and> en_actual e = Some (en_amount e) \<and> 0 < en_amount e)"

definition entry_row_checks :: "entry \<Rightarrow> bool" where
  "entry_row_checks e = (cost_checks e \<and> 2000 \<le> en_year e \<and> en_year e \<le> 2100 \<and> 0 \<le> en_amount e
     \<and> (en_period e = ''plan'' \<or> en_period e = ''fact''))"

definition entry_keys :: "entry \<Rightarrow> ledger \<Rightarrow> bool" where
  "entry_keys e db = (en_category e \<in> set (map fst (lg_categories db))
     \<and> list_ex (\<lambda>(a, p, _). a = en_agreement e \<and> p = en_partner e) (lg_members db)
     \<and> entry_actor e \<in> set (map fst (ev_users (lg_evidence db))))"

definition store_entry :: "string \<Rightarrow> entry \<Rightarrow> instant \<Rightarrow> ledger \<Rightarrow> Access.status + ledger" where
  "store_entry i e now db =
     (if \<not> (enforce_entry_tenant e db \<and> entry_row_checks e \<and> entry_keys e db) then Inl 500
      else Inr (entry_triggers (map_of (lg_entries db) i) (Some e) now
        (db\<lparr>lg_entries := AList.update i e (lg_entries db), lg_evidence := index_entry i e (lg_evidence db)\<rparr>)))"

section \<open>What a report rests on\<close>

definition change_agreement :: "string \<Rightarrow> agreement \<Rightarrow> (string \<times> bool) list \<Rightarrow> string list \<Rightarrow> ledger \<Rightarrow> ledger" where
  "change_agreement a row members people db =
     reset_rows (\<lambda>(b, _). b = a) (db\<lparr>lg_agreements := AList.update a row (lg_agreements db),
       lg_members := filter (\<lambda>(b, _). b \<noteq> a) (lg_members db) @ map (\<lambda>(p, primary). (a, p, primary)) members,
       lg_people := filter (\<lambda>(b, _). b \<noteq> a) (lg_people db) @ map (Pair a) people\<rparr>)"

definition first_known :: "string option list \<Rightarrow> string option" where
  "first_known xs = (case filter (\<lambda>x. x \<noteq> None) xs of [] \<Rightarrow> None | x # _ \<Rightarrow> x)"

definition scope_event :: "string option \<Rightarrow> instant \<Rightarrow> report_key \<times> report \<Rightarrow> report_event list" where
  "scope_event actor now x =
     (case first_known [actor, rp_updated (snd x), map_option fst (rp_approved (snd x)), map_option fst (rp_verified (snd x)),
         map_option fst (rp_ready (snd x))] of
        None \<Rightarrow> [] | Some who \<Rightarrow> [reset_event scope_changed_text who now x])"

definition change_scope :: "string \<Rightarrow> string list \<Rightarrow> string option \<Rightarrow> instant \<Rightarrow> ledger \<Rightarrow> Access.status + ledger" where
  "change_scope a codes actor now db =
     (let P = (\<lambda>(b, _). b = a); found = filter (not_draft P) (lg_reports db);
          db1 = db\<lparr>lg_scope := filter (\<lambda>(b, _). b \<noteq> a) (lg_scope db) @ map (Pair a) codes\<rparr>
      in if \<not> set codes \<subseteq> set (map fst (lg_categories db)) then Inl 500
         else if codes = [] \<and> \<not> list_ex (\<lambda>(b, _). b = a) (lg_scope db) then Inr db1
         else Inr (db1\<lparr>lg_history := lg_history db @ concat (map (scope_event actor now) found),
           lg_reports := map (\<lambda>(k, r). (k, if not_draft P (k, r) then reset_report r\<lparr>rp_updated := actor\<rparr> else r)) (lg_reports db)\<rparr>))"

definition rests_on_authority :: "string \<Rightarrow> ledger \<Rightarrow> report_key \<Rightarrow> bool" where
  "rests_on_authority i db k = (case k of (a, _) \<Rightarrow>
     (case map_of (lg_agreements db) a of None \<Rightarrow> False | Some x \<Rightarrow> am_authority x = Some i))"

definition change_authority :: "string \<Rightarrow> string \<Rightarrow> string \<Rightarrow> instant \<Rightarrow> ledger \<Rightarrow> ledger" where
  "change_authority i state who now db =
     (let db1 = db\<lparr>lg_authorities := AList.update i state (lg_authorities db)\<rparr>
      in if map_of (lg_authorities db) i = Some state then db1
         else reset_logged (rests_on_authority i db) authority_changed_text who now db1)"

section \<open>Which entries count\<close>

definition covered :: "ledger \<Rightarrow> report_key \<Rightarrow> string \<Rightarrow> bool" where
  "covered db key category =
     list_ex (\<lambda>(_, e). context_of e = key \<and> en_category e = category \<and> 0 < en_amount e) (lg_entries db)"

definition has_party :: "ledger \<Rightarrow> string \<Rightarrow> string \<Rightarrow> bool" where
  "has_party db a party = list_ex (\<lambda>(b, p). b = a \<and> p = party) (lg_people db)"

definition authority_active :: "ledger \<Rightarrow> agreement \<Rightarrow> bool" where
  "authority_active db x = (case am_authority x of None \<Rightarrow> False | Some i \<Rightarrow> map_of (lg_authorities db) i = Some ''active'')"

definition report_of :: "ledger \<Rightarrow> report_key \<Rightarrow> report option" where
  "report_of db key = map_of (lg_reports db) key"

definition report_status :: "ledger \<Rightarrow> report_key \<Rightarrow> string" where
  "report_status db key = (case report_of db key of None \<Rightarrow> ''draft'' | Some r \<Rightarrow> rp_status r)"

text \<open>
  The agreements of the same company with another educational organization than a school, active and
  with an approved report: the join that the code and the view share.
\<close>

definition clause22_candidates :: "ledger \<Rightarrow> report_key \<Rightarrow> (string \<times> string \<times> string) list" where
  "clause22_candidates db key = (case key of (a, year, period) \<Rightarrow>
     concat (map (\<lambda>(other, x).
       if other \<noteq> a \<and> am_status x = ''active'' \<and> am_company x \<noteq> None \<and> am_company x = agreement_company a db
          \<and> report_status db (other, year, period) = ''approved''
       then concat (map (\<lambda>(b, p, _).
         (case map_of (lg_partners db) p of None \<Rightarrow> []
          | Some row \<Rightarrow> if b = other \<and> pt_kind row \<noteq> ''school'' \<and> list_ex (\<lambda>(c, q, _). c = a \<and> q \<noteq> p) (lg_members db)
              then [(other, am_number x, pt_name row)] else [])) (lg_members db))
       else []) (lg_agreements db)))"

definition in_year :: "agreement \<Rightarrow> int \<Rightarrow> bool" where
  "in_year x year = (am_from x \<le> day_number (year, 12, 31) \<and> day_number (year, 1, 1) \<le> am_until x)"

text \<open>The view \<open>entry_eligibility\<close> of migration 0811.\<close>

definition scope_covered :: "ledger \<Rightarrow> report_key \<Rightarrow> bool" where
  "scope_covered db key = list_all (\<lambda>(a, c). a = fst key \<longrightarrow> covered db key c) (lg_scope db)"

definition view_exemption :: "ledger \<Rightarrow> report_key \<Rightarrow> bool" where
  "view_exemption db key = (case key of (a, year, period) \<Rightarrow>
     covered db key ''top_it'' \<and> list_ex (\<lambda>(other, _).
       covered db (other, year, period) ''teachers'' \<and> covered db (other, year, period) ''ood_rpd''
       \<and> (covered db (other, year, period) ''internship'' \<or> covered db (other, year, period) ''employment_practice'')
       \<and> covered db (other, year, period) ''minc_decision'') (clause22_candidates db key))"

definition report_confirmed :: "report \<Rightarrow> entry \<Rightarrow> bool" where
  "report_confirmed r e = (rp_status r = ''approved'' \<and> rp_scope r \<and> rp_conditions r \<and> rp_evidence r
     \<and> (en_period e = ''plan'' \<or> rp_counterparty r)
     \<and> (en_method e \<noteq> ''actual'' \<or> rp_costs r \<and> btrim (rp_auditor r) \<noteq> []))"

definition entry_eligible :: "ledger \<Rightarrow> string \<Rightarrow> entry \<Rightarrow> bool" where
  "entry_eligible db i e = (case (map_of (lg_agreements db) (en_agreement e), report_of db (context_of e)) of
     (Some x, Some r) \<Rightarrow>
       report_confirmed r e \<and> \<not> list_ex (\<lambda>(_, d). active_in i d) (ev_disputes (lg_evidence db)) \<and> \<not> en_top_legacy e
       \<and> am_status x = ''active'' \<and> in_year x (en_year e)
       \<and> (am_kind x \<noteq> ''roiv'' \<or> authority_active db x)
       \<and> has_party db (en_agreement e) ''cyberprotect'' \<and> has_party db (en_agreement e) ''counterparty''
       \<and> (scope_covered db (context_of e) \<or> am_kind x = ''education_organization'' \<and> view_exemption db (context_of e))
   | _ \<Rightarrow> False)"

end
