(* ===== verification/ReportWorkflow.thy ===== *)
theory ReportWorkflow
  imports Ledger
begin

text \<open>
  The report of an agreement (\<open>backend/internal/handlers/report_workflow.go\<close>, \<open>report_tasks.go\<close>): what
  a report must satisfy, who may move it between draft, ready, verified and approved, and the tasks
  that follow its steps. The missing items are constructors instead of Russian texts; the list of
  past steps in the response is left out.
\<close>

section \<open>Reach\<close>

definition report_context_ok :: "report_key \<Rightarrow> bool" where
  "report_context_ok key = (case key of (a, year, period) \<Rightarrow>
     a \<noteq> [] \<and> 2000 \<le> year \<and> year \<le> 2100 \<and> (period = ''plan'' \<or> period = ''fact''))"

definition tenant_allowed :: "auth_user \<Rightarrow> string option \<Rightarrow> bool" where
  "tenant_allowed u company = (case au_company u of
     None \<Rightarrow> au_entity u \<noteq> ''organization''
   | Some c \<Rightarrow> c = (case company of None \<Rightarrow> [] | Some x \<Rightarrow> x))"

definition members_of :: "ledger \<Rightarrow> string \<Rightarrow> (string \<times> bool) list" where
  "members_of db a = map snd (filter (\<lambda>(b, _). b = a) (lg_members db))"

definition require_agreement :: "ledger \<Rightarrow> auth_user \<Rightarrow> string \<Rightarrow> Access.status + unit" where
  "require_agreement db u a =
     (if map_of (lg_agreements db) a = None \<or> members_of db a = [] then Inl 404
      else require (list_ex (\<lambda>(p, _). can_access_partner u p \<and> tenant_allowed u (agreement_company a db)) (members_of db a)) 403)"

section \<open>Clause 22\<close>

record clause22_entry =
  ce_category :: string
  ce_name :: string
  ce_count :: nat
  ce_amount :: amount

record clause22_basis =
  cb_agreement :: string
  cb_number :: string
  cb_partner :: string
  cb_records :: "clause22_entry list"

definition clause22_alternative_satisfied :: "bool \<Rightarrow> bool \<Rightarrow> bool" where
  "clause22_alternative_satisfied teachers programs = (teachers \<and> programs)"

definition mandatory_activities :: "string list" where
  "mandatory_activities = [''teachers'', ''ood_rpd'']"

definition positive_entries :: "ledger \<Rightarrow> report_key \<Rightarrow> string \<Rightarrow> entry list" where
  "positive_entries db key category =
     filter (\<lambda>e. context_of e = key \<and> en_category e = category \<and> 0 < en_amount e) (map snd (lg_entries db))"

definition category_name :: "ledger \<Rightarrow> string \<Rightarrow> string" where
  "category_name db c = (case map_of (lg_categories db) c of None \<Rightarrow> [] | Some row \<Rightarrow> cg_name row)"

definition record_of :: "ledger \<Rightarrow> report_key \<Rightarrow> string \<Rightarrow> clause22_entry" where
  "record_of db key c = \<lparr>ce_category = c, ce_name = category_name db c, ce_count = length (positive_entries db key c),
     ce_amount = sum_list (map en_amount (positive_entries db key c))\<rparr>"

text \<open>\<open>clause22Records\<close>: a sum that does not fit an amount fails when it is read.\<close>

definition clause22_records :: "ledger \<Rightarrow> report_key \<Rightarrow> Access.status + (clause22_entry list \<times> bool \<times> bool)" where
  "clause22_records db key =
     (let codes = filter (\<lambda>c. positive_entries db key c \<noteq> []) mandatory_activities;
          rows = sort_key ce_name (map (record_of db key) codes)
      in if list_ex (\<lambda>r. ce_amount r > max_int64) rows then Inl 500
         else Inr (rows, ''teachers'' \<in> set codes, ''ood_rpd'' \<in> set codes))"

fun first_basis :: "ledger \<Rightarrow> int \<times> string \<Rightarrow> (string \<times> string \<times> string) list \<Rightarrow> Access.status + clause22_basis option" where
  "first_basis db yp [] = Inr None"
| "first_basis db yp ((a, number, partner) # rest) =
     rbind (clause22_records db (a, yp)) (\<lambda>(rows, teachers, programs).
       if clause22_alternative_satisfied teachers programs
       then Inr (Some \<lparr>cb_agreement = a, cb_number = number, cb_partner = partner, cb_records = rows\<rparr>)
       else first_basis db yp rest)"

definition top_it_alternative_basis :: "ledger \<Rightarrow> report_key \<Rightarrow> Access.status + clause22_basis option" where
  "top_it_alternative_basis db key =
     first_basis db (snd key) (sort_key (\<lambda>(_, number, partner). (partner, number)) (remdups (clause22_candidates db key)))"

section \<open>The state of a report\<close>

datatype missing =
    MissingCheck string
  | MissingActivity string
  | ScopeUnconfirmed
  | ConditionsUnconfirmed
  | EvidenceUnconfirmed
  | CounterpartyAwaited

record workflow =
  wk_report :: report
  wk_uses_actual :: bool
  wk_activities :: "(string \<times> string \<times> bool) list"
  wk_checks :: "(string \<times> bool) list"
  wk_missing :: "missing list"
  wk_higher :: bool
  wk_basis :: "clause22_basis option"
  wk_can_ready :: bool
  wk_can_verify :: bool
  wk_can_approve :: bool
  wk_can_draft :: bool
  wk_due :: "(int \<times> string \<times> instant \<times> bool) option"

definition no_report :: report where
  "no_report = \<lparr>rp_status = ''draft'', rp_scope = False, rp_conditions = False, rp_evidence = False,
     rp_counterparty = False, rp_costs = False, rp_auditor = [], rp_comment = [], rp_ready = None, rp_verified = None,
     rp_approved = None, rp_updated = None\<rparr>"

definition review_days :: "string \<Rightarrow> int" where
  "review_days period = (if period = ''fact'' then 20 else 10)"

definition review_due :: "report \<Rightarrow> string \<Rightarrow> instant \<Rightarrow> (int \<times> string \<times> instant \<times> bool) option" where
  "review_due r period now = (case rp_ready r of None \<Rightarrow> None | Some (_, since) \<Rightarrow>
     (case calendar_deadline since (review_days period) of (day, expires) \<Rightarrow>
       Some (review_days period, day, expires, rp_status r = ''ready'' \<and> deadline_expired expires now)))"

definition has_higher_education :: "ledger \<Rightarrow> string \<Rightarrow> bool" where
  "has_higher_education db a =
     list_ex (\<lambda>(p, _). case map_of (lg_partners db) p of None \<Rightarrow> False | Some row \<Rightarrow> pt_kind row = ''vuz'') (members_of db a)"

definition required_activities :: "ledger \<Rightarrow> report_key \<Rightarrow> (string \<times> string \<times> bool) list" where
  "required_activities db key = map (\<lambda>(c, row). (c, cg_name row, covered db key c))
     (sort_key (\<lambda>(_, row). cg_name row) (filter (\<lambda>(c, _). (fst key, c) \<in> set (lg_scope db)
        \<or> has_higher_education db (fst key) \<and> c \<in> set mandatory_activities) (lg_categories db)))"

definition uses_actual_costs :: "ledger \<Rightarrow> report_key \<Rightarrow> bool" where
  "uses_actual_costs db key = list_ex (\<lambda>(_, e). context_of e = key \<and> en_method e = ''actual'') (lg_entries db)"

definition agreement_valid :: "ledger \<Rightarrow> agreement \<Rightarrow> int \<Rightarrow> bool" where
  "agreement_valid db x year = (am_status x = ''active'' \<and> in_year x year \<and> (am_kind x \<noteq> ''roiv'' \<or> authority_active db x))"

definition entry_ready :: "ledger \<Rightarrow> instant \<Rightarrow> string \<times> entry \<Rightarrow> bool" where
  "entry_ready db now x = (case x of (i, e) \<Rightarrow>
     rd_eligible (evaluate (en_category e) (en_period e) (en_payload e) (entry_documents i now (lg_evidence db))))"

definition context_entries :: "ledger \<Rightarrow> report_key \<Rightarrow> (string \<times> entry) list" where
  "context_entries db key = filter (\<lambda>(_, e). context_of e = key) (lg_entries db)"

text \<open>The activities of the agreement, whether they suffice, and the basis of the exemption.\<close>

definition check_activities ::
  "ledger \<Rightarrow> report_key \<Rightarrow> agreement \<Rightarrow> Access.status + (bool \<times> clause22_basis option)" where
  "check_activities db key x =
     (let activities = required_activities db key; whole = (activities \<noteq> [] \<and> list_all (\<lambda>(_, _, done). done) activities)
      in if \<not> whole \<and> am_kind x = ''education_organization'' \<and> list_ex (\<lambda>(c, _, done). c = ''top_it'' \<and> done) activities
         then rbind (top_it_alternative_basis db key) (\<lambda>basis. Inr (basis \<noteq> None, basis))
         else Inr (whole, None))"

definition automatic_checks :: "ledger \<Rightarrow> report_key \<Rightarrow> agreement \<Rightarrow> report \<Rightarrow> bool \<Rightarrow> instant \<Rightarrow> (string \<times> bool) list" where
  "automatic_checks db key x r activities_done now = (case key of (a, year, period) \<Rightarrow>
     [(''agreement'', agreement_valid db x year),
      (''responsible_people'', has_party db a ''cyberprotect'' \<and> has_party db a ''counterparty''),
      (''activity_scope'', required_activities db key \<noteq> []),
      (''activities'', activities_done)]
     @ (if period = ''fact''
        then [(''entry_readiness'', context_entries db key \<noteq> [] \<and> list_all (entry_ready db now) (context_entries db key)),
              (''actual_costs'', \<not> uses_actual_costs db key \<or> trim_space (rp_auditor r) \<noteq> [] \<and> rp_costs r)]
        else []))"

definition missing_items :: "report_key \<Rightarrow> report \<Rightarrow> (string \<times> string \<times> bool) list \<Rightarrow> bool \<Rightarrow> (string \<times> bool) list \<Rightarrow> missing list" where
  "missing_items key r activities activities_done checks =
     map (\<lambda>(c, _). MissingCheck c) (filter (\<lambda>(_, done). \<not> done) checks)
     @ (if activities_done then [] else map (\<lambda>(_, name, _). MissingActivity name) (filter (\<lambda>(_, _, done). \<not> done) activities))
     @ (if rp_scope r then [] else [ScopeUnconfirmed])
     @ (if rp_conditions r then [] else [ConditionsUnconfirmed])
     @ (if rp_evidence r then [] else [EvidenceUnconfirmed])
     @ (if snd (snd key) = ''fact'' \<and> rp_status r \<noteq> ''draft'' \<and> \<not> rp_counterparty r then [CounterpartyAwaited] else [])"

definition reviewer_allowed :: "ledger \<Rightarrow> auth_user \<Rightarrow> report_key \<Rightarrow> bool" where
  "reviewer_allowed db u key = (case key of (a, _, period) \<Rightarrow>
     can_review_report u period
     \<and> (period = ''fact'' \<and> is_education_representative u \<longrightarrow> length (members_of db a) = 1))"

definition build_workflow :: "ledger \<Rightarrow> auth_user \<Rightarrow> report_key \<Rightarrow> instant \<Rightarrow> Access.status + workflow" where
  "build_workflow db u key now = (case map_of (lg_agreements db) (fst key) of
     None \<Rightarrow> Inl 500
   | Some x \<Rightarrow>
       let r = (case report_of db key of None \<Rightarrow> no_report | Some r \<Rightarrow> r); period = snd (snd key);
           activities = required_activities db key
       in rbind (check_activities db key x) (\<lambda>(activities_done, basis).
         let checks = automatic_checks db key x r activities_done now;
             manual = (rp_scope r \<and> rp_conditions r \<and> rp_evidence r)
         in Inr \<lparr>wk_report = r, wk_uses_actual = uses_actual_costs db key, wk_activities = activities, wk_checks = checks,
              wk_missing = missing_items key r activities activities_done checks, wk_higher = has_higher_education db (fst key),
              wk_basis = basis,
              wk_can_ready = (rp_status r = ''draft'' \<and> list_all snd checks \<and> manual \<and> can_prepare_reports u),
              wk_can_verify = (rp_status r = ''ready'' \<and> reviewer_allowed db u key),
              wk_can_approve = (rp_status r = ''verified'' \<and> can_approve_reports u),
              wk_can_draft = (rp_status r \<noteq> ''draft'' \<and> (can_prepare_reports u
                \<or> period = ''fact'' \<and> rp_status r = ''ready'' \<and> reviewer_allowed db u key \<and> is_education_representative u)),
              wk_due = review_due r period now\<rparr>))"

definition get_workflow :: "ledger \<Rightarrow> auth_user \<Rightarrow> report_key \<Rightarrow> instant \<Rightarrow> Access.status + workflow" where
  "get_workflow db u key now =
     (if \<not> report_context_ok key then Inl 400
      else rbind (require_agreement db u (fst key)) (\<lambda>_. build_workflow db u key now))"

section \<open>Tasks that follow a report\<close>

definition report_subject :: "report_key \<Rightarrow> string" where
  "report_subject key = (case key of (a, year, period) \<Rightarrow> a @ '':'' @ show_int year @ '':'' @ period)"

definition period_label :: "string \<Rightarrow> string" where
  "period_label period = (if period = ''plan'' then utf8 [1087, 1083, 1072, 1085]
     else if period = ''fact'' then utf8 [1092, 1072, 1082, 1090] else [])"

definition report_label :: "string \<Rightarrow> report_key \<Rightarrow> string" where
  "report_label number key = (case key of (_, year, period) \<Rightarrow>
     utf8 [1087, 1086, 32, 1089, 1086, 1075, 1083, 1072, 1096, 1077, 1085, 1080, 1102, 32, 8470, 32] @ number @ '' ('' @
     period_label period @ '' '' @ show_int year @ '')'')"

definition verify_title :: string where
  "verify_title = utf8 [1055, 1088, 1086, 1074, 1077, 1088, 1080, 1090, 1100, 32, 1086, 1090, 1095, 1105, 1090, 32]"

definition approve_title :: string where
  "approve_title = utf8 [1059, 1090, 1074, 1077, 1088, 1076, 1080, 1090, 1100, 32, 1086, 1090, 1095, 1105, 1090, 32]"

definition report_verify :: string where "report_verify = ''report_verify''"
definition report_approve :: string where "report_approve = ''report_approve''"
definition report_subject_type :: string where "report_subject_type = ''agreement_report''"

text \<open>The partner of a task: the primary one first, then by identifier.\<close>

definition task_partner :: "ledger \<Rightarrow> string \<Rightarrow> string" where
  "task_partner db a = (case sort_key (\<lambda>(p, primary). (\<not> primary, p)) (members_of db a) of [] \<Rightarrow> [] | (p, _) # _ \<Rightarrow> p)"

definition close_report_task :: "string \<Rightarrow> string \<Rightarrow> string \<Rightarrow> report_key \<Rightarrow> instant \<Rightarrow> ledger \<Rightarrow> Access.status + ledger" where
  "close_report_task kind result who key now db =
     (case close_by_subject kind report_subject_type (report_subject key) result who now (lg_tasks db) of
        Inl _ \<Rightarrow> Inl 500 | Inr (_, t) \<Rightarrow> Inr (db\<lparr>lg_tasks := t\<rparr>))"

definition next_task :: "ledger \<Rightarrow> string \<Rightarrow> report_key \<Rightarrow> string \<Rightarrow> agreement \<Rightarrow> string \<Rightarrow> new_task" where
  "next_task db who key state x company =
     (let verify = (state = ''ready'') in
      \<lparr>nt_tenant = company, nt_partner = task_partner db (fst key),
       nt_kind = (if verify then report_verify else report_approve),
       nt_title = (if verify then verify_title else approve_title) @ report_label (am_number x) key,
       nt_subject_type = report_subject_type, nt_subject = report_subject key,
       nt_role = (if verify then ''curator'' else ''org_admin''),
       nt_permission = (if verify then prepare_reports else approve_reports), nt_created_by = who\<rparr>)"

definition audit_ledger :: "request \<Rightarrow> string \<Rightarrow> string \<Rightarrow> string \<Rightarrow> string \<Rightarrow> string \<Rightarrow> ledger \<Rightarrow> Access.status + ledger" where
  "audit_ledger rq entity_type i act user comment db =
     rbind (log_audit rq entity_type i act user comment (lg_evidence db)) (\<lambda>ev. Inr (db\<lparr>lg_evidence := ev\<rparr>))"

definition open_report_task :: "request \<Rightarrow> string \<Rightarrow> report_key \<Rightarrow> string \<Rightarrow> string \<Rightarrow> ledger \<Rightarrow> Access.status + ledger" where
  "open_report_task rq who key state fresh db = (case map_of (lg_agreements db) (fst key) of
     None \<Rightarrow> Inl 500
   | Some x \<Rightarrow> (case am_company x of
       None \<Rightarrow> Inr db
     | Some company \<Rightarrow>
         (case dispatch (next_task db who key state x company) fresh (rq_now rq) (lg_tasks db) of
            Inl _ \<Rightarrow> Inl 500
          | Inr (_, False, _) \<Rightarrow> Inr db
          | Inr (i, True, t) \<Rightarrow>
              audit_ledger rq ''workflow_task'' i ''create'' who
                (case map_of (td_tasks t) i of None \<Rightarrow> [] | Some row \<Rightarrow> tk_reason row) (db\<lparr>lg_tasks := t\<rparr>))))"

definition sync_report_tasks :: "request \<Rightarrow> string \<Rightarrow> report_key \<Rightarrow> string \<Rightarrow> string \<Rightarrow> ledger \<Rightarrow> Access.status + ledger" where
  "sync_report_tasks rq who key state fresh db =
     (if state = ''verified''
      then rbind (close_report_task report_verify done_status who key (rq_now rq) db) (open_report_task rq who key state fresh)
      else if state = ''approved''
      then rbind (close_report_task report_verify done_status who key (rq_now rq) db)
                 (close_report_task report_approve done_status who key (rq_now rq))
      else if state = ''draft''
      then rbind (close_report_task report_verify cancelled_status who key (rq_now rq) db)
                 (close_report_task report_approve cancelled_status who key (rq_now rq))
      else if state = ''ready'' then open_report_task rq who key state fresh db
      else Inr db)"

section \<open>Moving a report\<close>

record transition_request =
  tr_status :: string
  tr_scope :: bool
  tr_conditions :: bool
  tr_evidence :: bool
  tr_costs :: bool
  tr_auditor :: string
  tr_comment :: string

definition transition_allowed :: "auth_user \<Rightarrow> string \<Rightarrow> string \<Rightarrow> string \<Rightarrow> bool" where
  "transition_allowed u period current target =
     (if target = ''ready'' then current = ''draft'' \<and> can_prepare_reports u
      else if target = ''verified'' then current = ''ready'' \<and> can_review_report u period
      else if target = ''approved'' then current = ''verified'' \<and> can_approve_reports u
      else if target = ''draft'' then current \<noteq> ''draft'' \<and> (can_prepare_reports u
        \<or> period = ''fact'' \<and> current = ''ready'' \<and> is_education_representative u)
      else False)"

definition known_ledger_user :: "ledger \<Rightarrow> string \<Rightarrow> bool" where
  "known_ledger_user db who = (who \<in> set (map fst (ev_users (lg_evidence db))))"

definition put_report :: "report_key \<Rightarrow> report \<Rightarrow> ledger \<Rightarrow> Access.status + ledger" where
  "put_report key r db =
     (if (case rp_updated r of None \<Rightarrow> True | Some who \<Rightarrow> known_ledger_user db who)
      then Inr (db\<lparr>lg_reports := AList.update key r (lg_reports db)\<rparr>) else Inl 500)"

definition ensure_report :: "string \<Rightarrow> report_key \<Rightarrow> ledger \<Rightarrow> Access.status + ledger" where
  "ensure_report who key db = (if report_of db key \<noteq> None then Inr db else put_report key (draft_report who) db)"

text \<open>The row after the step, and the checks that come before it; each checks again what it rests on.\<close>

definition stamped :: "string \<Rightarrow> string \<Rightarrow> string \<Rightarrow> instant \<Rightarrow> report \<Rightarrow> report" where
  "stamped target comment who now r =
     (let r' = r\<lparr>rp_status := target, rp_comment := comment, rp_updated := Some who\<rparr> in
      if target = ''ready'' then r'\<lparr>rp_ready := Some (who, now), rp_verified := None, rp_approved := None\<rparr>
      else if target = ''verified'' then r'\<lparr>rp_verified := Some (who, now), rp_approved := None\<rparr>
      else if target = ''approved'' then r'\<lparr>rp_approved := Some (who, now)\<rparr>
      else if target = ''draft'' then r'\<lparr>rp_scope := False, rp_conditions := False, rp_evidence := False, rp_costs := False,
        rp_auditor := [], rp_counterparty := False, rp_ready := None, rp_verified := None, rp_approved := None\<rparr>
      else r')"

definition confirm_request :: "transition_request \<Rightarrow> string \<Rightarrow> report \<Rightarrow> report" where
  "confirm_request t who r = r\<lparr>rp_scope := tr_scope t, rp_conditions := tr_conditions t, rp_evidence := tr_evidence t,
     rp_costs := tr_costs t, rp_auditor := trim_space (tr_auditor t), rp_counterparty := False,
     rp_comment := trim_space (tr_comment t), rp_updated := Some who\<rparr>"

definition manual_ok :: "report_key \<Rightarrow> workflow \<Rightarrow> bool" where
  "manual_ok key w = (let r = wk_report w in rp_scope r \<and> rp_conditions r \<and> rp_evidence r
     \<and> (\<not> wk_uses_actual w \<or> rp_costs r \<and> rp_auditor r \<noteq> []) \<and> (snd (snd key) = ''plan'' \<or> rp_counterparty r))"

definition check_step ::
  "auth_user \<Rightarrow> report_key \<Rightarrow> transition_request \<Rightarrow> report \<Rightarrow> instant \<Rightarrow> ledger \<Rightarrow> Access.status + ledger" where
  "check_step u key t r now db =
     (if tr_status t = ''ready''
      then rbind (put_report key (confirm_request t (au_id u) r) db) (\<lambda>db1.
           rbind (build_workflow db1 u key now) (\<lambda>w. if wk_can_ready w then Inr db1 else Inl 422))
      else if tr_status t = ''draft'' then Inr db
      else rbind (if tr_status t = ''verified'' \<and> snd (snd key) = ''fact''
                  then put_report key (r\<lparr>rp_counterparty := True, rp_updated := Some (au_id u)\<rparr>) db else Inr db) (\<lambda>db1.
           rbind (build_workflow db1 u key now) (\<lambda>w.
             if wk_missing w \<noteq> [] \<or> \<not> manual_ok key w then Inl 422 else Inr db1)))"

definition transition ::
  "request \<Rightarrow> auth_user \<Rightarrow> report_key \<Rightarrow> transition_request \<Rightarrow> string \<Rightarrow> ledger \<Rightarrow> Access.status + ledger" where
  "transition rq u key t fresh db =
     (if \<not> report_context_ok key then Inl 400
      else rbind (require_agreement db u (fst key)) (\<lambda>_.
      let comment = trim_space (tr_comment t); who = au_id u; now = rq_now rq in
      if rune_count comment > 1000 then Inl 400
      else if rune_count (trim_space (tr_auditor t)) > 1000 then Inl 400
      else if comment = [] then Inl 400
      else if tr_status t \<notin> {''draft'', ''ready'', ''verified'', ''approved''} then Inl 400
      else if is_education_representative u \<and> length (members_of db (fst key)) \<noteq> 1 then Inl 403
      else rbind (ensure_report who key db) (\<lambda>db1.
      case report_of db1 key of
        None \<Rightarrow> Inl 500
      | Some r \<Rightarrow>
          if \<not> transition_allowed u (snd (snd key)) (rp_status r) (tr_status t) then Inl 409
          else rbind (check_step u key t r now db1) (\<lambda>db2.
          case report_of db2 key of
            None \<Rightarrow> Inl 500
          | Some r2 \<Rightarrow>
              rbind (put_report key (stamped (tr_status t) comment who now r2) db2) (\<lambda>db3.
              rbind (audit_ledger rq ''report'' (fst key) ''status'' who comment
                (db3\<lparr>lg_history := lg_history db3 @ [\<lparr>re_key = key, re_from = rp_status r, re_to = tr_status t,
                   re_comment = comment, re_by = who, re_at = now\<rparr>]\<rparr>))
                (sync_report_tasks rq who key (tr_status t) fresh))))))"

section \<open>Commands\<close>

datatype ledger_command =
    Transition request auth_user report_key transition_request string
  | StoreEntry string entry instant
  | ChangeAgreement string agreement "(string \<times> bool) list" "string list"
  | ChangeScope string "string list" "string option" instant
  | ChangeAuthority string string string instant
  | Evidence evidence_command

definition ledger_step :: "store_env \<Rightarrow> ledger_command \<Rightarrow> ledger \<Rightarrow> Access.status + ledger" where
  "ledger_step env c db = (case c of
     Transition rq u key t fresh \<Rightarrow> transition rq u key t fresh db
   | StoreEntry i e now \<Rightarrow> store_entry i e now db
   | ChangeAgreement a row members people \<Rightarrow> Inr (change_agreement a row members people db)
   | ChangeScope a codes actor now \<Rightarrow> change_scope a codes actor now db
   | ChangeAuthority i state who now \<Rightarrow> Inr (change_authority i state who now db)
   | Evidence c \<Rightarrow> rbind (evidence_step env c (lg_evidence db)) (\<lambda>ev. Inr (db\<lparr>lg_evidence := ev\<rparr>)))"

end
