(* ===== verification/ReportLaws.thy ===== *)
theory ReportLaws
  imports ReportWorkflow DocumentLaws
begin

text \<open>
  What every command keeps of the reports: their rows and their history agree, and any change of what
  a report rests on leaves the report alone or returns it to a blank draft.
\<close>

section \<open>Rows and trails\<close>

definition blank :: "report \<Rightarrow> bool" where
  "blank r = (rp_status r = ''draft'' \<and> \<not> rp_scope r \<and> \<not> rp_conditions r \<and> \<not> rp_evidence r \<and> \<not> rp_counterparty r
     \<and> rp_ready r = None \<and> rp_verified r = None \<and> rp_approved r = None)"

definition confirmed :: "report \<Rightarrow> bool" where
  "confirmed r = (rp_scope r \<and> rp_conditions r \<and> rp_evidence r)"

definition kept_report :: "report \<Rightarrow> report \<Rightarrow> bool" where
  "kept_report a b = (rp_status b = rp_status a \<and> rp_scope b = rp_scope a \<and> rp_conditions b = rp_conditions a
     \<and> rp_evidence b = rp_evidence a \<and> rp_counterparty b = rp_counterparty a \<and> rp_ready b = rp_ready a
     \<and> rp_verified b = rp_verified a \<and> rp_approved b = rp_approved a)"

definition trail_of :: "report_event list \<Rightarrow> report_key \<Rightarrow> report_event list" where
  "trail_of h key = filter (\<lambda>e. re_key e = key) h"

definition step_event :: "string \<Rightarrow> string \<Rightarrow> stamp \<Rightarrow> report_event \<Rightarrow> bool" where
  "step_event src dst s e = (re_from e = src \<and> re_to e = dst \<and> s = Some (re_by e, re_at e))"

text \<open>The steps that the last events of a report must show, by its status.\<close>

definition path_of :: "report \<Rightarrow> (report_event \<Rightarrow> bool) list" where
  "path_of r =
     (let r1 = step_event ''draft'' ''ready'' (rp_ready r); r2 = step_event ''ready'' ''verified'' (rp_verified r);
          r3 = step_event ''verified'' ''approved'' (rp_approved r)
      in if rp_status r = ''ready'' then [r1] else if rp_status r = ''verified'' then [r1, r2]
         else if rp_status r = ''approved'' then [r1, r2, r3] else [])"

definition follows :: "(report_event \<Rightarrow> bool) list \<Rightarrow> report_event list \<Rightarrow> bool" where
  "follows ps h = (\<exists>pre es. h = pre @ es \<and> list_all2 (\<lambda>p e. p e) ps es)"

definition report_row_ok :: "report_key \<Rightarrow> report \<Rightarrow> bool" where
  "report_row_ok key r =
     (blank r
      \<or> rp_status r = ''ready'' \<and> confirmed r \<and> rp_verified r = None \<and> rp_approved r = None
      \<or> rp_status r = ''verified'' \<and> confirmed r \<and> (snd (snd key) = ''fact'' \<longrightarrow> rp_counterparty r) \<and> rp_approved r = None
      \<or> rp_status r = ''approved'' \<and> confirmed r \<and> (snd (snd key) = ''fact'' \<longrightarrow> rp_counterparty r))"

definition report_ok :: "ledger \<Rightarrow> report_key \<Rightarrow> bool" where
  "report_ok db key = (case report_of db key of None \<Rightarrow> True
     | Some r \<Rightarrow> report_row_ok key r \<and> follows (path_of r) (trail_of (lg_history db) key))"

section \<open>Resets\<close>

text \<open>A command other than a step of the report itself.\<close>

definition report_kept_or_reset :: "ledger \<Rightarrow> ledger \<Rightarrow> report_key \<Rightarrow> bool" where
  "report_kept_or_reset db db' key = (case report_of db key of
     None \<Rightarrow> report_of db' key = None
   | Some r \<Rightarrow> (\<exists>r'. report_of db' key = Some r' \<and>
       (blank r' \<or> kept_report r r' \<and> trail_of (lg_history db') key = trail_of (lg_history db) key)))"

lemma kept_path: "kept_report a b \<Longrightarrow> path_of b = path_of a \<and> report_row_ok key b = report_row_ok key a"
  by (simp add: kept_report_def path_of_def report_row_ok_def blank_def confirmed_def Let_def)

lemma follows_Nil [simp]: "follows [] h"
  by (auto simp: follows_def)

lemma blank_ok: "blank r \<Longrightarrow> report_row_ok key r \<and> path_of r = []"
  by (simp add: report_row_ok_def path_of_def blank_def)

lemma reset_keeps_ok: "report_kept_or_reset db db' key \<Longrightarrow> report_ok db key \<Longrightarrow> report_ok db' key"
  by (auto simp: report_kept_or_reset_def report_ok_def kept_path blank_ok split: option.splits)

lemma kept_reset_refl: "report_of db' = report_of db \<Longrightarrow> lg_history db' = lg_history db \<Longrightarrow> report_kept_or_reset db db' key"
  by (auto simp: report_kept_or_reset_def kept_report_def split: option.splits)

lemma kept_reset_trans:
  assumes "report_kept_or_reset a b key" "report_kept_or_reset b c key"
  shows "report_kept_or_reset a c key"
proof (cases "report_of a key")
  case None
  then show ?thesis using assms by (simp add: report_kept_or_reset_def)
next
  case (Some r)
  then obtain s where s: "report_of b key = Some s"
    "blank s \<or> kept_report r s \<and> trail_of (lg_history b) key = trail_of (lg_history a) key"
    using assms(1) by (auto simp: report_kept_or_reset_def)
  then obtain t where t: "report_of c key = Some t"
    "blank t \<or> kept_report s t \<and> trail_of (lg_history c) key = trail_of (lg_history b) key"
    using assms(2) by (auto simp: report_kept_or_reset_def)
  have "blank s \<Longrightarrow> kept_report s t \<Longrightarrow> blank t" by (simp add: blank_def kept_report_def)
  moreover have "kept_report r s \<Longrightarrow> kept_report s t \<Longrightarrow> kept_report r t" by (simp add: kept_report_def)
  ultimately have "blank t \<or> kept_report r t \<and> trail_of (lg_history c) key = trail_of (lg_history a) key"
    using s(2) t(2) by metis
  then show ?thesis using Some t(1) by (simp add: report_kept_or_reset_def)
qed

lemma map_of_map_key: "map_of (map (\<lambda>(k, r). (k, f k r)) xs) key = map_option (f key) (map_of xs key)"
  by (induction xs) auto

lemma report_of_map: "lg_reports db' = map (\<lambda>(k, r). (k, f k r)) (lg_reports db) \<Longrightarrow> report_of db' key = map_option (f key) (report_of db key)"
  by (simp add: report_of_def map_of_map_key)

lemma reset_blank: "blank (reset_report r)" "blank (reset_report r\<lparr>rp_updated := w\<rparr>)"
  by (simp_all add: blank_def reset_report_def)

text \<open>
  The general form of the triggers: some reports that are not drafts are reset, and every new event is
  about one of them.
\<close>

lemma reset_general:
  assumes "lg_reports db' = map (\<lambda>(k, r). (k, if not_draft P (k, r) then f r else r)) (lg_reports db)"
    and "lg_history db' = lg_history db @ es" "\<And>r. blank (f r)"
    and "\<And>e. e \<in> set es \<Longrightarrow> \<exists>r. (re_key e, r) \<in> set (lg_reports db) \<and> not_draft P (re_key e, r)" "distinct (map fst (lg_reports db))"
  shows "report_kept_or_reset db db' key"
proof (cases "report_of db key")
  case None
  then show ?thesis using report_of_map [OF assms(1)] by (simp add: report_kept_or_reset_def)
next
  case (Some r)
  show ?thesis
  proof (cases "not_draft P (key, r)")
    case True
    then show ?thesis using report_of_map [OF assms(1), of key] Some assms(3) by (simp add: report_kept_or_reset_def)
  next
    case False
    have "re_key e \<noteq> key" if "e \<in> set es" for e
    proof
      assume "re_key e = key"
      with assms(4) [OF that] obtain s where "(key, s) \<in> set (lg_reports db)" "not_draft P (key, s)" by blast
      moreover have "s = r" using Some \<open>(key, s) \<in> set (lg_reports db)\<close> assms(5)
        by (metis map_of_eq_Some_iff option.inject report_of_def)
      ultimately show False using False by simp
    qed
    then have "trail_of (lg_history db') key = trail_of (lg_history db) key" by (auto simp: assms(2) trail_of_def filter_empty_conv)
    then show ?thesis using report_of_map [OF assms(1), of key] Some False
      by (simp add: report_kept_or_reset_def kept_report_def)
  qed
qed

lemma reset_logged_kept:
  assumes "distinct (map fst (lg_reports db))"
  shows "report_kept_or_reset db (reset_logged P comment who now db) key"
  by (rule reset_general [where P = P and f = reset_report and es = "map (reset_event comment who now) (filter (not_draft P) (lg_reports db))"])
    (use assms in \<open>auto simp: reset_logged_def reset_rows_def reset_blank reset_event_def\<close>)

lemma reset_rows_kept:
  assumes "distinct (map fst (lg_reports db))"
  shows "report_kept_or_reset db (reset_rows P db) key"
  by (rule reset_general [where P = P and f = reset_report and es = "[]"]) (use assms in \<open>auto simp: reset_rows_def reset_blank\<close>)

lemma reset_auditor_kept: "report_kept_or_reset db (reset_auditor k db) key"
  using report_of_map [of "reset_auditor k db" "\<lambda>j r. if j = k then r\<lparr>rp_costs := False, rp_auditor := []\<rparr> else r" db key]
  by (auto simp: report_kept_or_reset_def reset_auditor_def kept_report_def split: option.splits)

lemma reset_keys [simp]:
  "map fst (lg_reports (reset_logged P comment who now db)) = map fst (lg_reports db)"
  "map fst (lg_reports (reset_rows P db)) = map fst (lg_reports db)"
  "map fst (lg_reports (reset_auditor k db)) = map fst (lg_reports db)"
  by (simp_all add: reset_logged_def reset_rows_def reset_auditor_def case_prod_beta)

lemma entry_triggers_keys [simp]: "map fst (lg_reports (entry_triggers old new now db)) = map fst (lg_reports db)"
  by (simp add: entry_triggers_def reset_on_entry_change_def reset_auditor_on_entry_change_def Let_def split: option.splits)

lemma two_resets_kept:
  assumes "distinct (map fst (lg_reports db))"
  shows "report_kept_or_reset db (reset_logged Q c2 who2 now (reset_logged P c who now db)) key"
  by (rule kept_reset_trans [OF reset_logged_kept reset_logged_kept]) (simp_all add: assms)

lemma reset_on_entry_change_kept:
  "distinct (map fst (lg_reports db)) \<Longrightarrow> report_kept_or_reset db (reset_on_entry_change old new now db) key"
  by (simp add: reset_on_entry_change_def Let_def reset_logged_kept two_resets_kept kept_reset_refl split: option.split)

lemma entry_triggers_kept:
  assumes "distinct (map fst (lg_reports db))"
  shows "report_kept_or_reset db (entry_triggers old new now db) key"
proof -
  let ?db = "reset_auditor_on_entry_change old new db"
  have "report_kept_or_reset db ?db key"
    using reset_auditor_kept kept_reset_refl by (simp add: reset_auditor_on_entry_change_def split: option.splits)
  moreover have "distinct (map fst (lg_reports ?db))" using assms by (simp add: reset_auditor_on_entry_change_def split: option.splits)
  ultimately show ?thesis using kept_reset_trans reset_on_entry_change_kept by (simp add: entry_triggers_def)
qed

lemma entry_triggers_tables:
  "lg_entries (entry_triggers old new now db) = lg_entries db" "lg_evidence (entry_triggers old new now db) = lg_evidence db"
  "lg_scope (entry_triggers old new now db) = lg_scope db" "lg_categories (entry_triggers old new now db) = lg_categories db"
  by (simp_all add: entry_triggers_def reset_on_entry_change_def reset_auditor_on_entry_change_def reset_logged_def reset_rows_def
      reset_auditor_def Let_def split: option.splits)

lemma store_entry_frame:
  assumes "store_entry i e now db = Inr db'"
  shows "db' = entry_triggers (map_of (lg_entries db) i) (Some e) now
      (db\<lparr>lg_entries := AList.update i e (lg_entries db), lg_evidence := index_entry i e (lg_evidence db)\<rparr>)"
    "entry_row_checks e" "entry_keys e db"
  using assms by (auto simp: store_entry_def split: if_splits)

lemma change_scope_cases:
  assumes "change_scope a codes actor now db = Inr db'"
  shows "set codes \<subseteq> set (map fst (lg_categories db))"
    "lg_scope db' = filter (\<lambda>(b, _). b \<noteq> a) (lg_scope db) @ map (Pair a) codes"
    "lg_categories db' = lg_categories db" "lg_entries db' = lg_entries db" "lg_evidence db' = lg_evidence db"
    "map fst (lg_reports db') = map fst (lg_reports db)"
  using assms by (auto simp: change_scope_def Let_def split: if_splits)

lemma scope_event_key: "e \<in> set (scope_event actor now x) \<Longrightarrow> re_key e = fst x"
  by (cases x) (auto simp: scope_event_def reset_event_def split: option.splits)

lemma change_scope_kept:
  assumes "change_scope a codes actor now db = Inr db'" "distinct (map fst (lg_reports db))"
  shows "report_kept_or_reset db db' key"
proof (cases "codes = [] \<and> \<not> list_ex (\<lambda>(b, _). b = a) (lg_scope db)")
  case True
  then have "db' = db\<lparr>lg_scope := filter (\<lambda>(b, _). b \<noteq> a) (lg_scope db) @ map (Pair a) codes\<rparr>"
    using assms(1) by (simp add: change_scope_def Let_def split: if_splits)
  then show ?thesis by (intro kept_reset_refl) (simp_all add: report_of_def fun_eq_iff)
next
  case False
  let ?P = "\<lambda>(b, _). b = a"
  have rows: "lg_reports db' = map (\<lambda>(k, r). (k, if not_draft ?P (k, r) then reset_report r\<lparr>rp_updated := actor\<rparr> else r)) (lg_reports db)"
    and hist: "lg_history db' = lg_history db @ concat (map (scope_event actor now) (filter (not_draft ?P) (lg_reports db)))"
    using assms(1) False unfolding change_scope_def Let_def by (auto split: if_splits)
  show ?thesis
  proof (rule reset_general [OF rows hist])
    fix e
    assume "e \<in> set (concat (map (scope_event actor now) (filter (not_draft ?P) (lg_reports db))))"
    then obtain x where "x \<in> set (lg_reports db)" "not_draft ?P x" "e \<in> set (scope_event actor now x)" by auto
    moreover from this(3) have "re_key e = fst x" by (rule scope_event_key)
    ultimately show "\<exists>r. (re_key e, r) \<in> set (lg_reports db) \<and> not_draft ?P (re_key e, r)"
      by (intro exI [of _ "snd x"]) simp
  qed (simp_all add: reset_blank assms(2))
qed

section \<open>Steps of a report\<close>

definition same_tables :: "ledger \<Rightarrow> ledger \<Rightarrow> bool" where
  "same_tables a b = (lg_partners b = lg_partners a \<and> lg_authorities b = lg_authorities a \<and> lg_agreements b = lg_agreements a
     \<and> lg_members b = lg_members a \<and> lg_people b = lg_people a \<and> lg_scope b = lg_scope a \<and> lg_categories b = lg_categories a
     \<and> lg_entries b = lg_entries a \<and> (\<exists>j. lg_evidence b = lg_evidence a\<lparr>ev_journal := j\<rparr>))"

lemma same_tables_refl [simp]: "same_tables a a"
  by (auto simp: same_tables_def intro!: exI [of _ "ev_journal (lg_evidence a)"])

lemma same_tables_trans: "same_tables a b \<Longrightarrow> same_tables b c \<Longrightarrow> same_tables a c"
  by (auto simp: same_tables_def)

definition sets_report :: "report_key \<Rightarrow> report \<Rightarrow> ledger \<Rightarrow> ledger \<Rightarrow> bool" where
  "sets_report key r a b = (same_tables a b \<and> map_of (lg_reports b) = (map_of (lg_reports a))(key \<mapsto> r)
     \<and> lg_history b = lg_history a \<and> (distinct (map fst (lg_reports a)) \<longrightarrow> distinct (map fst (lg_reports b))))"

lemma sets_report_of: "sets_report key r a b \<Longrightarrow> report_of b k = (if k = key then Some r else report_of a k)"
  by (simp add: sets_report_def report_of_def)

lemma sets_report_trans: "sets_report key r a b \<Longrightarrow> sets_report key s b c \<Longrightarrow> sets_report key s a c"
  unfolding sets_report_def using same_tables_trans by auto

lemma put_report_sets: "put_report key r db = Inr db' \<Longrightarrow> sets_report key r db db' \<and> lg_tasks db' = lg_tasks db"
  by (auto simp: put_report_def sets_report_def update_conv distinct_update same_tables_def split: if_splits
      intro!: exI [of _ "ev_journal (lg_evidence db)"])

lemma ensure_report_sets:
  assumes "ensure_report who key db = Inr db'"
  shows "\<exists>r. sets_report key r db db' \<and> report_of db' key = Some r \<and> lg_tasks db' = lg_tasks db
    \<and> (report_of db key = Some r \<or> report_of db key = None \<and> r = draft_report who)"
proof (cases "report_of db key")
  case None
  then have "put_report key (draft_report who) db = Inr db'" using assms by (simp add: ensure_report_def)
  from put_report_sets [OF this] show ?thesis using None by (intro exI [of _ "draft_report who"]) (simp add: sets_report_of [of key "draft_report who" db db'])
next
  case (Some r)
  then have "db' = db" using assms by (simp add: ensure_report_def)
  then show ?thesis using Some by (auto simp: sets_report_def report_of_def fun_eq_iff)
qed

text \<open>Steps that touch nothing but tasks and the journal.\<close>

definition only_traces :: "ledger \<Rightarrow> ledger \<Rightarrow> bool" where
  "only_traces a b = (\<exists>t j. b = a\<lparr>lg_tasks := t, lg_evidence := (lg_evidence a)\<lparr>ev_journal := j\<rparr>\<rparr>)"

lemma only_traces_refl [simp]: "only_traces a a"
  unfolding only_traces_def by (intro exI [of _ "lg_tasks a"] exI [of _ "ev_journal (lg_evidence a)"]) simp

lemma only_traces_trans:
  assumes "only_traces a b" "only_traces b c"
  shows "only_traces a c"
proof -
  obtain t j where "b = a\<lparr>lg_tasks := t, lg_evidence := (lg_evidence a)\<lparr>ev_journal := j\<rparr>\<rparr>"
    using assms(1) unfolding only_traces_def by blast
  moreover obtain t' j' where "c = b\<lparr>lg_tasks := t', lg_evidence := (lg_evidence b)\<lparr>ev_journal := j'\<rparr>\<rparr>"
    using assms(2) unfolding only_traces_def by blast
  ultimately have "c = a\<lparr>lg_tasks := t', lg_evidence := (lg_evidence a)\<lparr>ev_journal := j'\<rparr>\<rparr>" by simp
  then show ?thesis unfolding only_traces_def by blast
qed

lemma only_traces_fields:
  "only_traces a b \<Longrightarrow> same_tables a b \<and> lg_reports b = lg_reports a \<and> lg_history b = lg_history a"
  by (auto simp: only_traces_def same_tables_def)

lemma traces_tasks: "only_traces db (db\<lparr>lg_tasks := t\<rparr>)"
  unfolding only_traces_def by (intro exI [of _ t] exI [of _ "ev_journal (lg_evidence db)"]) simp

lemma traces_evidence: "only_traces db (db\<lparr>lg_evidence := (lg_evidence db)\<lparr>ev_journal := j\<rparr>\<rparr>)"
  unfolding only_traces_def by (intro exI [of _ "lg_tasks db"] exI [of _ j]) simp

lemma audit_ledger_frame: "audit_ledger rq et i act user note db = Inr db' \<Longrightarrow> only_traces db db' \<and> lg_tasks db' = lg_tasks db"
  using traces_evidence by (auto simp: audit_ledger_def result_simps dest!: log_audit_frame)

lemma close_report_task_frame: "close_report_task kind result who key now db = Inr db' \<Longrightarrow> only_traces db db'"
  using traces_tasks by (auto simp: close_report_task_def split: sum.splits)

lemma open_report_task_frame: "open_report_task rq who key state fresh db = Inr db' \<Longrightarrow> only_traces db db'"
  using only_traces_trans [OF traces_tasks]
  by (auto simp: open_report_task_def split: option.splits sum.splits prod.splits bool.splits dest!: audit_ledger_frame)

lemma sync_frame: "sync_report_tasks rq who key state fresh db = Inr db' \<Longrightarrow> only_traces db db'"
  using only_traces_trans
  by (auto simp: sync_report_tasks_def result_simps split: if_splits dest!: close_report_task_frame open_report_task_frame)

definition checked :: "auth_user \<Rightarrow> report_key \<Rightarrow> transition_request \<Rightarrow> report \<Rightarrow> report \<Rightarrow> instant \<Rightarrow> ledger \<Rightarrow> bool" where
  "checked u key t r r2 now db2 =
     (if tr_status t = ''ready''
      then r2 = confirm_request t (au_id u) r \<and> (\<exists>w. build_workflow db2 u key now = Inr w \<and> wk_can_ready w)
      else if tr_status t = ''draft'' then r2 = r
      else r2 = (if tr_status t = ''verified'' \<and> snd (snd key) = ''fact''
            then r\<lparr>rp_counterparty := True, rp_updated := Some (au_id u)\<rparr> else r)
        \<and> (\<exists>w. build_workflow db2 u key now = Inr w \<and> wk_missing w = [] \<and> manual_ok key w))"

lemma sets_report_same: "report_of db key = Some r \<Longrightarrow> sets_report key r db db"
  by (auto simp: sets_report_def report_of_def fun_eq_iff)

lemma check_step_cases:
  assumes "check_step u key t r now db = Inr db2" "report_of db key = Some r"
  obtains r2 where "sets_report key r2 db db2" "checked u key t r r2 now db2" "lg_tasks db2 = lg_tasks db"
proof (cases "tr_status t = ''ready''")
  case True
  then have put: "put_report key (confirm_request t (au_id u) r) db = Inr db2"
    and w: "\<exists>w. build_workflow db2 u key now = Inr w \<and> wk_can_ready w"
    using assms(1) by (auto simp: check_step_def result_simps split: if_splits)
  show ?thesis
    by (rule that [of "confirm_request t (au_id u) r"]) (use put_report_sets [OF put] w True in \<open>simp_all add: checked_def\<close>)
next
  case not_ready: False
  show ?thesis
  proof (cases "tr_status t = ''draft''")
    case True
    then have "db2 = db" using assms(1) by (simp add: check_step_def)
    then show ?thesis using that [of r] sets_report_same [OF assms(2)] True by (simp add: checked_def)
  next
    case False
    then have w: "\<exists>w. build_workflow db2 u key now = Inr w \<and> wk_missing w = [] \<and> manual_ok key w"
      using assms(1) not_ready by (auto simp: check_step_def result_simps split: if_splits)
    show ?thesis
    proof (cases "tr_status t = ''verified'' \<and> snd (snd key) = ''fact''")
      case True
      let ?r = "r\<lparr>rp_counterparty := True, rp_updated := Some (au_id u)\<rparr>"
      have put: "put_report key ?r db = Inr db2"
        using assms(1) not_ready False True by (auto simp: check_step_def result_simps split: if_splits)
      show ?thesis by (rule that [of ?r]) (use put_report_sets [OF put] w True in \<open>simp_all add: checked_def\<close>)
    next
      case other: False
      have "db2 = db" using assms(1) not_ready False other by (auto simp: check_step_def result_simps split: if_splits)
      then show ?thesis
        using that [of r] sets_report_same [OF assms(2)] w not_ready False other by (simp add: checked_def)
    qed
  qed
qed

definition step_of :: "request \<Rightarrow> auth_user \<Rightarrow> report_key \<Rightarrow> transition_request \<Rightarrow> report \<Rightarrow> report_event" where
  "step_of rq u key t r = \<lparr>re_key = key, re_from = rp_status r, re_to = tr_status t, re_comment = trim_space (tr_comment t),
     re_by = au_id u, re_at = rq_now rq\<rparr>"

lemma transition_cases:
  assumes "transition rq u key t fresh db = Inr db'"
  obtains r r2 db2 db4 where "report_context_ok key" "require_agreement db u (fst key) = Inr ()"
    "is_education_representative u \<Longrightarrow> length (members_of db (fst key)) = 1"
    "report_of db key = Some r \<or> report_of db key = None \<and> r = draft_report (au_id u)"
    "transition_allowed u (snd (snd key)) (rp_status r) (tr_status t)"
    "sets_report key r2 db db2" "checked u key t r r2 (rq_now rq) db2"
    "report_of db' key = Some (stamped (tr_status t) (trim_space (tr_comment t)) (au_id u) (rq_now rq) r2)"
    "\<And>k. k \<noteq> key \<Longrightarrow> report_of db' k = report_of db k" "same_tables db db'"
    "lg_history db' = lg_history db @ [step_of rq u key t r]"
    "distinct (map fst (lg_reports db)) \<Longrightarrow> distinct (map fst (lg_reports db'))"
    "same_tables db db4" "lg_tasks db4 = lg_tasks db" "sync_report_tasks rq (au_id u) key (tr_status t) fresh db4 = Inr db'"
proof -
  have reach: "report_context_ok key" "require_agreement db u (fst key) = Inr ()"
      "is_education_representative u \<Longrightarrow> length (members_of db (fst key)) = 1"
    using assms by (auto simp: transition_def Let_def result_simps split: if_splits)
  obtain db1 where db1: "ensure_report (au_id u) key db = Inr db1"
    and rest: "(case report_of db1 key of None \<Rightarrow> Inl 500
      | Some r \<Rightarrow> if \<not> transition_allowed u (snd (snd key)) (rp_status r) (tr_status t) then Inl 409
          else rbind (check_step u key t r (rq_now rq) db1) (\<lambda>db2. case report_of db2 key of None \<Rightarrow> Inl 500
          | Some r2 \<Rightarrow> rbind (put_report key (stamped (tr_status t) (trim_space (tr_comment t)) (au_id u) (rq_now rq) r2) db2) (\<lambda>db3.
              rbind (audit_ledger rq ''report'' (fst key) ''status'' (au_id u) (trim_space (tr_comment t))
                (db3\<lparr>lg_history := lg_history db3 @ [step_of rq u key t r]\<rparr>))
                (sync_report_tasks rq (au_id u) key (tr_status t) fresh)))) = Inr db'"
    using assms by (auto simp: transition_def Let_def result_simps step_of_def split: if_splits)
  obtain r where r: "sets_report key r db db1" "report_of db1 key = Some r" "lg_tasks db1 = lg_tasks db"
      "report_of db key = Some r \<or> report_of db key = None \<and> r = draft_report (au_id u)"
    using ensure_report_sets [OF db1] by blast
  have allowed: "transition_allowed u (snd (snd key)) (rp_status r) (tr_status t)"
    using rest r(2) by (simp split: if_splits)
  obtain db2 where step: "check_step u key t r (rq_now rq) db1 = Inr db2"
    using rest r(2) allowed by (auto simp: result_simps)
  obtain r2 where r2: "sets_report key r2 db1 db2" "checked u key t r r2 (rq_now rq) db2" "lg_tasks db2 = lg_tasks db1"
    using check_step_cases [OF step r(2)] by blast
  have at2: "report_of db2 key = Some r2" using sets_report_of [OF r2(1)] by simp
  let ?r3 = "stamped (tr_status t) (trim_space (tr_comment t)) (au_id u) (rq_now rq) r2"
  obtain db3 db4 where db3: "put_report key ?r3 db2 = Inr db3"
    and db4: "audit_ledger rq ''report'' (fst key) ''status'' (au_id u) (trim_space (tr_comment t))
                (db3\<lparr>lg_history := lg_history db3 @ [step_of rq u key t r]\<rparr>) = Inr db4"
    and sync: "sync_report_tasks rq (au_id u) key (tr_status t) fresh db4 = Inr db'"
    using rest r(2) allowed step at2 by (auto simp: result_simps)
  have s3: "sets_report key ?r3 db db3" and t3: "lg_tasks db3 = lg_tasks db2"
    using put_report_sets [OF db3] sets_report_trans [OF sets_report_trans [OF r(1) r2(1)]] by auto
  let ?mid = "db3\<lparr>lg_history := lg_history db3 @ [step_of rq u key t r]\<rparr>"
  have mid: "same_tables db ?mid" "lg_reports ?mid = lg_reports db3" "lg_history ?mid = lg_history db @ [step_of rq u key t r]"
    using s3 by (simp_all add: sets_report_def same_tables_def)
  note f4 = only_traces_fields [OF conjunct1 [OF audit_ledger_frame [OF db4]]]
  note f5 = only_traces_fields [OF sync_frame [OF sync]]
  have reports: "lg_reports db' = lg_reports db3" using f4 f5 mid by simp
  show ?thesis
  proof (rule that [of r r2 db2 db4])
    show "report_of db' key = Some ?r3" using sets_report_of [OF s3] by (simp add: report_of_def reports)
    show "report_of db' k = report_of db k" if "k \<noteq> key" for k using sets_report_of [OF s3] that by (simp add: report_of_def reports)
    show "same_tables db db'" using same_tables_trans mid(1) f4 f5 by blast
    show "lg_history db' = lg_history db @ [step_of rq u key t r]" using mid(3) f4 f5 by simp
    show "distinct (map fst (lg_reports db)) \<Longrightarrow> distinct (map fst (lg_reports db'))" using s3 by (simp add: sets_report_def reports)
    show "same_tables db db4" using same_tables_trans mid(1) f4 by blast
    show "lg_tasks db4 = lg_tasks db" using audit_ledger_frame [OF db4] t3 r2(3) r(3) by simp
  qed (use sync reach r(4) allowed sets_report_trans [OF r(1) r2(1)] r2(2) in simp_all)
qed

section \<open>The machine\<close>

definition ledger_ok :: "ledger \<Rightarrow> bool" where
  "ledger_ok db = (distinct (map fst (lg_reports db)) \<and> (\<forall>key. report_ok db key)
     \<and> (\<forall>(i, e) \<in> set (lg_entries db). entry_row_checks e)
     \<and> (\<forall>(a, c) \<in> set (lg_scope db). c \<in> set (map fst (lg_categories db))))"

lemma ledger_okD: "ledger_ok db \<Longrightarrow> report_ok db key"
  unfolding ledger_ok_def by blast

lemma set_update_subset: "set (AList.update k v xs) \<subseteq> insert (k, v) (set xs)"
  by (induction xs) auto

lemma follows_snoc: "follows ps h \<Longrightarrow> p e \<Longrightarrow> follows (ps @ [p]) (h @ [e])"
  unfolding follows_def by (metis append.assoc list_all2_appendI list_all2_Cons list_all2_Nil)

lemma follows_one: "p e \<Longrightarrow> follows [p] (h @ [e])"
  using follows_snoc [of "[]" h p e] by simp

lemma workflow_fields:
  assumes "build_workflow db u key now = Inr w" "report_of db key = Some r"
  shows "wk_report w = r" "wk_can_ready w = (rp_status r = ''draft'' \<and> list_all snd (wk_checks w) \<and> confirmed r \<and> can_prepare_reports u)"
    "wk_uses_actual w = uses_actual_costs db key"
  using assms by (auto simp: build_workflow_def Let_def result_simps confirmed_def split: option.splits)

lemma row_of_status:
  assumes "report_row_ok key r"
  shows "rp_status r = ''draft'' \<Longrightarrow> blank r" "rp_status r = ''ready'' \<Longrightarrow> confirmed r"
    "rp_status r = ''verified'' \<Longrightarrow> confirmed r \<and> (snd (snd key) = ''fact'' \<longrightarrow> rp_counterparty r)"
  using assms by (auto simp: report_row_ok_def blank_def)

lemma allowed_status:
  assumes "transition_allowed u period current target"
  shows "target = ''ready'' \<and> current = ''draft'' \<or> target = ''verified'' \<and> current = ''ready''
    \<or> target = ''approved'' \<and> current = ''verified'' \<or> target = ''draft'' \<and> current \<noteq> ''draft''"
  using assms by (simp add: transition_allowed_def split: if_splits)

lemma stamped_row:
  assumes "transition_allowed u (snd (snd key)) (rp_status r) (tr_status t)" "report_row_ok key r" "checked u key t r r2 now db2"
    "report_of db2 key = Some r2"
  shows "report_row_ok key (stamped (tr_status t) comment who now' r2)"
  using allowed_status [OF assms(1)]
proof (elim disjE conjE)
  assume target: "tr_status t = ''ready''"
  then obtain w where "build_workflow db2 u key now = Inr w" "wk_can_ready w" using assms(3) by (auto simp: checked_def)
  then have "confirmed r2" using workflow_fields [OF _ assms(4)] by simp
  then show ?thesis by (simp add: target stamped_def report_row_ok_def confirmed_def)
next
  assume target: "tr_status t = ''verified''" "rp_status r = ''ready''"
  then show ?thesis using row_of_status(2) [OF assms(2)] assms(3)
    by (simp add: checked_def stamped_def report_row_ok_def confirmed_def)
next
  assume target: "tr_status t = ''approved''" "rp_status r = ''verified''"
  then show ?thesis using row_of_status(3) [OF assms(2)] assms(3)
    by (simp add: checked_def stamped_def report_row_ok_def confirmed_def)
next
  assume target: "tr_status t = ''draft''"
  then show ?thesis by (simp add: stamped_def report_row_ok_def blank_def)
qed

lemma stamped_path:
  assumes "transition_allowed u (snd (snd key)) (rp_status r) (tr_status t)" "checked u key t r r2 now db2"
    "follows (path_of r) h"
  shows "follows (path_of (stamped (tr_status t) comment (au_id u) (rq_now rq) r2)) (h @ [step_of rq u key t r])"
  using allowed_status [OF assms(1)]
proof (elim disjE conjE)
  assume "tr_status t = ''ready''" "rp_status r = ''draft''"
  then show ?thesis by (simp add: stamped_def path_of_def step_event_def step_of_def follows_one)
next
  assume target: "tr_status t = ''verified''" "rp_status r = ''ready''"
  then have "rp_ready r2 = rp_ready r" using assms(2) by (simp add: checked_def split: if_splits)
  then show ?thesis
    using follows_snoc [OF assms(3), of "step_event ''ready'' ''verified'' (Some (au_id u, rq_now rq))" "step_of rq u key t r"] target
    by (simp add: stamped_def path_of_def step_event_def step_of_def)
next
  assume target: "tr_status t = ''approved''" "rp_status r = ''verified''"
  then have "r2 = r" using assms(2) by (simp add: checked_def)
  then show ?thesis
    using follows_snoc [OF assms(3), of "step_event ''verified'' ''approved'' (Some (au_id u, rq_now rq))" "step_of rq u key t r"] target
    by (simp add: stamped_def path_of_def step_event_def step_of_def)
next
  assume "tr_status t = ''draft''"
  then show ?thesis by (simp add: stamped_def path_of_def)
qed

lemma transition_ok:
  assumes "transition rq u key t fresh db = Inr db'" "ledger_ok db"
  shows "ledger_ok db'"
proof (rule transition_cases [OF assms(1)])
  fix r r2 db2 db4
  assume before: "report_of db key = Some r \<or> report_of db key = None \<and> r = draft_report (au_id u)"
    and allowed: "transition_allowed u (snd (snd key)) (rp_status r) (tr_status t)"
    and set2: "sets_report key r2 db db2" and checked: "checked u key t r r2 (rq_now rq) db2"
    and after: "report_of db' key = Some (stamped (tr_status t) (trim_space (tr_comment t)) (au_id u) (rq_now rq) r2)"
    and others: "\<And>k. k \<noteq> key \<Longrightarrow> report_of db' k = report_of db k" and tables: "same_tables db db'"
    and hist: "lg_history db' = lg_history db @ [step_of rq u key t r]"
    and dist: "distinct (map fst (lg_reports db)) \<Longrightarrow> distinct (map fst (lg_reports db'))"
  have "report_ok db key" using assms(2) by (rule ledger_okD)
  moreover have "blank (draft_report (au_id u))" by (simp add: blank_def draft_report_def)
  ultimately have r: "report_row_ok key r" "follows (path_of r) (trail_of (lg_history db) key)"
    using before blank_ok [of "draft_report (au_id u)" key] by (auto simp: report_ok_def)
  have "report_of db2 key = Some r2" using sets_report_of [OF set2] by simp
  note row = stamped_row [OF allowed r(1) checked this] and path = stamped_path [OF allowed checked r(2)]
  have "re_key (step_of rq u key t r) = key" by (simp add: step_of_def)
  then have trail: "trail_of (lg_history db') key = trail_of (lg_history db) key @ [step_of rq u key t r]"
      "k \<noteq> key \<Longrightarrow> trail_of (lg_history db') k = trail_of (lg_history db) k" for k by (simp_all add: trail_of_def hist)
  have "report_ok db' k" for k
  proof (cases "k = key")
    case True
    then show ?thesis using row path after trail(1) by (simp add: report_ok_def)
  next
    case False
    then show ?thesis using ledger_okD [OF assms(2), of k] others [OF False] trail(2) [OF False]
      by (cases "report_of db k") (simp_all add: report_ok_def)
  qed
  then show ?thesis using assms(2) tables dist by (simp add: ledger_ok_def same_tables_def)
qed

text \<open>Every other command leaves a report alone or resets it.\<close>

definition steps_report :: "ledger_command \<Rightarrow> report_key option" where
  "steps_report c = (case c of Transition _ _ key _ _ \<Rightarrow> Some key | _ \<Rightarrow> None)"

lemma step_keeps_reports:
  assumes "ledger_step env c db = Inr db'" "distinct (map fst (lg_reports db))" "steps_report c \<noteq> Some key"
  shows "report_kept_or_reset db db' key \<and> distinct (map fst (lg_reports db'))"
proof (cases c)
  case (Transition rq u k t fresh)
  then have step: "transition rq u k t fresh db = Inr db'" and "k \<noteq> key" using assms by (simp_all add: ledger_step_def steps_report_def)
  then have other: "key \<noteq> k" by simp
  show ?thesis
  proof (rule transition_cases [OF step])
    fix r r2 db2 db4
    assume others: "\<And>j. j \<noteq> k \<Longrightarrow> report_of db' j = report_of db j"
      and hist: "lg_history db' = lg_history db @ [step_of rq u k t r]"
      and dist: "distinct (map fst (lg_reports db)) \<Longrightarrow> distinct (map fst (lg_reports db'))"
    have "trail_of (lg_history db') key = trail_of (lg_history db) key" using other by (simp add: hist trail_of_def step_of_def)
    then show ?thesis using others [OF other] dist assms(2)
      by (auto simp: report_kept_or_reset_def kept_report_def split: option.splits)
  qed
next
  case (StoreEntry i e now)
  then have "store_entry i e now db = Inr db'" using assms(1) by (simp add: ledger_step_def)
  note f = store_entry_frame(1) [OF this]
  let ?db = "db\<lparr>lg_entries := AList.update i e (lg_entries db), lg_evidence := index_entry i e (lg_evidence db)\<rparr>"
  have "report_kept_or_reset db ?db key" by (intro kept_reset_refl) (simp_all add: report_of_def fun_eq_iff)
  moreover have "report_kept_or_reset ?db db' key" unfolding f by (rule entry_triggers_kept) (simp add: assms(2))
  ultimately show ?thesis using kept_reset_trans assms(2) by (simp add: f)
next
  case (ChangeAgreement a row members people)
  then have "db' = change_agreement a row members people db" using assms(1) by (simp add: ledger_step_def)
  then show ?thesis unfolding change_agreement_def
    using kept_reset_trans [OF kept_reset_refl reset_rows_kept] assms(2) by (simp add: report_of_def fun_eq_iff)
next
  case (ChangeScope a codes actor now)
  then have step: "change_scope a codes actor now db = Inr db'" using assms(1) by (simp add: ledger_step_def)
  then show ?thesis using change_scope_kept [OF step assms(2)] change_scope_cases(6) [OF step] assms(2) by simp
next
  case (ChangeAuthority i state who now)
  then have "db' = change_authority i state who now db" using assms(1) by (simp add: ledger_step_def)
  then show ?thesis unfolding change_authority_def Let_def
    using kept_reset_trans [OF kept_reset_refl reset_logged_kept] kept_reset_refl assms(2) by (simp add: report_of_def fun_eq_iff)
next
  case (Evidence c)
  then obtain ev where "db' = db\<lparr>lg_evidence := ev\<rparr>" using assms(1) by (auto simp: ledger_step_def result_simps)
  then show ?thesis using kept_reset_refl assms(2) by (simp add: report_of_def fun_eq_iff)
qed

lemma step_tables:
  assumes "ledger_step env c db = Inr db'" "ledger_ok db"
  shows "(\<forall>(i, e) \<in> set (lg_entries db'). entry_row_checks e)
    \<and> (\<forall>(a, c) \<in> set (lg_scope db'). c \<in> set (map fst (lg_categories db')))"
proof (cases c)
  case (Transition rq u k t fresh)
  then have "transition rq u k t fresh db = Inr db'" using assms(1) by (simp add: ledger_step_def)
  from transition_ok [OF this assms(2)] show ?thesis by (simp add: ledger_ok_def)
next
  case (StoreEntry i e now)
  then have "store_entry i e now db = Inr db'" using assms(1) by (simp add: ledger_step_def)
  note f = store_entry_frame [OF this]
  show ?thesis using assms(2) f(2) set_update_subset [of i e "lg_entries db"] unfolding f(1) entry_triggers_tables by (auto simp: ledger_ok_def)
next
  case (ChangeAgreement a row members people)
  then have "db' = change_agreement a row members people db" using assms(1) by (simp add: ledger_step_def)
  then show ?thesis using assms(2) by (simp add: change_agreement_def reset_rows_def ledger_ok_def)
next
  case (ChangeScope a codes actor now)
  then have step: "change_scope a codes actor now db = Inr db'" using assms(1) by (simp add: ledger_step_def)
  from change_scope_cases [OF step] show ?thesis using assms(2) by (auto simp: ledger_ok_def)
next
  case (ChangeAuthority i state who now)
  then have "db' = change_authority i state who now db" using assms(1) by (simp add: ledger_step_def)
  then show ?thesis using assms(2) by (simp add: change_authority_def reset_logged_def reset_rows_def ledger_ok_def Let_def)
next
  case (Evidence c)
  then obtain ev where "db' = db\<lparr>lg_evidence := ev\<rparr>" using assms(1) by (auto simp: ledger_step_def result_simps)
  then show ?thesis using assms(2) by (simp add: ledger_ok_def)
qed

lemma ledger_step_ok:
  assumes "ledger_step env c db = Inr db'" "ledger_ok db"
  shows "ledger_ok db'"
proof (cases "steps_report c")
  case (Some key)
  then obtain rq u t fresh where "c = Transition rq u key t fresh" by (cases c) (simp_all add: steps_report_def)
  then show ?thesis using assms transition_ok by (simp add: ledger_step_def)
next
  case None
  have d: "distinct (map fst (lg_reports db))" using assms(2) by (simp add: ledger_ok_def)
  have "report_ok db' key" for key
    using reset_keeps_ok [OF conjunct1 [OF step_keeps_reports [OF assms(1) d]] ledger_okD [OF assms(2)]] None by simp
  then show ?thesis using step_keeps_reports [OF assms(1) d] None step_tables [OF assms] by (simp add: ledger_ok_def)
qed

interpretation ledger: guarded_machine "ledger_step env" ledger_ok for env
  by unfold_locales (rule ledger_step_ok)

end
