(* ===== verification/ReportProperties.thy ===== *)
theory ReportProperties
  imports ReportLaws DocumentProperties TaskLaws
begin

text \<open>
  What the workflow of reports promises: the path of an approved report, that a change of an entry
  withdraws it, when the entries of an approved report count, who may take which step, and the tasks
  that follow.
\<close>

section \<open>The path of a report\<close>

definition reached :: "store_env \<Rightarrow> ledger_command list \<Rightarrow> ledger \<Rightarrow> ledger" where
  "reached env cs db = run_machine (ledger_step env) cs db"

lemma reached_ok: "ledger_ok db \<Longrightarrow> ledger_ok (reached env cs db)"
  unfolding reached_def by (rule ledger.run_inv)

lemma stamped_status [simp]: "rp_status (stamped target comment who now r) = target"
  by (simp add: stamped_def Let_def)

lemma reset_logged_status: "P key \<Longrightarrow> report_status (reset_logged P comment who now db) key = ''draft''"
  using report_of_map [of "reset_logged P comment who now db" "\<lambda>k r. if not_draft P (k, r) then reset_report r else r" db key]
  by (cases "report_of db key")
    (auto simp: reset_logged_def reset_rows_def report_status_def report_of_def not_draft_def reset_report_def)

lemma reset_logged_draft: "report_status db key = ''draft'' \<Longrightarrow> report_status (reset_logged P comment who now db) key = ''draft''"
  using report_of_map [of "reset_logged P comment who now db" "\<lambda>k r. if not_draft P (k, r) then reset_report r else r" db key]
  by (cases "report_of db key")
    (auto simp: reset_logged_def reset_rows_def report_status_def report_of_def not_draft_def reset_report_def)

lemma reset_one_status [simp]: "report_status (reset_logged (\<lambda>k. k = key) comment who now db) key = ''draft''"
  by (rule reset_logged_status) simp

lemma stored_withdrawn:
  assumes "store_entry i e now db = Inr db1" "key = context_of e \<or> (\<exists>was. map_of (lg_entries db) i = Some was \<and> key = context_of was)"
  shows "report_status db1 key = ''draft''"
proof (cases "map_of (lg_entries db) i")
  case None
  then show ?thesis using assms(2)
    by (simp add: store_entry_frame(1) [OF assms(1)] entry_triggers_def reset_on_entry_change_def Let_def)
next
  case (Some was)
  have "report_status (reset_logged P c2 w2 now (reset_logged (\<lambda>k. k = context_of was) c w now a)) (context_of was) = ''draft''"
    for P c2 w2 c w a by (rule reset_logged_draft) simp
  then show ?thesis using assms(2) Some
    by (cases "context_of was = context_of e")
      (auto simp: store_entry_frame(1) [OF assms(1)] entry_triggers_def reset_on_entry_change_def Let_def)
qed

section \<open>Costs that were really incurred\<close>

text \<open>
  A report that rests on actual costs leaves its draft only with these costs confirmed and the auditor's
  report named. The triggers clear both when an entry changes and return the report to its draft.
\<close>

definition costs_ok :: "ledger \<Rightarrow> bool" where
  "costs_ok db = (\<forall>key r. report_of db key = Some r \<longrightarrow> rp_status r \<noteq> ''draft'' \<longrightarrow> uses_actual_costs db key \<longrightarrow>
     rp_costs r \<and> trim_space (rp_auditor r) \<noteq> [])"

definition same_or_draft :: "ledger \<Rightarrow> ledger \<Rightarrow> bool" where
  "same_or_draft a b = (\<forall>key r. report_of b key = Some r \<longrightarrow> rp_status r = ''draft'' \<or> report_of a key = Some r)"

lemma costs_okD: "costs_ok db \<Longrightarrow> report_of db key = Some r \<Longrightarrow> rp_status r \<noteq> ''draft'' \<Longrightarrow> uses_actual_costs db key \<Longrightarrow>
    rp_costs r \<and> trim_space (rp_auditor r) \<noteq> []"
  unfolding costs_ok_def by blast

lemma same_or_draftD: "same_or_draft a b \<Longrightarrow> report_of b key = Some r \<Longrightarrow> rp_status r \<noteq> ''draft'' \<Longrightarrow> report_of a key = Some r"
  unfolding same_or_draft_def by blast

lemma same_or_draft_reports:
  "lg_reports b = map (\<lambda>(k, r). (k, if Q (k, r) then f r else r)) (lg_reports a) \<Longrightarrow> (\<And>r. rp_status (f r) = ''draft'') \<Longrightarrow> same_or_draft a b"
  using report_of_map [of b "\<lambda>k r. if Q (k, r) then f r else r" a] by (auto simp: same_or_draft_def)

lemma draft_of_reset: "rp_status (reset_report r) = ''draft''" by (simp add: reset_report_def)

lemma same_or_draft_refl: "lg_reports b = lg_reports a \<Longrightarrow> same_or_draft a b"
  by (simp add: same_or_draft_def report_of_def)

lemma same_or_draft_trans: "same_or_draft a b \<Longrightarrow> same_or_draft b c \<Longrightarrow> same_or_draft a c"
  unfolding same_or_draft_def by blast

lemma reset_same_or_draft:
  "same_or_draft db (reset_logged P comment who now db)" "same_or_draft db (reset_rows P db)"
  by (rule same_or_draft_reports [where Q = "not_draft P" and f = reset_report]; simp add: reset_logged_def reset_rows_def draft_of_reset)+

lemma reset_on_entry_same: "same_or_draft db (reset_on_entry_change old new now db)"
  using reset_same_or_draft(1) same_or_draft_trans [OF reset_same_or_draft(1) reset_same_or_draft(1)] same_or_draft_refl [of db db]
  by (auto simp: reset_on_entry_change_def Let_def split: option.splits)

lemma change_scope_same: "change_scope a codes actor now db = Inr db' \<Longrightarrow> same_or_draft db db'"
proof (cases "codes = [] \<and> \<not> list_ex (\<lambda>(b, _). b = a) (lg_scope db)")
  case True
  moreover assume "change_scope a codes actor now db = Inr db'"
  ultimately show ?thesis by (intro same_or_draft_refl) (auto simp: change_scope_def Let_def split: if_splits)
next
  case False
  moreover assume "change_scope a codes actor now db = Inr db'"
  ultimately show ?thesis unfolding change_scope_def Let_def
    by (intro same_or_draft_reports [where Q = "not_draft (\<lambda>(b, _). b = a)" and f = "\<lambda>r. reset_report r\<lparr>rp_updated := actor\<rparr>"])
      (auto simp: draft_of_reset split: if_splits)
qed

text \<open>The checks of a step to ready, verified or approved include the actual costs.\<close>

lemma checked_costs:
  assumes "build_workflow db u key now = Inr w" "report_of db key = Some r" "list_all snd (wk_checks w) \<or> wk_missing w = []"
    "uses_actual_costs db key" "snd (snd key) = ''fact''"
  shows "rp_costs r \<and> trim_space (rp_auditor r) \<noteq> []"
proof -
  obtain x where x: "map_of (lg_agreements db) (fst key) = Some x" using assms(1) by (auto simp: build_workflow_def split: option.splits)
  obtain whole basis where a: "check_activities db key x = Inr (whole, basis)"
    using assms(1) x by (auto simp: build_workflow_def Let_def result_simps)
  have w: "wk_checks w = automatic_checks db key x r whole now"
    "wk_missing w = missing_items key r (required_activities db key) whole (automatic_checks db key x r whole now)"
    using assms(1,2) x a by (auto simp: build_workflow_def Let_def result_simps)
  have "list_all snd (automatic_checks db key x r whole now)"
    using assms(3) by (auto simp: w missing_items_def filter_empty_conv list_all_iff)
  then show ?thesis using assms(4,5) by (cases key) (auto simp: automatic_checks_def)
qed

lemma actual_is_fact:
  assumes "ledger_ok db" "uses_actual_costs db key"
  shows "snd (snd key) = ''fact''"
proof -
  obtain i e where "(i, e) \<in> set (lg_entries db)" "context_of e = key" "en_method e = ''actual''"
    using assms(2) by (auto simp: uses_actual_costs_def list_ex_iff)
  then show ?thesis using assms(1) by (auto simp: ledger_ok_def entry_row_checks_def cost_checks_def context_of_def)
qed

lemma transition_costs:
  assumes "transition rq u key t fresh db = Inr db'" "ledger_ok db" "costs_ok db"
  shows "costs_ok db'"
proof (rule transition_cases [OF assms(1)])
  fix r r2 db2 db4
  assume allowed: "transition_allowed u (snd (snd key)) (rp_status r) (tr_status t)"
    and set2: "sets_report key r2 db db2" and checked: "checked u key t r r2 (rq_now rq) db2"
    and after: "report_of db' key = Some (stamped (tr_status t) (trim_space (tr_comment t)) (au_id u) (rq_now rq) r2)"
    and others: "\<And>k. k \<noteq> key \<Longrightarrow> report_of db' k = report_of db k" and tables: "same_tables db db'"
  have uses: "uses_actual_costs db' = uses_actual_costs db" "uses_actual_costs db2 = uses_actual_costs db"
    using tables set2 by (auto simp: uses_actual_costs_def same_tables_def sets_report_def)
  have at2: "report_of db2 key = Some r2" using sets_report_of [OF set2] by simp
  let ?r = "stamped (tr_status t) (trim_space (tr_comment t)) (au_id u) (rq_now rq) r2"
  have "rp_costs ?r \<and> trim_space (rp_auditor ?r) \<noteq> []" if target: "tr_status t \<noteq> ''draft''" "uses_actual_costs db' key"
  proof -
    obtain w where w: "build_workflow db2 u key (rq_now rq) = Inr w" "wk_can_ready w \<or> wk_missing w = []"
      using checked target(1) by (cases "tr_status t = ''ready''") (auto simp: checked_def)
    then have "list_all snd (wk_checks w) \<or> wk_missing w = []" using workflow_fields(2) [OF w(1) at2] by auto
    then have "rp_costs r2 \<and> trim_space (rp_auditor r2) \<noteq> []"
      using checked_costs [OF w(1) at2] that(2) actual_is_fact [OF assms(2)] by (simp add: uses)
    then show ?thesis using that(1) by (simp add: stamped_def Let_def)
  qed
  then show ?thesis using after others assms(3) unfolding costs_ok_def uses
    by (metis option.inject stamped_status)
qed

lemma store_costs:
  assumes "store_entry i e now db = Inr db'" "costs_ok db"
  shows "costs_ok db'"
  unfolding costs_ok_def
proof (intro allI impI)
  fix key r
  assume r: "report_of db' key = Some r" "rp_status r \<noteq> ''draft''" "uses_actual_costs db' key"
  then have "report_status db' key \<noteq> ''draft''" by (simp add: report_status_def)
  then have key: "key \<noteq> context_of e" using stored_withdrawn [OF assms(1)] by blast
  note f = store_entry_frame(1) [OF assms(1)]
  let ?db = "db\<lparr>lg_entries := AList.update i e (lg_entries db), lg_evidence := index_entry i e (lg_evidence db)\<rparr>"
  have "same_or_draft (reset_auditor (context_of e) ?db) db'"
    using reset_on_entry_same by (simp add: f entry_triggers_def reset_auditor_on_entry_change_def)
  then have "report_of (reset_auditor (context_of e) ?db) key = Some r" using r(1,2) same_or_draftD by blast
  then have "report_of db key = Some r" using key
    report_of_map [of "reset_auditor (context_of e) ?db" "\<lambda>k r. if k = context_of e then r\<lparr>rp_costs := False, rp_auditor := []\<rparr> else r" ?db key]
    by (cases "map_of (lg_reports db) key") (auto simp: reset_auditor_def report_of_def)
  moreover have "uses_actual_costs db key"
    using r(3) key set_update_subset [of i e "lg_entries db"] unfolding uses_actual_costs_def f entry_triggers_tables list_ex_iff by auto
  ultimately show "rp_costs r \<and> trim_space (rp_auditor r) \<noteq> []" using costs_okD [OF assms(2) _ r(2)] by blast
qed

lemma same_costs: "same_or_draft db db' \<Longrightarrow> lg_entries db' = lg_entries db \<Longrightarrow> costs_ok db \<Longrightarrow> costs_ok db'"
  by (fastforce simp: costs_ok_def same_or_draft_def uses_actual_costs_def)

lemma step_costs:
  assumes "ledger_ok db \<and> costs_ok db" "ledger_step env c db = Inr db'"
  shows "ledger_ok db' \<and> costs_ok db'"
proof
  show "ledger_ok db'" using ledger_step_ok [OF assms(2)] assms(1) by blast
  show "costs_ok db'"
  proof (cases c)
    case (Transition rq u k t fresh)
    then show ?thesis using assms transition_costs by (auto simp: ledger_step_def)
  next
    case (StoreEntry i e now)
    then show ?thesis using assms store_costs by (auto simp: ledger_step_def)
  next
    case (ChangeAgreement a row members people)
    let ?db = "db\<lparr>lg_agreements := AList.update a row (lg_agreements db),
       lg_members := filter (\<lambda>(b, _). b \<noteq> a) (lg_members db) @ map (\<lambda>(p, primary). (a, p, primary)) members,
       lg_people := filter (\<lambda>(b, _). b \<noteq> a) (lg_people db) @ map (Pair a) people\<rparr>"
    have "db' = reset_rows (\<lambda>(b, _). b = a) ?db" using assms(2) ChangeAgreement by (simp add: ledger_step_def change_agreement_def)
    moreover from this have "same_or_draft db db'"
      using same_or_draft_trans [OF same_or_draft_refl reset_same_or_draft(2)] by simp
    ultimately show ?thesis using same_costs assms(1) by (simp add: reset_rows_def)
  next
    case (ChangeScope a codes actor now)
    then have "change_scope a codes actor now db = Inr db'" using assms(2) by (simp add: ledger_step_def)
    then show ?thesis using change_scope_same change_scope_cases(4) same_costs assms(1) by blast
  next
    case (ChangeAuthority i state who now)
    then have db': "db' = change_authority i state who now db" using assms(2) by (simp add: ledger_step_def)
    then have "same_or_draft db db'"
      using same_or_draft_trans [OF same_or_draft_refl reset_same_or_draft(1)] same_or_draft_refl
      by (simp add: change_authority_def Let_def)
    then show ?thesis using same_costs assms(1) by (simp add: db' change_authority_def reset_logged_def reset_rows_def Let_def)
  next
    case (Evidence c)
    then obtain ev where "db' = db\<lparr>lg_evidence := ev\<rparr>" using assms(2) by (auto simp: ledger_step_def result_simps)
    then have "same_or_draft db db'" "lg_entries db' = lg_entries db" by (simp_all add: same_or_draft_refl)
    then show ?thesis using same_costs assms(1) by blast
  qed
qed

interpretation costs: guarded_machine "ledger_step env" "\<lambda>db. ledger_ok db \<and> costs_ok db" for env
  by unfold_locales (rule step_costs)

section \<open>The whole path of an approved report\<close>

lemma follows_three:
  assumes "follows [p, q, r] h"
  shows "\<exists>pre e1 e2 e3. h = pre @ [e1, e2, e3] \<and> p e1 \<and> q e2 \<and> r e3"
proof -
  obtain pre es where h: "h = pre @ es" "list_all2 (\<lambda>p e. p e) [p, q, r] es" using assms by (auto simp: follows_def)
  then obtain e1 e2 e3 where "es = [e1, e2, e3]" "p e1" "q e2" "r e3" by (auto simp: list_all2_Cons1)
  then show ?thesis using h(1) by blast
qed

text \<open>
  C36: whatever happens to the entries, agreements, authorities, documents and reports, an approved report
  has come the whole way since it last was a draft: its three last events take it from draft to
  ready, to verified and to approved, its stamps name those who took these steps and when, and
  everything that must be confirmed is: the scope, the conditions and the evidence, the acceptance by
  the counterparty of a fact report, and, as soon as one of its entries rests on actual costs, these
  costs together with the report of the auditor.
\<close>

theorem approved_report_path:
  assumes "ledger_ok db" "costs_ok db" "report_of (reached env cs db) key = Some r" "rp_status r = ''approved''"
  shows "\<exists>pre e1 e2 e3. filter (\<lambda>e. re_key e = key) (lg_history (reached env cs db)) = pre @ [e1, e2, e3]
      \<and> re_from e1 = ''draft'' \<and> re_to e1 = ''ready'' \<and> rp_ready r = Some (re_by e1, re_at e1)
      \<and> re_from e2 = ''ready'' \<and> re_to e2 = ''verified'' \<and> rp_verified r = Some (re_by e2, re_at e2)
      \<and> re_from e3 = ''verified'' \<and> re_to e3 = ''approved'' \<and> rp_approved r = Some (re_by e3, re_at e3)
      \<and> rp_scope r \<and> rp_conditions r \<and> rp_evidence r \<and> (snd (snd key) = ''fact'' \<longrightarrow> rp_counterparty r)
      \<and> (uses_actual_costs (reached env cs db) key \<longrightarrow> rp_costs r \<and> trim_space (rp_auditor r) \<noteq> [])"
proof -
  have "costs_ok (reached env cs db)" using costs.run_inv [of db env cs] assms(1,2) by (simp add: reached_def)
  then have costs: "uses_actual_costs (reached env cs db) key \<longrightarrow> rp_costs r \<and> trim_space (rp_auditor r) \<noteq> []"
    using costs_okD assms(3,4) by auto
  have "report_ok (reached env cs db) key" using reached_ok [OF assms(1)] by (rule ledger_okD)
  then have row: "report_row_ok key r" and path: "follows (path_of r) (trail_of (lg_history (reached env cs db)) key)"
    using assms(3) by (simp_all add: report_ok_def)
  have "path_of r = [step_event ''draft'' ''ready'' (rp_ready r), step_event ''ready'' ''verified'' (rp_verified r),
      step_event ''verified'' ''approved'' (rp_approved r)]" using assms(4) by (simp add: path_of_def Let_def)
  with path obtain pre e1 e2 e3 where "trail_of (lg_history (reached env cs db)) key = pre @ [e1, e2, e3]"
    "step_event ''draft'' ''ready'' (rp_ready r) e1" "step_event ''ready'' ''verified'' (rp_verified r) e2"
    "step_event ''verified'' ''approved'' (rp_approved r) e3" using follows_three by metis
  moreover have "confirmed r" "snd (snd key) = ''fact'' \<longrightarrow> rp_counterparty r"
    using row assms(4) by (auto simp: report_row_ok_def blank_def)
  ultimately show ?thesis
    by (intro exI [of _ pre] exI [of _ e1] exI [of _ e2] exI [of _ e3]) (use costs in \<open>simp add: trail_of_def step_event_def confirmed_def\<close>)
qed

section \<open>A change withdraws the report\<close>

definition approves :: "report_key \<Rightarrow> ledger_command \<Rightarrow> bool" where
  "approves key c = (case c of Transition _ _ k t _ \<Rightarrow> k = key \<and> tr_status t = ''approved'' | _ \<Rightarrow> False)"

lemma step_not_approved:
  assumes "ledger_step env c db = Inr db'" "ledger_ok db" "\<not> approves key c" "report_status db key \<noteq> ''approved''"
  shows "report_status db' key \<noteq> ''approved''"
proof (cases "steps_report c = Some key")
  case True
  then obtain rq u t fresh where c: "c = Transition rq u key t fresh" by (cases c) (simp_all add: steps_report_def)
  then have "transition rq u key t fresh db = Inr db'" using assms(1) by (simp add: ledger_step_def)
  then show ?thesis
  proof (rule transition_cases)
    fix r2
    assume "report_of db' key = Some (stamped (tr_status t) (trim_space (tr_comment t)) (au_id u) (rq_now rq) r2)"
    then show ?thesis using assms(3) c by (simp add: report_status_def approves_def)
  qed
next
  case False
  have "distinct (map fst (lg_reports db))" using assms(2) by (simp add: ledger_ok_def)
  from step_keeps_reports [OF assms(1) this False] assms(4) show ?thesis
    by (auto simp: report_kept_or_reset_def report_status_def kept_report_def blank_def split: option.splits)
qed

lemma run_not_approved:
  "ledger_ok db \<Longrightarrow> \<forall>c \<in> set cs. \<not> approves key c \<Longrightarrow> report_status db key \<noteq> ''approved'' \<Longrightarrow>
    report_status (reached env cs db) key \<noteq> ''approved''"
  unfolding reached_def
proof (induction cs arbitrary: db)
  case (Cons c cs)
  show ?case
  proof (cases "ledger_step env c db")
    case (Inr t)
    then show ?thesis using Cons step_not_approved [OF Inr] ledger_step_ok [OF Inr] by simp
  qed (use Cons in simp)
qed simp

lemma eligible_approved: "entry_eligible db i e \<Longrightarrow> report_status db (context_of e) = ''approved''"
  by (auto simp: entry_eligible_def report_confirmed_def report_status_def split: option.splits)

text \<open>
  C37: an amount counts only when it was approved after its last change: when an entry is stored, the
  report of its year, period and agreement becomes a draft (and, when it was moved, that of the place
  it left), and until somebody approves that report again no entry of it counts, whatever else
  happens.
\<close>

theorem change_withdraws_report:
  assumes "ledger_ok db" "store_entry i e now db = Inr db1"
    "key = context_of e \<or> (\<exists>was. map_of (lg_entries db) i = Some was \<and> key = context_of was)" "\<forall>c \<in> set cs. \<not> approves key c"
  shows "report_status db1 key = ''draft''
    \<and> (\<forall>(j, x) \<in> set (lg_entries (reached env cs db1)). context_of x = key \<longrightarrow> \<not> entry_eligible (reached env cs db1) j x)"
proof -
  have draft: "report_status db1 key = ''draft''" using stored_withdrawn [OF assms(2,3)] .
  have "ledger_step env (StoreEntry i e now) db = Inr db1" using assms(2) by (simp add: ledger_step_def)
  then have "ledger_ok db1" using assms(1) by (rule ledger_step_ok)
  then have "report_status (reached env cs db1) key \<noteq> ''approved''" using run_not_approved assms(4) draft by simp
  then show ?thesis using draft eligible_approved by auto
qed

section \<open>When approved entries count\<close>

lemma activities_done:
  assumes "check_activities db key x = Inr (True, basis)" "\<forall>(a, c) \<in> set (lg_scope db). c \<in> set (map fst (lg_categories db))"
  shows "scope_covered db key \<or> am_kind x = ''education_organization'' \<and> (\<exists>b. top_it_alternative_basis db key = Inr (Some b))"
proof (cases "list_all (\<lambda>(_, _, done). done) (required_activities db key)")
  case True
  have "covered db key c" if scope: "(a, c) \<in> set (lg_scope db)" and a: "a = fst key" for a c
  proof -
    obtain row where "(c, row) \<in> set (lg_categories db)" using assms(2) scope by auto
    then have "(c, cg_name row, covered db key c) \<in> set (required_activities db key)"
      using scope a by (force simp: required_activities_def)
    then show ?thesis using True by (auto simp: list_all_iff)
  qed
  then show ?thesis by (auto simp: scope_covered_def list_all_iff)
next
  case False
  then show ?thesis using assms(1)
    by (auto simp: check_activities_def Let_def result_simps split: if_splits)
qed

lemma nothing_missing:
  assumes "build_workflow db u key now = Inr w" "wk_missing w = []"
  shows "\<exists>x basis. map_of (lg_agreements db) (fst key) = Some x \<and> agreement_valid db x (fst (snd key))
    \<and> has_party db (fst key) ''cyberprotect'' \<and> has_party db (fst key) ''counterparty''
    \<and> check_activities db key x = Inr (True, basis)
    \<and> (snd (snd key) = ''fact'' \<longrightarrow> list_all (entry_ready db now) (context_entries db key)
        \<and> (uses_actual_costs db key \<longrightarrow> trim_space (rp_auditor (wk_report w)) \<noteq> [] \<and> rp_costs (wk_report w)))"
proof -
  obtain x where x: "map_of (lg_agreements db) (fst key) = Some x" using assms(1) by (auto simp: build_workflow_def split: option.splits)
  obtain whole basis where a: "check_activities db key x = Inr (whole, basis)"
    using assms(1) x by (auto simp: build_workflow_def Let_def result_simps)
  have w: "wk_missing w = missing_items key (wk_report w) (required_activities db key) whole (automatic_checks db key x (wk_report w) whole now)"
    using assms(1) x a by (auto simp: build_workflow_def Let_def result_simps)
  then have "list_all snd (automatic_checks db key x (wk_report w) whole now)"
    using assms(2) by (auto simp: missing_items_def filter_empty_conv list_all_iff)
  then show ?thesis using x a by (cases key) (auto simp: automatic_checks_def)
qed

lemma btrim_text: "trim_space s \<noteq> [] \<Longrightarrow> btrim s \<noteq> []"
proof
  assume filled: "trim_space s \<noteq> []" and "btrim s = []"
  let ?left = "dropWhile (\<lambda>c. c = CHR '' '') s"
  have left: "\<forall>c \<in> set ?left. c = CHR '' ''" using \<open>btrim s = []\<close> by (simp only: btrim_def rev_is_Nil_conv dropWhile_eq_Nil_conv set_rev)
  have "?left = []"
  proof (rule ccontr)
    assume ne: "?left \<noteq> []"
    then have "hd ?left = CHR '' ''" using left hd_in_set by (metis (full_types))
    then show False using hd_dropWhile [OF ne] by simp
  qed
  then have "\<forall>c \<in> set s. c = CHR '' ''" by (simp only: dropWhile_eq_Nil_conv)
  then have s: "s = replicate (length s) (CHR '' '')" by (intro replicate_eqI) simp_all
  have blanks: "ascii (replicate n (CHR '' ''))" for n by (simp add: ascii_def list_all_iff)
  have "runes s = replicate (length s) (32, '' '')"
  proof -
    have "runes (replicate n (CHR '' '')) = replicate n (32, '' '')" for n
      using runes_ascii [OF blanks] by simp
    then show ?thesis using s by metis
  qed
  then have d: "dropWhile (is_space_rune \<circ> fst) (runes s) = []"
    by (simp add: dropWhile_eq_Nil_conv is_space_rune_def is_space_point_def)
  show False using filled unfolding trim_space_def d by simp
qed

lemma covered_same: "lg_entries b = lg_entries a \<Longrightarrow> covered b = covered a"
  by (intro ext) (simp add: covered_def)

lemma candidates_same:
  assumes "same_tables a b" "\<And>k. fst k \<noteq> fst key \<Longrightarrow> report_of b k = report_of a k"
  shows "clause22_candidates b key = clause22_candidates a key"
proof -
  obtain i year period where key: "key = (i, year, period)" by (cases key)
  have "report_status b (other, year, period) = report_status a (other, year, period)" if "other \<noteq> i" for other
    using assms(2) [of "(other, year, period)"] that by (simp add: report_status_def key)
  then have status: "other \<noteq> i \<and> P \<and> Q \<and> R \<and> report_status b (other, year, period) = s \<longleftrightarrow>
      other \<noteq> i \<and> P \<and> Q \<and> R \<and> report_status a (other, year, period) = s" for other P Q R s by auto
  have "lg_agreements b = lg_agreements a" "lg_members b = lg_members a" "lg_partners b = lg_partners a"
    using assms(1) by (simp_all add: same_tables_def)
  then show ?thesis unfolding clause22_candidates_def key prod.case agreement_company_def by (simp only: status)
qed

lemma records_same: "same_tables a b \<Longrightarrow> clause22_records b k = clause22_records a k"
  unfolding same_tables_def clause22_records_def record_of_def positive_entries_def category_name_def by simp

lemma basis_same:
  assumes "same_tables a b" "\<And>k. fst k \<noteq> fst key \<Longrightarrow> report_of b k = report_of a k"
  shows "top_it_alternative_basis b key = top_it_alternative_basis a key"
proof -
  have "first_basis b yp cs = first_basis a yp cs" for yp cs
  proof (induction cs)
    case (Cons c cs)
    then show ?case by (cases c) (auto simp: records_same [OF assms(1)] rbind_def split: sum.split)
  qed simp
  then show ?thesis by (simp add: top_it_alternative_basis_def candidates_same [OF assms])
qed

lemma entry_keys_year: "context_of e = key \<Longrightarrow> en_agreement e = fst key \<and> en_year e = fst (snd key) \<and> en_period e = snd (snd key)"
  by (auto simp: context_of_def)

text \<open>
  C38: what the workflow approves is what the accounts count: when a report is approved, an entry of it
  counts in the view of the database exactly when it has no active legal dispute, is not an old
  entry of the TOP IT kind outside higher education, and either every activity of the agreement is
  covered or the view itself finds the exemption of clause 22; and the code approves only reports
  whose activities are covered or for which it finds an exemption itself. (The two exemptions differ:
  see \<open>clause22_gap\<close>.)
\<close>

theorem approved_entries_count:
  assumes "ledger_ok db" "transition rq u key t fresh db = Inr db'" "tr_status t = ''approved''"
    "(i, e) \<in> set (lg_entries db')" "context_of e = key" "map_of (lg_agreements db') (fst key) = Some x"
  shows "(entry_eligible db' i e \<longleftrightarrow> \<not> list_ex (\<lambda>(_, d). active_in i d) (ev_disputes (lg_evidence db')) \<and> \<not> en_top_legacy e
      \<and> (scope_covered db' key \<or> am_kind x = ''education_organization'' \<and> view_exemption db' key))
    \<and> (scope_covered db' key \<or> am_kind x = ''education_organization''
        \<and> (\<exists>b. top_it_alternative_basis db' key = Inr (Some b)))"
proof (rule transition_cases [OF assms(2)])
  fix r r2 db2 db4
  assume set2: "sets_report key r2 db db2" and checked: "checked u key t r r2 (rq_now rq) db2"
    and after: "report_of db' key = Some (stamped (tr_status t) (trim_space (tr_comment t)) (au_id u) (rq_now rq) r2)"
    and others: "\<And>k. k \<noteq> key \<Longrightarrow> report_of db' k = report_of db k" and tables: "same_tables db db'"
  obtain w where w: "build_workflow db2 u key (rq_now rq) = Inr w" "wk_missing w = []" "manual_ok key w"
    using checked assms(3) by (auto simp: checked_def)
  have r2: "wk_report w = r2" using workflow_fields(1) [OF w(1)] sets_report_of [OF set2] by simp
  have same: "same_tables db2 db'" using set2 tables by (auto simp: sets_report_def same_tables_def)
  from nothing_missing [OF w(1,2)] same assms(6) obtain basis where c:
    "agreement_valid db2 x (fst (snd key))" "has_party db2 (fst key) ''cyberprotect''" "has_party db2 (fst key) ''counterparty''"
    "check_activities db2 key x = Inr (True, basis)"
    "snd (snd key) = ''fact'' \<longrightarrow> (uses_actual_costs db2 key \<longrightarrow> trim_space (rp_auditor r2) \<noteq> [] \<and> rp_costs r2)"
    by (auto simp: same_tables_def r2)
  have ok': "ledger_ok db'" using transition_ok [OF assms(2,1)] .
  have scope: "\<forall>(a, c) \<in> set (lg_scope db2). c \<in> set (map fst (lg_categories db2))"
    using ok' same by (auto simp: ledger_ok_def same_tables_def)
  have other2: "report_of db' k = report_of db2 k" if "fst k \<noteq> fst key" for k
    using others [of k] sets_report_of [OF set2, of k] that by auto
  have branch: "scope_covered db' key \<or> am_kind x = ''education_organization'' \<and> (\<exists>b. top_it_alternative_basis db' key = Inr (Some b))"
    using activities_done [OF c(4) scope] basis_same [OF same other2] same
    by (simp add: scope_covered_def covered_def same_tables_def)
  note at = entry_keys_year [OF assms(5)]
  have actual_fact: "en_method e = ''actual'' \<Longrightarrow> snd (snd key) = ''fact''"
    using ok' assms(4) at by (auto simp: ledger_ok_def entry_row_checks_def cost_checks_def)
  have costs: "en_method e = ''actual'' \<Longrightarrow> rp_costs r2 \<and> btrim (rp_auditor r2) \<noteq> []"
  proof -
    assume actual: "en_method e = ''actual''"
    then have "uses_actual_costs db2 key" using assms(4,5) same by (auto simp: uses_actual_costs_def list_ex_iff same_tables_def)
    then show ?thesis using c(5) actual_fact [OF actual] btrim_text by blast
  qed
  have manual: "rp_scope r2 \<and> rp_conditions r2 \<and> rp_evidence r2 \<and> (snd (snd key) = ''plan'' \<or> rp_counterparty r2)"
    using w(3) by (simp add: manual_ok_def r2 Let_def)
  let ?r = "stamped (tr_status t) (trim_space (tr_comment t)) (au_id u) (rq_now rq) r2"
  have "report_confirmed ?r e" using manual costs at assms(3) by (auto simp: report_confirmed_def stamped_def Let_def)
  moreover have "agreement_valid db' x (en_year e)" "has_party db' (en_agreement e) ''cyberprotect''"
    "has_party db' (en_agreement e) ''counterparty''"
    using c(1-3) same at by (simp_all add: agreement_valid_def has_party_def authority_active_def same_tables_def cong: option.case_cong)
  ultimately show ?thesis
    using branch after assms(5,6) at by (auto simp: entry_eligible_def agreement_valid_def)
qed

section \<open>Who may take a step\<close>

text \<open>
  C39: a step of a report is taken only by those it belongs to: each step starts from the one before it;
  reports are prepared, returned to their draft and approved only by staff whose role has that
  permission, and the verification of a fact report is recorded only by administrators and lawyers;
  an educational representative may only accept or return the prepared fact report of an agreement
  whose single partner is his own institution; whoever belongs to a company acts for its own
  agreements, whoever works for an organization belongs to one, its curators act for their own
  partner, and everybody else needs the right to read the data of tenants.
\<close>

theorem report_step_rights:
  assumes "transition rq u key t fresh db = Inr db'"
  shows "(tr_status t = ''ready'' \<longrightarrow> report_status db key = ''draft'' \<and> allows (au_role u) prepare_reports)
    \<and> (tr_status t = ''verified'' \<longrightarrow> report_status db key = ''ready''
        \<and> (snd (snd key) \<noteq> ''fact'' \<longrightarrow> allows (au_role u) prepare_reports)
        \<and> (snd (snd key) = ''fact'' \<and> au_entity u \<noteq> ''edu_institution'' \<longrightarrow> au_role u \<in> {''super_admin'', ''org_admin'', ''legal_specialist''}))
    \<and> (tr_status t = ''approved'' \<longrightarrow> report_status db key = ''verified'' \<and> allows (au_role u) approve_reports)
    \<and> (tr_status t = ''draft'' \<longrightarrow> report_status db key \<noteq> ''draft''
        \<and> (au_entity u \<noteq> ''edu_institution'' \<longrightarrow> allows (au_role u) prepare_reports))
    \<and> tr_status t \<in> {''draft'', ''ready'', ''verified'', ''approved''}
    \<and> (au_entity u = ''edu_institution'' \<longrightarrow> snd (snd key) = ''fact'' \<and> report_status db key = ''ready''
        \<and> tr_status t \<in> {''verified'', ''draft''} \<and> map fst (members_of db (fst key)) = [the (au_partner u)])
    \<and> (\<forall>c. au_company u = Some c \<longrightarrow> c = (case agreement_company (fst key) db of None \<Rightarrow> [] | Some x \<Rightarrow> x))
    \<and> (au_entity u = ''organization'' \<longrightarrow> au_company u \<noteq> None)
    \<and> (au_entity u = ''organization'' \<and> au_role u = ''curator'' \<longrightarrow>
        the (au_partner u) \<in> set (map fst (members_of db (fst key))))
    \<and> (au_entity u \<noteq> ''edu_institution'' \<and> \<not> (au_entity u = ''organization'' \<and> au_role u = ''curator'') \<longrightarrow> can_read_tenant_data u)"
proof (rule transition_cases [OF assms])
  fix r r2 db2 db4
  assume reach: "require_agreement db u (fst key) = Inr ()"
    and single: "is_education_representative u \<Longrightarrow> length (members_of db (fst key)) = 1"
    and before: "report_of db key = Some r \<or> report_of db key = None \<and> r = draft_report (au_id u)"
    and allowed: "transition_allowed u (snd (snd key)) (rp_status r) (tr_status t)"
  have status: "rp_status r = report_status db key" using before by (auto simp: report_status_def draft_report_def)
  obtain p primary where p: "(p, primary) \<in> set (members_of db (fst key))" "can_access_partner u p"
      "tenant_allowed u (agreement_company (fst key) db)"
    using reach by (auto simp: require_agreement_def list_ex_iff split: if_splits)
  have edu: "snd (snd key) = ''fact'' \<and> rp_status r = ''ready'' \<and> tr_status t \<in> {''verified'', ''draft''}
      \<and> map fst (members_of db (fst key)) = [the (au_partner u)]" if "au_entity u = ''edu_institution''"
  proof -
    have own: "au_partner u = Some p \<and> p \<noteq> []" using p(2) that by (simp add: can_access_partner_def split: if_splits)
    then have "is_education_representative u" using that by (simp add: is_education_representative_def)
    then have "members_of db (fst key) = [(p, primary)]" using single p(1) by (auto simp: length_Suc_conv)
    moreover have "\<not> can_prepare_reports u" "\<not> can_approve_reports u" using that by (simp_all add: can_prepare_reports_def can_approve_reports_def)
    ultimately show ?thesis using allowed own that
      by (simp add: transition_allowed_def can_review_report_def split: if_splits)
  qed
  have company: "c = (case agreement_company (fst key) db of None \<Rightarrow> [] | Some x \<Rightarrow> x)" if "au_company u = Some c" for c
    using p(3) that by (simp add: tenant_allowed_def)
  have employed: "au_company u \<noteq> None" if "au_entity u = ''organization''"
    using p(3) that by (auto simp: tenant_allowed_def split: option.splits)
  have others: "can_read_tenant_data u" if "au_entity u \<noteq> ''edu_institution''" "\<not> (au_entity u = ''organization'' \<and> au_role u = ''curator'')"
    using p(2) that by (simp add: can_access_partner_def split: if_splits)
  have curator: "the (au_partner u) \<in> set (map fst (members_of db (fst key)))"
    if "au_entity u = ''organization''" "au_role u = ''curator''"
    using p(1,2) that by (force simp: can_access_partner_def)
  have ready: "tr_status t = ''ready'' \<longrightarrow> rp_status r = ''draft'' \<and> allows (au_role u) prepare_reports"
    and approved: "tr_status t = ''approved'' \<longrightarrow> rp_status r = ''verified'' \<and> allows (au_role u) approve_reports"
    and verified: "tr_status t = ''verified'' \<longrightarrow> rp_status r = ''ready'' \<and> can_review_report u (snd (snd key))"
    and draft: "tr_status t = ''draft'' \<longrightarrow> rp_status r \<noteq> ''draft'' \<and> (can_prepare_reports u \<or> is_education_representative u)"
    and known: "tr_status t \<in> {''draft'', ''ready'', ''verified'', ''approved''}"
    using allowed by (auto simp: transition_allowed_def can_prepare_reports_def can_approve_reports_def split: if_splits)
  have prepares: "can_prepare_reports u \<Longrightarrow> allows (au_role u) prepare_reports"
    by (simp add: can_prepare_reports_def split: if_splits)
  have review: "can_review_report u (snd (snd key)) \<Longrightarrow> (snd (snd key) \<noteq> ''fact'' \<longrightarrow> allows (au_role u) prepare_reports)
      \<and> (snd (snd key) = ''fact'' \<and> au_entity u \<noteq> ''edu_institution'' \<longrightarrow> au_role u \<in> {''super_admin'', ''org_admin'', ''legal_specialist''})"
    using prepares by (auto simp: can_review_report_def is_education_representative_def split: if_splits)
  have returned: "can_prepare_reports u \<or> is_education_representative u \<Longrightarrow> au_entity u \<noteq> ''edu_institution'' \<longrightarrow> allows (au_role u) prepare_reports"
    using prepares by (auto simp: is_education_representative_def)
  show ?thesis unfolding status [symmetric]
    by (intro conjI) (use ready in blast, use verified review in blast, use approved in blast, use draft returned in blast, rule known,
      use edu in blast, use company in blast, use employed in blast, use curator in blast, use others in blast)
qed

section \<open>Tasks follow the report\<close>

definition open_for :: "string \<Rightarrow> report_key \<Rightarrow> task_db \<Rightarrow> (string \<times> task) list" where
  "open_for kind key tdb = filter (\<lambda>(_, t). same_subject kind report_subject_type (report_subject key) t) (td_tasks tdb)"

lemma closing_subject:
  assumes "tasks_ok tdb" "close_by_subject kind s subject status who now tdb = Inr (n, tdb')"
    "(j, u) \<in> set (td_tasks tdb')" "tk_status u = open_status"
  shows "(j, u) \<in> set (td_tasks tdb) \<and> \<not> same_subject kind s subject u"
proof -
  have one: "one_open (td_tasks tdb)" using assms(1) by (simp add: tasks_ok_def)
  have fold: "fold_result (close_one status who now) (filter (\<lambda>(i, t). same_subject kind s subject t) (td_tasks tdb)) tdb = Inr tdb'"
    and status: "status = done_status \<or> status = cancelled_status"
    using assms(2) by (auto simp: close_by_subject_def Let_def rbind_Inr split: if_splits)
  from found_single [OF one, of kind s subject] show ?thesis
  proof (elim disjE exE conjE)
    assume none: "filter (\<lambda>(i, t). same_subject kind s subject t) (td_tasks tdb) = []"
    then have "tdb' = tdb" using fold by simp
    then show ?thesis using none assms(3) by (auto simp: filter_empty_conv)
  next
    fix i t
    assume f: "filter (\<lambda>(i, t). same_subject kind s subject t) (td_tasks tdb) = [(i, t)]" "map_of (td_tasks tdb) i = Some t"
    then have "close_one status who now (i, t) tdb = Inr tdb'" using fold by (simp add: rbind_Inr)
    moreover define t' where "t' = (if status = done_status
        then t\<lparr>tk_status := done_status, tk_completed_by := who, tk_completed := Some now\<rparr> else t\<lparr>tk_status := cancelled_status\<rparr>)"
    ultimately have "td_tasks tdb' = AList.update i t' (td_tasks tdb)"
      by (auto simp: close_one_def rbind_Inr put_task_def insert_event_def split: if_splits)
    moreover have "tk_status t' = status" using status by (auto simp: t'_def)
    ultimately have t': "td_tasks tdb' = AList.update i t' (td_tasks tdb)" "tk_status t' = status" by simp_all
    have d: "distinct (map fst (td_tasks tdb))" using one by (simp add: one_open_def)
    have "status \<noteq> open_status" using status by (auto simp: done_status_def cancelled_status_def open_status_def)
    moreover have at_j: "map_of (td_tasks tdb') j = Some u" using assms(3) t'(1) distinct_update [OF d, of i t'] by simp
    ultimately have "j \<noteq> i" using assms(4) t' by (auto simp: update_conv)
    with at_j have old: "(j, u) \<in> set (td_tasks tdb)" using t'(1) by (simp add: map_of_update_other map_of_SomeD)
    have "(j, u) \<notin> set [(i, t)]" using \<open>j \<noteq> i\<close> by simp
    then show ?thesis using old unfolding f(1) [symmetric] by simp
  qed
qed

lemma open_for_empty: "open_for kind key tdb = [] \<longleftrightarrow>
    (\<forall>(j, u) \<in> set (td_tasks tdb). tk_status u = open_status \<longrightarrow> \<not> same_subject kind report_subject_type (report_subject key) u)"
  by (auto simp: open_for_def filter_empty_conv same_subject_def)

lemma close_report:
  assumes "close_report_task kind result who key now db = Inr db'" "tasks_ok (lg_tasks db)"
  shows "tasks_ok (lg_tasks db')" "open_for kind key (lg_tasks db') = []"
    "open_for other key (lg_tasks db) = [] \<Longrightarrow> open_for other key (lg_tasks db') = []"
proof -
  obtain n where c: "close_by_subject kind report_subject_type (report_subject key) result who now (lg_tasks db) = Inr (n, lg_tasks db')"
    using assms(1) by (auto simp: close_report_task_def split: sum.splits)
  show "tasks_ok (lg_tasks db')" using close_ok [OF assms(2) c] .
  note closed = closing_subject [OF assms(2) c]
  show "open_for kind key (lg_tasks db') = []" unfolding open_for_empty using closed by blast
  show "open_for other key (lg_tasks db) = [] \<Longrightarrow> open_for other key (lg_tasks db') = []"
    unfolding open_for_empty using closed by blast
qed

definition task_kind :: "string \<Rightarrow> string" where
  "task_kind state = (if state = ''ready'' then report_verify else report_approve)"

lemma open_report:
  assumes "open_report_task rq who key state fresh db = Inr db'" "tasks_ok (lg_tasks db)"
    "map_of (lg_agreements db) (fst key) = Some x" "am_company x = Some company" "trim_space (report_subject key) = report_subject key"
  shows "tasks_ok (lg_tasks db')" "open_for (task_kind state) key (lg_tasks db') \<noteq> []"
    "other \<noteq> task_kind state \<Longrightarrow> open_for other key (lg_tasks db') = open_for other key (lg_tasks db)"
proof -
  let ?n = "next_task db who key state x company"
  have n: "nt_kind ?n = task_kind state" "nt_subject_type ?n = report_subject_type" "trim_space (nt_subject ?n) = report_subject key"
    using assms(5) by (simp_all add: next_task_def Let_def task_kind_def)
  obtain i created tdb where d: "dispatch ?n fresh (rq_now rq) (lg_tasks db) = Inr (i, created, tdb)"
    and same: "lg_tasks db' = (if created then tdb else lg_tasks db)"
    using assms(1,3,4) audit_ledger_frame
    by (fastforce simp: open_report_task_def split: sum.splits prod.splits bool.splits)
  note ok = dispatch_ok [OF assms(2) d]
  from d have "tasks_ok (lg_tasks db') \<and> open_for (task_kind state) key (lg_tasks db') \<noteq> []
    \<and> (other \<noteq> task_kind state \<longrightarrow> open_for other key (lg_tasks db') = open_for other key (lg_tasks db))"
  proof (cases rule: dispatch_cases)
    case (1 t)
    then have "(i, t) \<in> set (open_for (task_kind state) key (lg_tasks db))" by (simp add: open_for_def n)
    then show ?thesis using same 1(1) assms(2) by auto
  next
    case (2 e)
    let ?row = "new_row ?n (decided ?n (rq_now rq) (lg_tasks db)) (rq_now rq)"
    have same_db: "lg_tasks db' = tdb" using 2(1) same by simp
    have tasks: "td_tasks tdb = td_tasks (lg_tasks db) @ [(fresh, ?row)]" using 2(7) by simp
    have row: "same_subject kind report_subject_type (report_subject key) ?row \<longleftrightarrow> kind = task_kind state" for kind
      using n by (auto simp: same_subject_def)
    show ?thesis using ok unfolding same_db by (simp add: open_for_def tasks row)
  qed
  then show "tasks_ok (lg_tasks db')" "open_for (task_kind state) key (lg_tasks db') \<noteq> []"
    "other \<noteq> task_kind state \<Longrightarrow> open_for other key (lg_tasks db') = open_for other key (lg_tasks db)" by blast+
qed

lemma kinds_differ: "report_verify \<noteq> report_approve"
  by (simp add: report_verify_def report_approve_def)

lemma one_task:
  assumes "tasks_ok tdb" "open_for kind key tdb \<noteq> []"
  shows "length (open_for kind key tdb) = 1"
proof -
  have "one_open (td_tasks tdb)" using assms(1) by (simp add: tasks_ok_def)
  from found_single [OF this, of kind report_subject_type "report_subject key"] show ?thesis
    using assms(2) by (auto simp: open_for_def)
qed

text \<open>
  C40: the next step of a report is always somebody's task: after a report of a company's agreement was
  prepared, exactly one open task asks for its verification; after it was verified, that task is
  closed and exactly one asks for its approval; after it was approved or returned by hand, none of
  the two is left. Preparing a report opens and closes no task of approval: the only one that may be
  open then was left by an automatic reset of the approval, which closes nothing.
\<close>

theorem tasks_follow_report:
  assumes "transition rq u key t fresh db = Inr db'" "tasks_ok (lg_tasks db)" "map_of (lg_agreements db) (fst key) = Some x"
    "am_company x = Some company" "trim_space (report_subject key) = report_subject key"
  shows "tasks_ok (lg_tasks db')
    \<and> (tr_status t = ''ready'' \<longrightarrow> length (open_for report_verify key (lg_tasks db')) = 1
        \<and> open_for report_approve key (lg_tasks db') = open_for report_approve key (lg_tasks db))
    \<and> (tr_status t = ''verified'' \<longrightarrow> open_for report_verify key (lg_tasks db') = [] \<and> length (open_for report_approve key (lg_tasks db')) = 1)
    \<and> (tr_status t = ''approved'' \<or> tr_status t = ''draft'' \<longrightarrow>
        open_for report_verify key (lg_tasks db') = [] \<and> open_for report_approve key (lg_tasks db') = [])"
proof (rule transition_cases [OF assms(1)])
  fix r r2 db2 db4
  assume allowed: "transition_allowed u (snd (snd key)) (rp_status r) (tr_status t)" and tables: "same_tables db db4"
    and tasks: "lg_tasks db4 = lg_tasks db" and sync: "sync_report_tasks rq (au_id u) key (tr_status t) fresh db4 = Inr db'"
  have ok4: "tasks_ok (lg_tasks db4)" and at4: "map_of (lg_agreements db4) (fst key) = Some x"
    using assms(2,3) tasks tables by (simp_all add: same_tables_def)
  show ?thesis using allowed_status [OF allowed]
  proof (elim disjE conjE)
    assume target: "tr_status t = ''ready''"
    then have "open_report_task rq (au_id u) key ''ready'' fresh db4 = Inr db'" using sync by (simp add: sync_report_tasks_def)
    note op = open_report [OF this ok4 at4 assms(4,5)]
    have "length (open_for report_verify key (lg_tasks db')) = 1" using one_task [OF op(1)] op(2) by (simp add: task_kind_def)
    moreover have "open_for report_approve key (lg_tasks db') = open_for report_approve key (lg_tasks db)"
      using op(3) [of report_approve] kinds_differ tasks by (simp add: task_kind_def)
    ultimately show ?thesis using op(1) by (simp add: target)
  next
    assume target: "tr_status t = ''verified''"
    then obtain db5 where c: "close_report_task report_verify done_status (au_id u) key (rq_now rq) db4 = Inr db5"
      and opened: "open_report_task rq (au_id u) key ''verified'' fresh db5 = Inr db'"
      using sync by (auto simp: sync_report_tasks_def result_simps)
    have at5: "map_of (lg_agreements db5) (fst key) = Some x"
      using only_traces_fields [OF close_report_task_frame [OF c]] at4 by (simp add: same_tables_def)
    note c5 = close_report [OF c ok4]
    note op = open_report [OF opened c5(1) at5 assms(4,5)]
    have "length (open_for report_approve key (lg_tasks db')) = 1" using one_task [OF op(1)] op(2) by (simp add: task_kind_def)
    moreover have "open_for report_verify key (lg_tasks db') = []"
      using op(3) [of report_verify] c5(2) kinds_differ by (simp add: task_kind_def)
    ultimately show ?thesis using op(1) by (simp add: target)
  next
    assume target: "tr_status t = ''approved''"
    then obtain db5 where c: "close_report_task report_verify done_status (au_id u) key (rq_now rq) db4 = Inr db5"
      and c': "close_report_task report_approve done_status (au_id u) key (rq_now rq) db5 = Inr db'"
      using sync by (auto simp: sync_report_tasks_def result_simps)
    note c5 = close_report [OF c ok4]
    from close_report [OF c' c5(1)] c5(2) show ?thesis by (simp add: target)
  next
    assume target: "tr_status t = ''draft''"
    then obtain db5 where c: "close_report_task report_verify cancelled_status (au_id u) key (rq_now rq) db4 = Inr db5"
      and c': "close_report_task report_approve cancelled_status (au_id u) key (rq_now rq) db5 = Inr db'"
      using sync by (auto simp: sync_report_tasks_def result_simps)
    note c5 = close_report [OF c ok4]
    from close_report [OF c' c5(1)] c5(2) show ?thesis by (simp add: target)
  qed
qed

end
