(* ===== verification/TextCode.thy ===== *)
theory TextCode
  imports GoText
begin

text \<open>
  Runes as integers: the same decoding, which evaluates on binary numerals. The code equations of the
  text functions use it, so that texts outside ASCII can be evaluated by the simplifier.
\<close>

definition between_int :: "int \<Rightarrow> int \<Rightarrow> int \<Rightarrow> bool" where
  "between_int lo hi x = (lo \<le> x \<and> x \<le> hi)"

definition second_point_ok :: "int \<Rightarrow> int \<Rightarrow> bool" where
  "second_point_ok a b =
     (if a = 0xE0 then between_int 0xA0 0xBF b
      else if a = 0xED then between_int 0x80 0x9F b
      else if a = 0xF0 then between_int 0x90 0xBF b
      else if a = 0xF4 then between_int 0x80 0x8F b
      else between_int 0x80 0xBF b)"

fun decode_point :: "int list \<Rightarrow> int \<times> nat" where
  "decode_point [] = (0xFFFD, 0)"
| "decode_point (a # s) =
     (if a < 0x80 then (a, 1)
      else if between_int 0xC2 0xDF a then
        (case s of b # _ \<Rightarrow> if second_point_ok a b then ((a - 0xC0) * 64 + (b - 0x80), 2) else (0xFFFD, 1)
         | _ \<Rightarrow> (0xFFFD, 1))
      else if between_int 0xE0 0xEF a then
        (case s of b # c # _ \<Rightarrow>
           if second_point_ok a b \<and> between_int 0x80 0xBF c
           then ((a - 0xE0) * 4096 + (b - 0x80) * 64 + (c - 0x80), 3) else (0xFFFD, 1)
         | _ \<Rightarrow> (0xFFFD, 1))
      else if between_int 0xF0 0xF4 a then
        (case s of b # c # d # _ \<Rightarrow>
           if second_point_ok a b \<and> between_int 0x80 0xBF c \<and> between_int 0x80 0xBF d
           then ((a - 0xF0) * 262144 + (b - 0x80) * 4096 + (c - 0x80) * 64 + (d - 0x80), 4) else (0xFFFD, 1)
         | _ \<Rightarrow> (0xFFFD, 1))
      else (0xFFFD, 1))"

declare decode_point.simps [simp del]

lemma between_nat: "between_int (numeral lo) (numeral hi) (int x) \<longleftrightarrow> in_range (numeral lo) (numeral hi) x"
  by (simp add: in_range_def between_int_def)

lemma small_nat: "int x < numeral n \<longleftrightarrow> x < numeral n"
  by simp

lemma second_nat: "second_point_ok (int a) (int b) = second_ok a b"
  by (simp add: second_ok_def second_point_ok_def between_nat)

lemma second_ge: "second_ok a b \<Longrightarrow> 0x80 \<le> b"
  by (simp add: second_ok_def in_range_def split: if_splits)

lemma decode2_int: "in_range 0xC2 0xDF a \<Longrightarrow> second_ok a b \<Longrightarrow> int (decode2 a b) = (int a - 0xC0) * 64 + (int b - 0x80)"
  using second_ge [of a b] by (simp add: decode2_def in_range_def of_nat_diff)

lemma decode3_int: "in_range 0xE0 0xEF a \<Longrightarrow> second_ok a b \<Longrightarrow> in_range 0x80 0xBF c \<Longrightarrow>
    int (decode3 a b c) = (int a - 0xE0) * 4096 + (int b - 0x80) * 64 + (int c - 0x80)"
  using second_ge [of a b] by (simp add: decode3_def in_range_def of_nat_diff)

lemma decode4_int: "in_range 0xF0 0xF4 a \<Longrightarrow> second_ok a b \<Longrightarrow> in_range 0x80 0xBF c \<Longrightarrow> in_range 0x80 0xBF d \<Longrightarrow>
    int (decode4 a b c d) = (int a - 0xF0) * 262144 + (int b - 0x80) * 4096 + (int c - 0x80) * 64 + (int d - 0x80)"
  using second_ge [of a b] by (simp add: decode4_def in_range_def of_nat_diff)

lemmas point_steps = decode_point.simps decode_rune.simps between_nat small_nat second_nat rune_error_def

lemma decode_point_int: "decode_point (map int s) = (case decode_rune s of (r, n) \<Rightarrow> (int r, n))"
proof (cases s)
  case (Cons a t)
  show ?thesis
  proof (cases t)
    case Nil
    then show ?thesis by (simp add: Cons point_steps)
  next
    case tail: (Cons b u)
    show ?thesis
    proof (cases u)
      case Nil
      then show ?thesis using Cons tail by (simp add: point_steps decode2_int)
    next
      case third: (Cons c v)
      then show ?thesis using Cons tail by (cases v) (simp_all add: point_steps decode2_int decode3_int decode4_int)
    qed
  qed
qed (simp add: point_steps)

fun points :: "string \<Rightarrow> (int \<times> string) list" where
  "points [] = []"
| "points (c # s) =
     (let (r, n) = decode_point (map of_char (take 4 (c # s)))
      in (r, c # take (n - 1) s) # points (drop (n - 1) s))"

lemma of_char_points: "map of_char s = map int (map of_char s)"
  by (simp add: of_nat_of_char)

lemma points_runes: "points s = map (\<lambda>(r, b). (int r, b)) (runes s)"
proof (induction s rule: runes.induct)
  case (2 c s)
  obtain r n where d: "decode_rune (map of_char (take 4 (c # s))) = (r, n)" by fastforce
  have p: "decode_point (map of_char (take 4 (c # s))) = (int r, n)"
    using decode_point_int [of "map of_char (take 4 (c # s))"] unfolding d prod.case of_char_points [of "take 4 (c # s)"] .
  have "points (c # s) = (int r, c # take (n - 1) s) # points (drop (n - 1) s)" unfolding points.simps Let_def p by simp
  moreover have "runes (c # s) = (r, c # take (n - 1) s) # runes (drop (n - 1) s)" unfolding runes.simps Let_def d by simp
  ultimately show ?case using 2 [OF d [symmetric]] by simp
qed simp

lemma rune_count_code [code]: "rune_count s = length (points s)"
  by (simp add: rune_count_def points_runes)

lemma drop_points: "dropWhile (is_space_point \<circ> fst) (map (\<lambda>(r, b). (int r, b)) rs)
    = map (\<lambda>(r, b). (int r, b)) (dropWhile (is_space_rune \<circ> fst) rs)"
  by (induction rs) (auto simp: is_space_rune_def)

lemma snd_points: "map snd (map (\<lambda>(r, b). (int r, b)) rs) = map snd rs"
  by (induction rs) auto

lemma trim_space_code [code]: "trim_space s = concat (map snd (rev (dropWhile (is_space_point \<circ> fst)
    (rev (dropWhile (is_space_point \<circ> fst) (points s))))))"
  unfolding trim_space_def points_runes drop_points rev_map snd_points ..

lemma points_value: "trim_space (utf8 [32, 1055, 1088, 32, 8470, 32]) = utf8 [1055, 1088, 32, 8470]"
  by code_simp

end
