(* ===== verification/ReportCases.thy ===== *)
theory ReportCases
  imports ReportProperties TaskProperties TextCode
begin

text \<open>
  A company with two agreements: the cases at which the properties of reports are applied, and the case
  in which the code and the view of the database disagree.
\<close>

definition plan_entry :: "string \<Rightarrow> string \<Rightarrow> string \<Rightarrow> entry" where
  "plan_entry category partner agreement = \<lparr>en_category = category, en_partner = partner, en_agreement = agreement,
     en_period = ''plan'', en_year = 2023, en_audience = [], en_payload = [], en_amount = 100, en_formula = 100,
     en_actual = None, en_method = ''average'', en_company = ''c1'', en_staff = [], en_created_by = ''u1'',
     en_updated_by = None, en_top_legacy = False, en_tariffs = [], en_copied_from = []\<rparr>"

definition education_agreement :: "string \<Rightarrow> agreement" where
  "education_agreement number = \<lparr>am_kind = ''education_organization'', am_number = number, am_status = ''active'',
     am_from = day_number (2020, 1, 1), am_until = day_number (2030, 1, 1), am_company = Some ''c1'', am_authority = None\<rparr>"

definition report_categories :: "(string \<times> category_row) list" where
  "report_categories = map (\<lambda>c. (c, \<lparr>cg_name = c, cg_audiences = []\<rparr>)) [''top_it'', ''it_clubs'', ''teachers'', ''ood_rpd'']"

definition report_desk :: ledger where
  "report_desk = \<lparr>lg_evidence = empty_evidence\<lparr>ev_tenants := \<lparr>td_partners = [(''p1'', Some ''c1''), (''p2'', Some ''c1'')],
       td_entries = [(''e1'', ''top_it'', Some ''p1'')]\<rparr>\<rparr>, lg_tasks = office\<lparr>td_staff := (td_staff office)\<lparr>sd_partners := [(''p1'', ''c1''), (''p2'', ''c1'')]\<rparr>\<rparr>,
     lg_partners = [(''p1'', \<lparr>pt_name = ''P1'', pt_kind = ''college''\<rparr>), (''p2'', \<lparr>pt_name = ''P2'', pt_kind = ''vuz''\<rparr>)],
     lg_authorities = [], lg_agreements = [(''g1'', education_agreement ''1''), (''g2'', education_agreement ''2'')],
     lg_members = [(''g1'', ''p1'', True), (''g2'', ''p2'', True)],
     lg_people = concat (map (\<lambda>g. [(g, ''cyberprotect''), (g, ''counterparty'')]) [''g1'', ''g2'']),
     lg_scope = [(''g1'', ''top_it''), (''g2'', ''teachers''), (''g2'', ''ood_rpd'')], lg_categories = report_categories,
     lg_entries = [(''e1'', plan_entry ''top_it'' ''p1'' ''g1''), (''e2'', plan_entry ''teachers'' ''p2'' ''g2''),
       (''e3'', plan_entry ''ood_rpd'' ''p2'' ''g2'')],
     lg_reports = [], lg_history = []\<rparr>"

definition step_to :: "string \<Rightarrow> transition_request" where
  "step_to state = \<lparr>tr_status = state, tr_scope = True, tr_conditions = True, tr_evidence = True, tr_costs = False, tr_auditor = [],
     tr_comment = ''ok''\<rparr>"

definition move_report :: "string \<Rightarrow> string \<Rightarrow> ledger_command" where
  "move_report agreement state = Transition (at_noon\<lparr>rq_now := 0\<rparr>) company_admin (agreement, 2023, ''plan'') (step_to state) (agreement @ state)"

definition first_report :: report_key where
  "first_report = (''g1'', 2023, ''plan'')"

definition second_report :: report_key where
  "second_report = (''g2'', 2023, ''plan'')"

definition verified_report :: report where
  "verified_report = (draft_report ''u1'')\<lparr>rp_status := ''verified'', rp_scope := True, rp_conditions := True, rp_evidence := True,
     rp_ready := Some (''u1'', 0), rp_verified := Some (''u1'', 0)\<rparr>"

definition approved_report :: report where
  "approved_report = verified_report\<lparr>rp_status := ''approved'', rp_approved := Some (''u1'', 0)\<rparr>"

definition past_steps :: "report_key \<Rightarrow> (string \<times> string) list \<Rightarrow> report_event list" where
  "past_steps key steps = map (\<lambda>(a, b). \<lparr>re_key = key, re_from = a, re_to = b, re_comment = ''ok'', re_by = ''u1'', re_at = 0\<rparr>) steps"

definition verified_desk :: ledger where
  "verified_desk = report_desk\<lparr>lg_reports := [(first_report, verified_report)],
     lg_history := past_steps first_report [(''draft'', ''ready''), (''ready'', ''verified'')]\<rparr>"

definition gap_desk :: ledger where
  "gap_desk = report_desk\<lparr>lg_scope := (''g1'', ''it_clubs'') # lg_scope report_desk,
     lg_reports := [(first_report, verified_report), (second_report, approved_report)]\<rparr>"

definition report_states where
  "report_states db = map (\<lambda>(k, r). (k, rp_status r)) (lg_reports db)"

definition counted_entries where
  "counted_entries db = map (\<lambda>(i, e). (i, entry_eligible db i e)) (lg_entries db)"

lemma desk_tables: "\<forall>(i, e) \<in> set (lg_entries report_desk). entry_row_checks e"
    "\<forall>(a, c) \<in> set (lg_scope report_desk). c \<in> set (map fst (lg_categories report_desk))"
  by (simp_all add: report_desk_def report_categories_def plan_entry_def entry_row_checks_def cost_checks_def)

lemma report_desk_ok: "ledger_ok report_desk"
proof -
  have "report_ok report_desk key" for key by (simp add: report_ok_def report_of_def report_desk_def)
  then show ?thesis using desk_tables by (simp add: ledger_ok_def) (simp add: report_desk_def)
qed

lemma verified_desk_ok: "ledger_ok verified_desk"
proof -
  have "report_row_ok first_report verified_report"
    by (simp add: report_row_ok_def blank_def confirmed_def verified_report_def draft_report_def first_report_def)
  moreover have "follows (path_of verified_report) (trail_of (lg_history verified_desk) first_report)"
    unfolding follows_def
    by (intro exI [of _ "[]"] exI [of _ "lg_history verified_desk"])
      (simp add: path_of_def trail_of_def verified_report_def draft_report_def verified_desk_def past_steps_def step_event_def)
  ultimately have "report_ok verified_desk key" for key
    by (simp add: report_ok_def report_of_def) (simp add: verified_desk_def)
  then show ?thesis using desk_tables by (simp add: ledger_ok_def) (simp add: verified_desk_def)
qed

lemma verified_desk_costs: "costs_ok verified_desk"
proof -
  have "\<not> uses_actual_costs verified_desk key" for key
    by (simp add: uses_actual_costs_def verified_desk_def report_desk_def plan_entry_def)
  then show ?thesis by (simp add: costs_ok_def)
qed

lemma verified_run:
  "report_states (reached plain_env [move_report ''g1'' ''approved''] verified_desk) = [(first_report, ''approved'')]"
  by code_simp

lemma gap_run:
  "report_states (reached plain_env [move_report ''g1'' ''approved''] gap_desk) = [(first_report, ''approved''), (second_report, ''approved'')]
    \<and> counted_entries (reached plain_env [move_report ''g1'' ''approved''] gap_desk) = [(''e1'', False), (''e2'', True), (''e3'', True)]"
  by code_simp

lemma moved:
  assumes "report_states (reached env [move_report a state] db) \<noteq> report_states db"
  shows "\<exists>db'. transition (at_noon\<lparr>rq_now := 0\<rparr>) company_admin (a, 2023, ''plan'') (step_to state) (a @ state) db = Inr db'
    \<and> reached env [move_report a state] db = db'"
proof (cases "ledger_step env (move_report a state) db")
  case (Inl e)
  then show ?thesis using assms by (simp add: reached_def)
next
  case (Inr db')
  then show ?thesis by (simp add: reached_def) (simp add: ledger_step_def move_report_def)
qed

lemma verified_states: "report_states verified_desk = [(first_report, ''verified'')]"
  by (simp add: report_states_def verified_desk_def verified_report_def)

lemma approving_step:
  "\<exists>db'. transition (at_noon\<lparr>rq_now := 0\<rparr>) company_admin first_report (step_to ''approved'') ''g1approved'' verified_desk = Inr db'
    \<and> reached plain_env [move_report ''g1'' ''approved''] verified_desk = db'"
  using moved [of plain_env "''g1''" "''approved''" verified_desk] verified_run verified_states by (simp add: first_report_def)

text \<open>
  What the view of the database and the code say of clause 22 differs: the report of the first agreement is
  approved, because the second one shows teachers and programmes, and its entry does not count, because
  the view also asks for an internship and a decision of the ministry.
\<close>

theorem clause22_gap:
  "\<exists>db'. transition (at_noon\<lparr>rq_now := 0\<rparr>) company_admin first_report (step_to ''approved'') ''g1approved'' gap_desk = Inr db'
    \<and> report_states db' = [(first_report, ''approved''), (second_report, ''approved'')]
    \<and> counted_entries db' = [(''e1'', False), (''e2'', True), (''e3'', True)]"
proof -
  have "report_states gap_desk = [(first_report, ''verified''), (second_report, ''approved'')]"
    by (simp add: report_states_def gap_desk_def verified_report_def approved_report_def)
  then show ?thesis using moved [of plain_env "''g1''" "''approved''" gap_desk] gap_run by (auto simp: first_report_def)
qed

section \<open>The properties at these cases\<close>

lemma report_of_states: "map_of (report_states db) key = map_option rp_status (report_of db key)"
  unfolding report_states_def report_of_def by (induction "lg_reports db") (auto simp: map_of_map)

theorem approved_report_path_witness:
  "\<exists>r pre e1 e2 e3. report_of (reached plain_env [move_report ''g1'' ''approved''] verified_desk) first_report = Some r
    \<and> filter (\<lambda>e. re_key e = first_report) (lg_history (reached plain_env [move_report ''g1'' ''approved''] verified_desk)) = pre @ [e1, e2, e3]
    \<and> rp_approved r = Some (re_by e3, re_at e3)"
proof -
  have "map_option rp_status (report_of (reached plain_env [move_report ''g1'' ''approved''] verified_desk) first_report) = Some ''approved''"
    using report_of_states [of "reached plain_env [move_report ''g1'' ''approved''] verified_desk" first_report] verified_run by simp
  then obtain r where "report_of (reached plain_env [move_report ''g1'' ''approved''] verified_desk) first_report = Some r"
    "rp_status r = ''approved''" by blast
  then show ?thesis using approved_report_path [OF verified_desk_ok verified_desk_costs, of plain_env "[move_report ''g1'' ''approved'']" first_report r] by blast
qed

definition dearer_entry :: entry where
  "dearer_entry = (plan_entry ''top_it'' ''p1'' ''g1'')\<lparr>en_amount := 200, en_formula := 200\<rparr>"

lemma dearer_stored: "\<exists>db1. store_entry ''e1'' dearer_entry 0 verified_desk = Inr db1"
  by (simp add: store_entry_def dearer_entry_def plan_entry_def verified_desk_def report_desk_def enforce_entry_tenant_def
    agreement_company_def partner_company_def education_agreement_def entry_row_checks_def cost_checks_def entry_keys_def
    report_categories_def empty_evidence_def entry_actor_def)

theorem change_withdraws_report_witness:
  "\<exists>db1. store_entry ''e1'' dearer_entry 0 verified_desk = Inr db1 \<and> report_status db1 first_report = ''draft''
    \<and> (\<forall>(j, x) \<in> set (lg_entries (reached plain_env [move_report ''g1'' ''ready''] db1)). context_of x = first_report \<longrightarrow>
        \<not> entry_eligible (reached plain_env [move_report ''g1'' ''ready''] db1) j x)"
proof -
  obtain db1 where s: "store_entry ''e1'' dearer_entry 0 verified_desk = Inr db1" using dearer_stored by blast
  have "first_report = context_of dearer_entry" by (simp add: first_report_def context_of_def dearer_entry_def plan_entry_def)
  moreover have "\<forall>c \<in> set [move_report ''g1'' ''ready'']. \<not> approves first_report c"
    by (simp add: approves_def move_report_def step_to_def)
  ultimately show ?thesis using change_withdraws_report [OF verified_desk_ok s] s by blast
qed

theorem approved_entries_count_witness:
  "\<exists>db'. transition (at_noon\<lparr>rq_now := 0\<rparr>) company_admin first_report (step_to ''approved'') ''g1approved'' verified_desk = Inr db'
    \<and> entry_eligible db' ''e1'' (plan_entry ''top_it'' ''p1'' ''g1'')"
proof -
  obtain db' where t: "transition (at_noon\<lparr>rq_now := 0\<rparr>) company_admin first_report (step_to ''approved'') ''g1approved'' verified_desk = Inr db'"
    using approving_step by blast
  from t have same: "same_tables verified_desk db'" by (rule transition_cases)
  then have e: "(''e1'', plan_entry ''top_it'' ''p1'' ''g1'') \<in> set (lg_entries db')"
    "map_of (lg_agreements db') (fst first_report) = Some (education_agreement ''1'')" "lg_scope db' = lg_scope report_desk"
    by (simp_all add: same_tables_def verified_desk_def report_desk_def first_report_def)
  have "covered verified_desk first_report ''top_it''"
    by (simp add: covered_def verified_desk_def report_desk_def plan_entry_def context_of_def first_report_def)
  moreover have "covered db' = covered verified_desk" using same by (intro covered_same) (simp add: same_tables_def)
  ultimately have "covered db' first_report ''top_it''" by simp
  then have "scope_covered db' first_report" unfolding scope_covered_def e(3)
    by (simp add: report_desk_def first_report_def)
  moreover have "ev_disputes (lg_evidence db') = []"
  proof -
    obtain j where "lg_evidence db' = (lg_evidence verified_desk)\<lparr>ev_journal := j\<rparr>" using same unfolding same_tables_def by blast
    then show ?thesis by (simp add: verified_desk_def report_desk_def empty_evidence_def)
  qed
  moreover have "tr_status (step_to ''approved'') = ''approved''" by (simp add: step_to_def)
  moreover have "context_of (plan_entry ''top_it'' ''p1'' ''g1'') = first_report" "\<not> en_top_legacy (plan_entry ''top_it'' ''p1'' ''g1'')"
    by (simp_all add: plan_entry_def context_of_def first_report_def)
  ultimately have "entry_eligible db' ''e1'' (plan_entry ''top_it'' ''p1'' ''g1'')"
    using approved_entries_count [OF verified_desk_ok t _ e(1) _ e(2)] by (simp only: list_ex_iff list.set bex_simps simp_thms)
  with t show ?thesis by blast
qed

theorem report_step_rights_witness:
  "\<exists>db'. transition (at_noon\<lparr>rq_now := 0\<rparr>) company_admin first_report (step_to ''approved'') ''g1approved'' verified_desk = Inr db'
    \<and> report_status verified_desk first_report = ''verified'' \<and> allows ''org_admin'' approve_reports"
proof -
  obtain db' where t: "transition (at_noon\<lparr>rq_now := 0\<rparr>) company_admin first_report (step_to ''approved'') ''g1approved'' verified_desk = Inr db'"
    using approving_step by blast
  from report_step_rights [OF t] t show ?thesis by (simp add: step_to_def company_admin_def)
qed

lemma ready_run: "report_states (reached plain_env [move_report ''g1'' ''ready''] report_desk) = [(first_report, ''ready'')]"
  by code_simp

lemma desk_tasks_ok: "tasks_ok (lg_tasks report_desk)"
  using office_ok by (simp add: tasks_ok_def report_desk_def office_def users_ok_def known_user_def)

theorem tasks_follow_report_witness:
  "length (open_for report_verify first_report (lg_tasks (reached plain_env [move_report ''g1'' ''ready''] report_desk))) = 1"
proof -
  have "report_states report_desk = []" by (simp add: report_states_def report_desk_def)
  then obtain db' where t: "transition (at_noon\<lparr>rq_now := 0\<rparr>) company_admin first_report (step_to ''ready'') ''g1ready'' report_desk = Inr db'"
    "reached plain_env [move_report ''g1'' ''ready''] report_desk = db'"
    using moved [of plain_env "''g1''" "''ready''" report_desk] ready_run by (auto simp: first_report_def)
  have "map_of (lg_agreements report_desk) (fst first_report) = Some (education_agreement ''1'')"
    by (simp add: report_desk_def first_report_def)
  moreover have "trim_space (report_subject first_report) = report_subject first_report" by code_simp
  ultimately show ?thesis using tasks_follow_report [OF t(1) desk_tasks_ok, of "education_agreement ''1''" "''c1''"] t(2)
    by (simp add: step_to_def) (simp add: education_agreement_def)
qed

text \<open>
  A task that an automatic reset leaves behind: the report was verified, a change of an entry returned it
  to its draft, and after it is prepared again the old task of approval is open beside the new one.
\<close>

definition prepare_again :: ledger_command where
  "prepare_again = Transition (at_noon\<lparr>rq_now := 0\<rparr>) company_admin first_report (step_to ''ready'') ''again''"

definition open_kinds :: "ledger \<Rightarrow> (string \<times> string) list" where
  "open_kinds db = map (\<lambda>(i, t). (i, tk_kind t)) (filter (\<lambda>(_, t). tk_status t = open_status) (td_tasks (lg_tasks db)))"

lemma reset_leaves_task:
  "open_kinds (reached plain_env [move_report ''g1'' ''ready'', move_report ''g1'' ''verified'', StoreEntry ''e1'' dearer_entry 0,
     prepare_again] report_desk) = [(''g1verified'', report_approve), (''again'', report_verify)]"
  by code_simp

end
