(* ===== verification/Spec2Isabelle.thy ===== *)
theory Spec2Isabelle
  imports Breakdown Acceptance RegulatoryStore TaskProperties ReadinessLaws CacheLaws DocumentProperties ReportCases
begin

text \<open>
  A model of the backend of CyberCalculator (\<open>src/backend/internal\<close>, Go): the accounting of the
  activities by which IT companies support educational partners, under order 270 of the Ministry.
  An entry is a category, a period (plan or fact), a partner and a dynamic payload. Its payload is
  validated and its amount computed when it is saved; documents are attached to it and reviewed;
  readiness and risk are recomputed when it is read; the projection turns entries into
  contributions, which reports and the cache of aggregates add up. Around the entries stand the
  permission model, the curators of partners, the tasks that workflow events create, and the
  approval of lists with the Ministry, a state machine over calendar windows.

  How code is modelled. A Go function is a function of the same shape: \<open>(T, error)\<close> is a sum
  \<open>error + T\<close>, a struct a record, a map an association list, an int64 amount an \<open>int\<close> with its checks
  of overflow written out, a float64 the rational it denotes with the rounding of each operation, a
  string its list of bytes. A transaction is a function from the database to the database or an
  error; the tables are association lists with the CHECK constraints, unique indexes and triggers
  of the migrations as guards. The clock, generated identifiers and the users making requests are
  arguments. Failures of the connection to the database do not occur.

  The theories, in the order of the imports:

  \<^item> \<open>Prelude\<close>: results, loops that stop at an error, association lists, the interface of a machine
    with an invariant and that of a checked addition.
  \<^item> \<open>GoText\<close>, \<open>GoNumber\<close>, \<open>GoTime\<close>, \<open>GoDate\<close>: what the program uses of Go's standard library: UTF-8,
    white space and letter case; decimal literals and binary64; calendar days and instants, with
    Moscow days; dates as text.
  \<^item> \<open>Money\<close> (\<open>money/money.go\<close>), \<open>Tariffs\<close> (\<open>tariffs/tariffs.go\<close>): kopecks, their texts and roundings; the
    editions of the rates.
  \<^item> \<open>Payload\<close>, \<open>FieldTables\<close>, \<open>Categories\<close>, \<open>Checks\<close>, \<open>Decision\<close>, \<open>Acceptance\<close>, \<open>Exact\<close>, \<open>Breakdown\<close>
    (\<open>calculators/\<close>): the field tables of the nine categories, validation, the floating and the exact
    computation of the amount, its breakdown and its spreadsheet formula. The lemmas show what an
    accepted entry satisfies, that the exact amount is the formula of the Methodology rounded once,
    and that breakdown and formula text denote that amount.
  \<^item> \<open>Timestamps\<close>: what a \<open>timestamptz\<close> column keeps of a Go time, microseconds rounded by way of a binary64.
  \<^item> \<open>Regulatory\<close>, \<open>RegulatoryLaws\<close>, \<open>RegulatoryStore\<close> (\<open>regulatory/\<close>): the machine, the calendar of its
    windows, and the store with its background pass. Histories are a step relation; the store is a
    machine whose invariant says that every row is the end of a history, its moments kept to the
    microsecond, and that the stored events are that history but for their times, which are the
    database's. The scheduled pass (\<open>worker.go\<close>) gives no list of agreements: the nil slice becomes NULL
    and selects nothing, which the theorems state as it is.
  \<^item> \<open>Rbac\<close> (\<open>rbac/rbac.go\<close>), \<open>Access\<close> (\<open>handlers/access.go\<close>): the table of permissions and the checks of
    the handlers, with the reach of each kind of user.
  \<^item> \<open>Curators\<close> (\<open>curators/curators.go\<close>, migration 0109): periods of assignment and the profile that
    follows them.
  \<^item> \<open>AuditJournal\<close> (\<open>platform/audit/event.go\<close>), \<open>TaskRouting\<close>, \<open>Tasks\<close>, \<open>TaskLaws\<close>, \<open>TaskProperties\<close>
    (\<open>tasks/\<close>, migration 0809): who gets a task, its life, and the pass that reroutes it, in its scheduled
    form too (which selects nothing, for the same reason as above).
  \<^item> \<open>Readiness\<close>, \<open>ReadinessLaws\<close> (\<open>compliance/readiness.go\<close>), \<open>Risk\<close> (\<open>risk/risk.go\<close>): the checks of each
    category and the rules of risk.
  \<^item> \<open>Projection\<close>, \<open>ProjectionLaws\<close> (\<open>modules/reporting/repository/activity_projection.go\<close>,
    \<open>platform/activityprojection/projection.go\<close>), \<open>AggregateCache\<close>, \<open>CacheLaws\<close>
    (\<open>aggregates/aggregates.go\<close>, migration 0810): contributions, their sums, and the cache of the sums.
  \<^item> \<open>DocumentMetadata\<close> (\<open>compliance/document_metadata.go\<close>): the requisites of a document and its signature.
  \<^item> \<open>Sha256\<close>, \<open>BlobStore\<close> (\<open>filestore/\<close>): the digest, the store of files by digest, the check of uploads
    and the antivirus verdict; a blob keeps the content its address names.
  \<^item> \<open>Documents\<close>, \<open>DocumentLaws\<close>, \<open>DocumentProperties\<close> (\<open>handlers/attachments.go\<close>,
    \<open>handlers/document_metadata.go\<close>, \<open>retention/retention.go\<close>, migrations 0801, 0803, 0808, 0904): the
    evidence of entries as a machine: upload, review, requisites, disputes and clean-up, what each
    keeps, and what follows for readers, reviewers and the projection. An upload is a sequence of
    steps (its checks, one turn per file, its transaction, or a cancellation) between which everything else may run; a
    whole upload is the same steps uninterrupted (\<open>upload_steps\<close>). The tables are sound in any order of
    steps, the files only when uploads are not interrupted (\<open>interleaved_upload_loses_file\<close>).
  \<^item> \<open>Ledger\<close> (migrations 0001, 0011, 0013, 0014, 0019, 0811): agreements, their activities and people, the
    entries, the triggers that return a report to its draft, and the view that says which entries
    count. \<open>ReportWorkflow\<close>, \<open>ReportLaws\<close>, \<open>ReportProperties\<close>, \<open>ReportCases\<close> (\<open>handlers/report_workflow.go\<close>,
    \<open>handlers/report_tasks.go\<close>): the report of an agreement, its steps and their tasks; an approved
    report has come the whole way with everything confirmed, a change withdraws it, and what the code
    approves is compared with what the view counts.
  \<^item> \<open>TextCode\<close>: code equations by which texts outside ASCII are evaluated.

  Interfaces. A machine with an invariant (\<open>Prelude\<close>) is interpreted on the regulatory store, the
  curators, the tasks, the evidence store and the ledger; the readers of the projection (\<open>ProjectionLaws\<close>, \<open>CacheLaws\<close>) are
  interpreted on the query over stored entries. Clients prove their laws once inside the locale.

  Bounds. The only fuel is that of the decimal digits of a binary64 (18, more than the 17 digits the
  shortest text needs). The scheduled pass over tasks takes 500 at a time, as the code does; its
  liveness is stated for at most 500. The clean-up takes 500 documents and 500 queued files, as the
  code does. Loops are structural recursions on lists.

  Relied on. The compressor of blobs reads back what it writes (\<open>faithful\<close>); the detection of content
  types, the zip reader and the scanner are arbitrary arguments.

  Not modelled. Handlers that decode requests and encode responses (reports, dashboards,
  directories, imports), and the parts that are input and output: backups, spreadsheets and
  documents as zip files, cryptographic engines, upgrade and installation tools, the server and its
  routes, the browser application. Titles and labels shown to users are modelled only where they
  reach stored data. Paths of files are those below the root of the store: their confinement, and the
  temporary files of writing, are left out. Numeric texts spelled as infinities, NaN or
  hexadecimal are excluded where \<open>strconv.ParseFloat\<close> would read them. Letter case is written out for
  Latin, Greek and Cyrillic.
\<close>

end
